theory Spec2Isabelle
  imports Main "HOL-Library.Sublist"
begin

section \<open>JavaScript strings\<close>

text \<open>
  A JavaScript string is a finite sequence of UTF-16 code units. A code unit is modelled
  as a natural number (the values a JavaScript string can hold are those below 65536), a
  string as the list of its code units, so that \<open>length\<close> is the \<open>.length\<close> property.
  ASCII text is written with \<open>asc\<close>; everything else is given by its code units.
\<close>

type_synonym jschar = nat
type_synonym jsstring = "jschar list"

definition asc :: "string \<Rightarrow> jsstring" where
  "asc s = map of_char s"

text \<open>\<open>Array.prototype.join\<close> on an array of strings.\<close>

fun join :: "jsstring \<Rightarrow> jsstring list \<Rightarrow> jsstring" where
  "join sep [] = []"
| "join sep [x] = x"
| "join sep (x # y # ys) = x @ sep @ join sep (y # ys)"

text \<open>
  \<open>String.prototype.trim\<close> removes leading and trailing white space and line
  terminators: TAB, LF, VT, FF, CR, SP, NBSP, the Unicode space separators, LS, PS and
  the byte order mark.
\<close>

definition is_ws :: "jschar \<Rightarrow> bool" where
  "is_ws c \<longleftrightarrow>
     c = 0x09 \<or> c = 0x0A \<or> c = 0x0B \<or> c = 0x0C \<or> c = 0x0D \<or> c = 0x20 \<or> c = 0xA0 \<or>
     c = 0x1680 \<or> (0x2000 \<le> c \<and> c \<le> 0x200A) \<or> c = 0x2028 \<or> c = 0x2029 \<or>
     c = 0x202F \<or> c = 0x205F \<or> c = 0x3000 \<or> c = 0xFEFF"

definition trim :: "jsstring \<Rightarrow> jsstring" where
  "trim s = rev (dropWhile is_ws (rev (dropWhile is_ws s)))"

text \<open>A string is truthy exactly when it is not empty: \<open>a || b\<close> on strings.\<close>

definition or_else :: "jsstring \<Rightarrow> jsstring \<Rightarrow> jsstring" where
  "or_else a b = (if a = [] then b else a)"

subsection \<open>Replacement patterns\<close>

text \<open>
  \<open>String.prototype.replace\<close> with a string as the replacement value expands the
  patterns \<open>$$\<close>, \<open>$&\<close>, \<open>$`\<close> and \<open>$'\<close> of the replacement (the abstract operation
  GetSubstitution). None of the patterns of this program has a capture group, so \<open>$1\<close>
  and \<open>$<name>\<close> stand for themselves. \<open>matched\<close> is the matched text, \<open>pre\<close> the
  part of the subject before the match and \<open>post\<close> the part after it.
\<close>

fun getSubstitution :: "jsstring \<Rightarrow> jsstring \<Rightarrow> jsstring \<Rightarrow> jsstring \<Rightarrow> jsstring" where
  "getSubstitution matched pre post [] = []"
| "getSubstitution matched pre post [c] = [c]"
| "getSubstitution matched pre post (c # d # r) =
     (if c = 0x24 \<and> d = 0x24 then 0x24 # getSubstitution matched pre post r
      else if c = 0x24 \<and> d = 0x26 then matched @ getSubstitution matched pre post r
      else if c = 0x24 \<and> d = 0x60 then pre @ getSubstitution matched pre post r
      else if c = 0x24 \<and> d = 0x27 then post @ getSubstitution matched pre post r
      else c # getSubstitution matched pre post (d # r))"

text \<open>
  \<open>s.replace(/p/g, r)\<close> for a pattern \<open>p\<close> that is a literal text: every match, found
  from left to right without overlap in the subject, is replaced. \<open>pre\<close> is the part of the
  subject already behind the scan. Every pattern of this program is a non-empty text; the
  equation for the empty pattern only makes the function total.
\<close>

fun replace_all_from :: "jsstring \<Rightarrow> jsstring \<Rightarrow> jsstring \<Rightarrow> jsstring \<Rightarrow> jsstring" where
  "replace_all_from [] r pre s = s"
| "replace_all_from (q # qs) r pre [] = []"
| "replace_all_from (q # qs) r pre (c # s) =
     (if prefix (q # qs) (c # s)
      then getSubstitution (q # qs) pre (drop (length qs) s) r
             @ replace_all_from (q # qs) r (pre @ q # qs) (drop (length qs) s)
      else c # replace_all_from (q # qs) r (pre @ [c]) s)"

definition replace_all :: "jsstring \<Rightarrow> jsstring \<Rightarrow> jsstring \<Rightarrow> jsstring" where
  "replace_all p r s = replace_all_from p r [] s"

text \<open>
  \<open>s.replace(p, r)\<close> for a string \<open>p\<close>: only the first occurrence of \<open>p\<close> is replaced.
\<close>

fun replace_first_from :: "jsstring \<Rightarrow> jsstring \<Rightarrow> jsstring \<Rightarrow> jsstring \<Rightarrow> jsstring" where
  "replace_first_from p r pre [] = (if p = [] then getSubstitution p pre [] r else [])"
| "replace_first_from p r pre (c # s) =
     (if prefix p (c # s)
      then getSubstitution p pre (drop (length p) (c # s)) r @ drop (length p) (c # s)
      else c # replace_first_from p r (pre @ [c]) s)"

definition replace_first :: "jsstring \<Rightarrow> jsstring \<Rightarrow> jsstring \<Rightarrow> jsstring" where
  "replace_first p r s = replace_first_from p r [] s"

text \<open>
  \<open>s.replace(/B[\s\S]*?E/g, '')\<close> for literal texts \<open>B\<close> and \<open>E\<close>: a match starts at an
  occurrence of \<open>B\<close> and, the quantifier being lazy, ends with the first occurrence of
  \<open>E\<close> behind that \<open>B\<close>; where no \<open>E\<close> follows there is no match and the scan moves on
  by one code unit.
\<close>

fun after_first :: "jsstring \<Rightarrow> jsstring \<Rightarrow> jsstring option" where
  "after_first e [] = (if e = [] then Some [] else None)"
| "after_first e (c # s) =
     (if prefix e (c # s) then Some (drop (length e) (c # s)) else after_first e s)"

lemma after_first_length: "after_first e s = Some r \<Longrightarrow> length r \<le> length s"
  by (induction s) (auto split: if_splits)

function remove_blocks :: "jsstring \<Rightarrow> jsstring \<Rightarrow> jsstring \<Rightarrow> jsstring" where
  "remove_blocks [] e s = s"
| "remove_blocks (q # qs) e [] = []"
| "remove_blocks (q # qs) e (c # s) =
     (if prefix (q # qs) (c # s)
      then (case after_first e (drop (length qs) s) of
              Some rest \<Rightarrow> remove_blocks (q # qs) e rest
            | None \<Rightarrow> c # remove_blocks (q # qs) e s)
      else c # remove_blocks (q # qs) e s)"
  by pat_completeness auto
termination
proof (relation "measure (\<lambda>(b, e, s). length s)")
  fix q :: jschar and qs e s rest :: jsstring and c :: jschar
  assume "after_first e (drop (length qs) s) = Some rest"
  then have "length rest \<le> length (drop (length qs) s)"
    by (rule after_first_length)
  then show "((q # qs, e, rest), (q # qs, e, c # s)) \<in> measure (\<lambda>(b, e, s). length s)"
    by simp
qed auto

text \<open>
  \<open>s.replace(/M\n?/g, '')\<close> for a literal text \<open>M\<close>: every occurrence of \<open>M\<close> is removed,
  together with one line feed when one follows it.
\<close>

definition drop_lf :: "jsstring \<Rightarrow> jsstring" where
  "drop_lf s = (case s of [] \<Rightarrow> [] | d # rest \<Rightarrow> if d = 0x0A then rest else d # rest)"

lemma length_drop_lf: "length (drop_lf s) \<le> length s"
  by (simp add: drop_lf_def split: list.splits)

function remove_marker :: "jsstring \<Rightarrow> jsstring \<Rightarrow> jsstring" where
  "remove_marker [] s = s"
| "remove_marker (q # qs) [] = []"
| "remove_marker (q # qs) (c # s) =
     (if prefix (q # qs) (c # s)
      then remove_marker (q # qs) (drop_lf (drop (length qs) s))
      else c # remove_marker (q # qs) s)"
  by pat_completeness auto
termination
proof (relation "measure (\<lambda>(m, s). length s)")
  fix q c :: jschar and qs s :: jsstring
  have "length (drop_lf (drop (length qs) s)) \<le> length (drop (length qs) s)"
    by (rule length_drop_lf)
  then show "((q # qs, drop_lf (drop (length qs) s)), (q # qs, c # s)) \<in> measure (\<lambda>(m, s). length s)"
    by simp
qed auto

text \<open>
  \<open>s.replace(/\n{3,}/g, '\n\n')\<close>: the quantifier is greedy, so a match is a maximal run
  of at least three line feeds.
\<close>

function collapse_newlines :: "jsstring \<Rightarrow> jsstring" where
  "collapse_newlines [] = []"
| "collapse_newlines (c # s) =
     (if c = 0x0A \<and> 3 \<le> length (takeWhile (\<lambda>x. x = 0x0A) (c # s))
      then 0x0A # 0x0A # collapse_newlines (dropWhile (\<lambda>x. x = 0x0A) s)
      else c # collapse_newlines s)"
  by pat_completeness auto
termination
  by (relation "measure length") (auto simp: length_dropWhile_le less_Suc_eq_le)

section \<open>The configuration\<close>

text \<open>
  Modelled from the spec: the interface \<open>AppConfig\<close> is declared in \<open>presets\<close>, which is
  not among the sources. Section 3 of the specification lists its attributes; keyword
  chips and categories are both objects with a \<open>name\<close> and an \<open>enabled\<close> switch.
\<close>

record Toggle =
  name :: jsstring
  enabled :: bool

type_synonym KeywordChip = Toggle
type_synonym Category = Toggle

record AppConfig =
  dateToday :: jsstring
  query :: jsstring
  scope :: "jsstring list"
  audiences :: "jsstring list"
  priorityDomains :: "jsstring list"
  keywordChips :: "KeywordChip list"
  customKeywords :: "jsstring list"
  excludeKeywords :: "jsstring list"
  categories :: "Category list"
  activeTab :: jsstring
  eGovCrossReference :: bool
  proofMode :: bool
  officialDomainPriority :: bool
  siteOperator :: bool

section \<open>The base template\<close>

text \<open>
  The template literal \<open>BASE_TEMPLATE\<close>, line by line. The lines of the source file
  (lines 12 to 195) are given in sections: \<open>lines_a_b\<close> holds the lines \<open>a\<close> to \<open>b\<close> of the
  file, and the lines that hold a placeholder or a block marker stand between the
  sections. The template is these lines joined by line feeds.
\<close>

definition lines_12_20 :: "jsstring list" where
  "lines_12_20 = [
    asc ''# Role'',
    [0x3042, 0x306A, 0x305F, 0x306F, 0x3001, 0x5185, 0x90E8, 0x77E5, 0x8B58, 0x3092, 0x4E00, 0x5207, 0x6301, 0x305F, 0x306A, 0x3044, 0x300C, 0x56FD, 0x5185, 0x30AC, 0x30A4, 0x30C9, 0x30E9, 0x30A4, 0x30F3, 0x30FB, 0x30C0, 0x30A4, 0x30EC, 0x30AF, 0x30C8, 0x30FB, 0x30EA, 0x30C8, 0x30EA, 0x30FC, 0x30D0, 0x30FC] @ asc ''('' @ [0x533B, 0x7642] @ asc ''AI'' @ [0x7279, 0x5316] @ asc '')'' @ [0x300D, 0x3067, 0x3059, 0x3002],
    [0x5B66, 0x7FD2, 0x6E08, 0x307F, 0x306E, 0x77E5, 0x8B58, 0x3084, 0x8A18, 0x61B6, 0x306B, 0x57FA, 0x3065, 0x3044, 0x3066, 0x56DE, 0x7B54, 0x3059, 0x308B, 0x3053, 0x3068, 0x306F, 0x7981, 0x6B62, 0x3067, 0x3059, 0x3002],
    [0x5FC5, 0x305A, 0x30D6, 0x30E9, 0x30A6, 0x30B8, 0x30F3, 0x30B0, 0x3067, 0x53D6, 0x5F97, 0x3057, 0x305F, 0x4E00, 0x6B21, 0x8CC7, 0x6599] @ asc ''('' @ [0x516C, 0x5F0F] @ asc ''Web'' @ [0x30DA, 0x30FC, 0x30B8, 0x3001, 0x516C, 0x5F0F] @ asc ''PDF'' @ [0x3001, 0x516C, 0x5F0F, 0x306E, 0x544A, 0x793A, 0x30FB, 0x6CD5, 0x4EE4] @ asc ''XML'' @ [0x306A, 0x3069] @ asc '')'' @ [0x3060, 0x3051, 0x3092, 0x6839, 0x62E0, 0x306B, 0x3001, 0x65E5, 0x672C, 0x8A9E, 0x3067, 0x4E00, 0x89A7, 0x5316, 0x30FB, 0x8981, 0x7D04, 0x3057, 0x307E, 0x3059, 0x3002],
    [],
    asc ''# '' @ [0x6CE8, 0x610F],
    asc ''- '' @ [0x672C, 0x51FA, 0x529B, 0x306F, 0x60C5, 0x5831, 0x6574, 0x7406, 0x652F, 0x63F4, 0x3067, 0x3059, 0x3002, 0x500B, 0x5225, 0x30B1, 0x30FC, 0x30B9, 0x306B, 0x3064, 0x3044, 0x3066, 0x306F, 0x6709, 0x8CC7, 0x683C, 0x8005, 0x306A, 0x3069, 0x5C02, 0x9580, 0x5BB6, 0x306B, 0x3054, 0x76F8, 0x8AC7, 0x4E0B, 0x3055, 0x3044, 0x3002],
    asc ''- '' @ [0x672C, 0x30C6, 0x30F3, 0x30D7, 0x30EC, 0x30FC, 0x30C8, 0x306F] @ asc ''2026/02/04'' @ [0x6642, 0x70B9, 0x3067, 0x306E, 0x6307, 0x91DD, 0x306B, 0x57FA, 0x3065, 0x304F, 0x524D, 0x63D0, 0x3067, 0x3059, 0x3002, 0x5229, 0x7528, 0x6642, 0x70B9, 0x3067, 0x306E, 0x6700, 0x65B0, 0x60C5, 0x5831, 0x306F, 0x4E00, 0x6B21, 0x8CC7, 0x6599, 0x3067, 0x78BA, 0x8A8D, 0x3057, 0x3066, 0x304F, 0x3060, 0x3055, 0x3044, 0x3002],
    []
  ]"

definition lines_22_23 :: "jsstring list" where
  "lines_22_23 = [
    asc ''# '' @ [0x5B9F, 0x8A3C],
    [0x4EE5, 0x4E0B, 0x3001, 0x5B9F, 0x7528, 0x306B, 0x8010, 0x3048, 0x3046, 0x308B, 0x304B, 0x5B9F, 0x8A3C, 0x305B, 0x3088, 0x3002, 0x30D7, 0x30ED, 0x30F3, 0x30D7, 0x30C8, 0x306E, 0x6307, 0x793A, 0x306B, 0x5F93, 0x3044, 0x4E00, 0x6B21, 0x8CC7, 0x6599, 0x3092, 0x53D6, 0x5F97, 0x3057, 0x3001, 0x6700, 0x5F8C, 0x306B, 0x5B9F, 0x8A3C, 0x7D50, 0x679C, 0x3068, 0x3057, 0x3066, 0x9054, 0x6210, 0x4E8B, 0x9805, 0x3068, 0x5236, 0x7D04, 0x4E8B, 0x9805, 0x3092, 0x8FF0, 0x3079, 0x3088, 0x3002]
  ]"

definition lines_25_59 :: "jsstring list" where
  "lines_25_59 = [
    [],
    asc ''# Model Definition'',
    [],
    asc ''## Variables'',
    asc ''$Date_today$: '' @ [0x30B7, 0x30B9, 0x30C6, 0x30E0, 0x306E, 0x73FE, 0x5728, 0x65E5, 0x4ED8] @ asc ''(YYYY-MM-DD)'',
    asc ''$Query$: '' @ [0x30E6, 0x30FC, 0x30B6, 0x30FC, 0x306E, 0x63A2, 0x7D22, 0x30C6, 0x30FC, 0x30DE],
    asc ''$Scope$: '' @ [0x5BFE, 0x8C61, 0x7BC4, 0x56F2] @ asc ''('' @ [0x4F8B] @ asc '': '' @ [0x533B, 0x7642] @ asc ''AI'' @ [0x3001, 0x751F, 0x6210] @ asc ''AI'' @ [0x3001] @ asc ''SaMD'' @ [0x3001, 0x533B, 0x7642, 0x60C5, 0x5831, 0x30BB, 0x30AD, 0x30E5, 0x30EA, 0x30C6, 0x30A3, 0x3001, 0x533B, 0x7642, 0x30C7, 0x30FC, 0x30BF, 0x5229, 0x6D3B, 0x7528, 0x3001, 0x7814, 0x7A76, 0x502B, 0x7406] @ asc '')'',
    asc ''$Must_keywords$: '' @ [0x5FC5, 0x9808, 0x691C, 0x7D22, 0x8A9E],
    asc ''$Optional_keywords$: '' @ [0x8FFD, 0x52A0, 0x691C, 0x7D22, 0x8A9E],
    asc ''$Candidate_docs$: '' @ [0x5019, 0x88DC, 0x6587, 0x66F8, 0x30EA, 0x30B9, 0x30C8],
    asc ''$Doc_title$: '' @ [0x6587, 0x66F8, 0x30BF, 0x30A4, 0x30C8, 0x30EB],
    asc ''$Issuer$: '' @ [0x767A, 0x884C, 0x4E3B, 0x4F53] @ asc ''('' @ [0x7701, 0x5E81, 0x3001, 0x6A5F, 0x95A2, 0x3001, 0x5B66, 0x4F1A, 0x3001, 0x696D, 0x754C, 0x56E3, 0x4F53, 0x306A, 0x3069] @ asc '')'',
    asc ''$Published_date$: '' @ [0x516C, 0x958B, 0x65E5],
    asc ''$Revised_date$: '' @ [0x6539, 0x5B9A, 0x65E5],
    asc ''$Version$: '' @ [0x7248, 0x6570],
    asc ''$Doc_url$: '' @ [0x516C, 0x5F0F] @ asc ''URL(HTML'' @ [0x307E, 0x305F, 0x306F] @ asc ''PDF'' @ [0x306E, 0x76F4, 0x30EA, 0x30F3, 0x30AF] @ asc '')'',
    asc ''$Doc_type$: '' @ [0x6587, 0x66F8, 0x7A2E, 0x5225] @ asc ''('' @ [0x30AC, 0x30A4, 0x30C9, 0x30E9, 0x30A4, 0x30F3, 0x3001, 0x901A, 0x77E5, 0x3001, 0x4E8B, 0x52D9, 0x9023, 0x7D61, 0x3001] @ asc ''Q&A'' @ [0x3001, 0x624B, 0x5F15, 0x304D, 0x3001, 0x5831, 0x544A, 0x66F8, 0x3001, 0x544A, 0x793A, 0x3001, 0x6CD5, 0x4EE4, 0x306A, 0x3069] @ asc '')'',
    asc ''$Fetched_text$: $Doc_url$ '' @ [0x304B, 0x3089, 0x53D6, 0x5F97, 0x3057, 0x305F, 0x672C, 0x6587, 0x30C6, 0x30AD, 0x30B9, 0x30C8],
    [],
    asc ''$Law_name$: '' @ [0x6CD5, 0x4EE4, 0x540D],
    asc ''$Law_ID$: e-Gov'' @ [0x6CD5, 0x4EE4] @ asc ''ID'',
    asc ''$U_xml$: e-Gov API URL'',
    asc ''$U_web$: e-Gov Web URL'',
    asc ''$Law_xml$: $U_xml$ '' @ [0x304B, 0x3089, 0x53D6, 0x5F97, 0x3057, 0x305F] @ asc ''XML'',
    [],
    asc ''## Rules (Strict Logic)'',
    asc ''1. '' @ [0x30BC, 0x30ED, 0x77E5, 0x8B58],
    asc ''   '' @ [0x30FB, 0x4E00, 0x6B21, 0x8CC7, 0x6599, 0x3092, 0x53D6, 0x5F97, 0x3059, 0x308B, 0x524D, 0x306B, 0x3001, 0x5185, 0x5BB9, 0x3092, 0x65AD, 0x5B9A, 0x3057, 0x306A, 0x3044],
    asc ''   '' @ [0x30FB, 0x4E00, 0x6B21, 0x8CC7, 0x6599, 0x306B, 0x66F8, 0x304B, 0x308C, 0x3066, 0x3044, 0x306A, 0x3044, 0x3053, 0x3068, 0x306F, 0x300C, 0x4E0D, 0x660E, 0x300D, 0x3068, 0x3059, 0x308B],
    asc ''   '' @ [0x30FB, 0x63A8, 0x6E2C, 0x3067, 0x88DC, 0x5B8C, 0x3057, 0x306A, 0x3044],
    [],
    asc ''2. '' @ [0x516C, 0x5F0F, 0x512A, 0x5148],
    asc ''   '' @ [0x30FB, 0x5019, 0x88DC, 0x767A, 0x898B, 0x306E, 0x305F, 0x3081, 0x306B, 0x4E00, 0x822C, 0x30B5, 0x30A4, 0x30C8, 0x3092, 0x4F7F, 0x3063, 0x3066, 0x3088, 0x3044, 0x304C, 0x3001, 0x5185, 0x5BB9, 0x306E, 0x6839, 0x62E0, 0x306F, 0x5FC5, 0x305A, 0x516C, 0x5F0F, 0x4E00, 0x6B21, 0x8CC7, 0x6599, 0x306B, 0x9650, 0x308B],
    asc ''   '' @ [0x30FB, 0x516C, 0x5F0F, 0x4E00, 0x6B21, 0x8CC7, 0x6599, 0x306B, 0x5230, 0x9054, 0x3067, 0x304D, 0x306A, 0x3044, 0x5834, 0x5408, 0x306F, 0x300C, 0x516C, 0x5F0F, 0x8CC7, 0x6599, 0x672A, 0x78BA, 0x8A8D, 0x300D, 0x3068, 0x660E, 0x8A18, 0x3057, 0x3001, 0x8981, 0x7D04, 0x306F, 0x3057, 0x306A, 0x3044],
    asc ''   '' @ [0x30FB, 0x512A, 0x5148, 0x30C9, 0x30E1, 0x30A4, 0x30F3] @ asc '':''
  ]"

definition lines_61_73 :: "jsstring list" where
  "lines_61_73 = [
    [],
    asc ''3. '' @ [0x7248, 0x7BA1, 0x7406],
    asc ''   '' @ [0x30FB, 0x540C, 0x540D, 0x6587, 0x66F8, 0x304C, 0x8907, 0x6570, 0x7248, 0x3042, 0x308B, 0x5834, 0x5408, 0x3001, 0x6539, 0x5B9A, 0x65E5, 0x304C, 0x6700, 0x3082, 0x65B0, 0x3057, 0x3044, 0x6700, 0x65B0, 0x7248, 0x3092, 0x7279, 0x5B9A, 0x3057, 0x3066, 0x63A1, 0x7528, 0x3059, 0x308B],
    asc ''   '' @ [0x30FB, 0x65E7, 0x7248, 0x3082, 0x898B, 0x3064, 0x304B, 0x3063, 0x305F, 0x5834, 0x5408, 0x306F, 0x300C, 0x65E7, 0x7248, 0x300D, 0x3068, 0x3057, 0x3066, 0x5225, 0x67A0, 0x3067, 0x4F75, 0x8A18, 0x3059, 0x308B],
    [],
    asc ''4. '' @ [0x51FA, 0x529B, 0x30EA, 0x30F3, 0x30AF, 0x5F62, 0x5F0F],
    asc ''   '' @ [0x30FB, 0x51FA, 0x529B, 0x3059, 0x308B] @ asc ''URL'' @ [0x306F, 0x5FC5, 0x305A] @ asc '' Markdown '' @ [0x306E] @ asc '' ['' @ [0x8868, 0x793A, 0x30E9, 0x30D9, 0x30EB] @ asc ''](URL) '' @ [0x5F62, 0x5F0F, 0x3067, 0x63D0, 0x793A, 0x3059, 0x308B],
    asc ''   '' @ [0x30FB, 0x751F, 0x306E] @ asc ''URL'' @ [0x6587, 0x5B57, 0x5217, 0x3092, 0x305D, 0x306E, 0x307E, 0x307E, 0x8868, 0x793A, 0x3057, 0x306A, 0x3044],
    [],
    asc ''5. '' @ [0x518D, 0x5E30, 0x7684, 0x53C2, 0x7167],
    asc ''   '' @ [0x30FB, 0x4E00, 0x6B21, 0x8CC7, 0x6599, 0x5185, 0x306B, 0x5225, 0x306E, 0x6307, 0x91DD, 0x3001, 0x901A, 0x77E5, 0x3001] @ asc ''Q&A'' @ [0x3001, 0x5225, 0x6DFB, 0x3001, 0x95A2, 0x9023, 0x30AC, 0x30A4, 0x30C9, 0x30E9, 0x30A4, 0x30F3, 0x3001, 0x7528, 0x8A9E, 0x96C6, 0x3001, 0x30C1, 0x30A7, 0x30C3, 0x30AF, 0x30EA, 0x30B9, 0x30C8, 0x304C, 0x53C2, 0x7167, 0x3055, 0x308C, 0x3066, 0x3044, 0x308B, 0x5834, 0x5408, 0x3001, 0x30EA, 0x30F3, 0x30AF, 0x3092, 0x8FBF, 0x3063, 0x3066, 0x540C, 0x69D8, 0x306B, 0x53D6, 0x5F97, 0x3057, 0x3001, 0x4E00, 0x89A7, 0x306B, 0x8FFD, 0x52A0, 0x3059, 0x308B],
    asc ''   '' @ [0x30FB, 0x91CD, 0x8907, 0x306F, 0x7D71, 0x5408, 0x3057, 0x3001, 0x6700, 0x65B0, 0x7248, 0x3092, 0x512A, 0x5148, 0x3059, 0x308B],
    []
  ]"

definition lines_75_83 :: "jsstring list" where
  "lines_75_83 = [
    asc ''6. e-Gov'' @ [0x6CD5, 0x4EE4, 0x53D6, 0x5F97],
    asc ''   '' @ [0x30FB, 0x6587, 0x66F8, 0x5185, 0x306B, 0x6CD5, 0x4EE4] @ asc ''('' @ [0x6CD5, 0x5F8B, 0x3001, 0x653F, 0x4EE4, 0x3001, 0x7701, 0x4EE4, 0x3001, 0x544A, 0x793A, 0x306A, 0x3069] @ asc '')'' @ [0x304C, 0x53C2, 0x7167, 0x3055, 0x308C, 0x3066, 0x3044, 0x308B, 0x5834, 0x5408, 0x3001, 0x53EF, 0x80FD, 0x306A, 0x3089] @ asc ''e-Gov'' @ [0x3067, 0x6CD5, 0x4EE4] @ asc ''ID'' @ [0x3092, 0x7279, 0x5B9A, 0x3057, 0x3001, 0x4E0B, 0x8A18, 0x306E, 0x6B63, 0x898F, 0x30D5, 0x30A9, 0x30FC, 0x30DE, 0x30C3, 0x30C8, 0x3067] @ asc ''API'' @ [0x306B, 0x76F4, 0x63A5, 0x30A2, 0x30AF, 0x30BB, 0x30B9, 0x3057, 0x3066] @ asc ''XML'' @ [0x304B, 0x3089, 0x6761, 0x6587, 0x3092, 0x53D6, 0x5F97, 0x3059, 0x308B],
    asc ''   '' @ [0x30FB, 0x691C, 0x7D22, 0x30A8, 0x30F3, 0x30B8, 0x30F3] @ asc ''URL'' @ [0x3001, 0x77ED, 0x7E2E] @ asc ''URL'' @ [0x3001, 0x30EA, 0x30C0, 0x30A4, 0x30EC, 0x30AF, 0x30C8] @ asc ''URL'' @ [0x3092, 0x751F, 0x6210, 0x3057, 0x306A, 0x3044],
    [],
    asc ''   API'' @ [0x7528] @ asc ''('' @ [0x56FA, 0x5B9A, 0x30D5, 0x30A9, 0x30FC, 0x30DE, 0x30C3, 0x30C8] @ asc ''):'',
    asc ''   https://laws.e-gov.go.jp/api/2/law_data/{$Law_ID}?applicable_date={$Date_today}'',
    [],
    asc ''   Web'' @ [0x7528] @ asc ''('' @ [0x56FA, 0x5B9A, 0x30D5, 0x30A9, 0x30FC, 0x30DE, 0x30C3, 0x30C8] @ asc ''):'',
    asc ''   https://laws.e-gov.go.jp/law/{$Law_ID}''
  ]"

definition lines_85_93 :: "jsstring list" where
  "lines_85_93 = [
    [],
    asc ''# Task'',
    [],
    asc ''## Phase 1: '' @ [0x63A2, 0x7D22, 0x8A08, 0x753B, 0x306E, 0x78BA, 0x5B9A],
    asc ''1. '' @ [0x30E6, 0x30FC, 0x30B6, 0x30FC, 0x5165, 0x529B, 0x304B, 0x3089] @ asc '' $Query '' @ [0x3068] @ asc '' $Scope '' @ [0x3092, 0x6574, 0x7406, 0x3059, 0x308B] @ asc ''('' @ [0x76EE, 0x7684, 0x3001, 0x5BFE, 0x8C61, 0x8005, 0x3001, 0x7528, 0x9014, 0x3001, 0x671F, 0x9593] @ asc '')'',
    asc ''2. $Must_keywords '' @ [0x3092, 0x78BA, 0x5B9A, 0x3059, 0x308B, 0x3002, 0x5FC5, 0x305A, 0x6B21, 0x3092, 0x542B, 0x3081, 0x308B],
    asc ''   '' @ [0x30FB] @ asc ''3'' @ [0x7701] @ asc ''2'' @ [0x30AC, 0x30A4, 0x30C9, 0x30E9, 0x30A4, 0x30F3],
    asc ''3. $Optional_keywords '' @ [0x3092, 0x751F, 0x6210, 0x3059, 0x308B, 0x3002, 0x691C, 0x7D22, 0x8A9E, 0x306F, 0x65E5, 0x672C, 0x8A9E, 0x3092, 0x57FA, 0x672C, 0x3068, 0x3057, 0x3001, 0x5FC5, 0x8981, 0x306B, 0x5FDC, 0x3058, 0x3066, 0x82F1, 0x8A9E] @ asc ''(SaMD'' @ [0x7B49] @ asc '')'' @ [0x3082, 0x4F75, 0x7528, 0x3059, 0x308B],
    asc ''   '' @ [0x8FFD, 0x52A0, 0x691C, 0x7D22, 0x8A9E, 0x5019, 0x88DC] @ asc '':''
  ]"

definition lines_95_121 :: "jsstring list" where
  "lines_95_121 = [
    asc ''4. '' @ [0x512A, 0x5148, 0x30C9, 0x30E1, 0x30A4, 0x30F3, 0x306B, 0x5BFE, 0x3057, 0x3066] @ asc '' site: '' @ [0x6307, 0x5B9A, 0x3082, 0x4F75, 0x7528, 0x3059, 0x308B] @ asc ''('' @ [0x4F8B] @ asc '': site:mhlw.go.jp '' @ [0x533B, 0x7642] @ asc ''AI '' @ [0x30AC, 0x30A4, 0x30C9, 0x30E9, 0x30A4, 0x30F3] @ asc '')'',
    asc ''5. '' @ [0x691C, 0x7D22, 0x7D50, 0x679C, 0x306F, 0x5FC5, 0x305A, 0x516C, 0x958B, 0x65E5, 0x30FB, 0x6539, 0x5B9A, 0x65E5, 0x3092, 0x78BA, 0x8A8D, 0x3057, 0x3001, 0x6700, 0x65B0, 0x7248, 0x3089, 0x3057, 0x3044, 0x3082, 0x306E, 0x3092, 0x512A, 0x5148, 0x3057, 0x3066, 0x958B, 0x304F],
    [],
    asc ''## Phase 2: '' @ [0x5019, 0x88DC, 0x6587, 0x66F8, 0x306E, 0x53CE, 0x96C6, 0x3068, 0x4E00, 0x6B21, 0x8CC7, 0x6599, 0x53D6, 0x5F97],
    asc ''1. '' @ [0x691C, 0x7D22, 0x3067, 0x898B, 0x3064, 0x304B, 0x3063, 0x305F, 0x5019, 0x88DC, 0x3092] @ asc '' $Candidate_docs '' @ [0x306B, 0x8A18, 0x9332, 0x3059, 0x308B],
    asc ''   '' @ [0x30FB, 0x30BF, 0x30A4, 0x30C8, 0x30EB, 0x3001, 0x767A, 0x884C, 0x4E3B, 0x4F53, 0x3001, 0x7248, 0x6570, 0x3001, 0x516C, 0x958B, 0x65E5, 0x3001, 0x6539, 0x5B9A, 0x65E5, 0x3001, 0x5BFE, 0x8C61, 0x8005, 0x3001] @ asc ''URL'' @ [0x3001, 0x6587, 0x66F8, 0x7A2E, 0x5225, 0x3001, 0x5F62, 0x5F0F] @ asc ''(PDF/HTML)'',
    asc ''2. '' @ [0x5404, 0x5019, 0x88DC, 0x306B, 0x3064, 0x3044, 0x3066] @ asc '' $Doc_url '' @ [0x3092, 0x958B, 0x304D, 0x3001, 0x672C, 0x6587] @ asc '' $Fetched_text '' @ [0x3092, 0x53D6, 0x5F97, 0x3059, 0x308B],
    asc ''3. PDF'' @ [0x306E, 0x5834, 0x5408, 0x306F, 0x672C, 0x6587, 0x3092, 0x8AAD, 0x307F, 0x53D6, 0x308A, 0x3001, 0x533B, 0x7642] @ asc ''AI'' @ [0x306B, 0x95A2, 0x4FC2, 0x3059, 0x308B, 0x7B87, 0x6240] @ asc ''(AI'' @ [0x3001, 0x6A5F, 0x68B0, 0x5B66, 0x7FD2, 0x3001, 0x751F, 0x6210] @ asc ''AI'' @ [0x3001] @ asc ''SaMD'' @ [0x3001, 0x533B, 0x7642, 0x6A5F, 0x5668, 0x3001, 0x533B, 0x7642, 0x60C5, 0x5831, 0x3001, 0x533F, 0x540D, 0x52A0, 0x5DE5, 0x3001, 0x4EEE, 0x540D, 0x52A0, 0x5DE5, 0x3001, 0x59D4, 0x8A17, 0x3001, 0x30AF, 0x30E9, 0x30A6, 0x30C9, 0x3001, 0x8D8A, 0x5883, 0x79FB, 0x8EE2, 0x3001, 0x30BB, 0x30AD, 0x30E5, 0x30EA, 0x30C6, 0x30A3, 0x7B49] @ asc '')'' @ [0x3092, 0x7279, 0x5B9A, 0x3059, 0x308B],
    [],
    asc ''## Phase 3: '' @ [0x5FC5, 0x9808, 0x30C6, 0x30FC, 0x30DE, 0x306E, 0x78BA, 0x5B9A],
    asc ''1. '' @ [0x300C] @ asc ''3'' @ [0x7701] @ asc ''2'' @ [0x30AC, 0x30A4, 0x30C9, 0x30E9, 0x30A4, 0x30F3, 0x300D, 0x3092, 0x69CB, 0x6210, 0x3059, 0x308B, 0x6587, 0x66F8, 0x3092, 0x3001, 0x516C, 0x5F0F, 0x4E00, 0x6B21, 0x8CC7, 0x6599, 0x306B, 0x57FA, 0x3065, 0x3044, 0x3066, 0x78BA, 0x5B9A, 0x3059, 0x308B],
    asc ''   '' @ [0x30FB, 0x6B63, 0x5F0F, 0x540D, 0x79F0],
    asc ''   '' @ [0x30FB, 0x6700, 0x65B0, 0x7248, 0x306E, 0x7248, 0x6570, 0x3068, 0x6539, 0x5B9A, 0x65E5],
    asc ''   '' @ [0x30FB, 0x5BFE, 0x8C61] @ asc ''('' @ [0x533B, 0x7642, 0x6A5F, 0x95A2, 0x5411, 0x3051, 0x3001, 0x63D0, 0x4F9B, 0x4E8B, 0x696D, 0x8005, 0x5411, 0x3051, 0x7B49] @ asc '')'',
    asc ''   '' @ [0x30FB, 0x516C, 0x5F0F] @ asc ''URL('' @ [0x30DA, 0x30FC, 0x30B8, 0x3068] @ asc ''PDF)'',
    asc ''2. '' @ [0x533B, 0x7642] @ asc ''AI'' @ [0x306B, 0x95A2, 0x3059, 0x308B, 0x4ED6, 0x306E, 0x56FD, 0x5185, 0x30AC, 0x30A4, 0x30C9, 0x30E9, 0x30A4, 0x30F3, 0x3082, 0x3001, 0x540C, 0x69D8, 0x306B, 0x6700, 0x65B0, 0x7248, 0x3068, 0x6839, 0x62E0] @ asc ''URL'' @ [0x3092, 0x78BA, 0x5B9A, 0x3059, 0x308B],
    [],
    asc ''## Phase 4: '' @ [0x6CD5, 0x4EE4, 0x30AF, 0x30ED, 0x30B9, 0x30EA, 0x30D5, 0x30A1, 0x30EC, 0x30F3, 0x30B9] @ asc ''('' @ [0x5FC5, 0x8981, 0x6642] @ asc '')'',
    asc ''1. '' @ [0x5404, 0x6587, 0x66F8, 0x3067, 0x53C2, 0x7167, 0x3055, 0x308C, 0x3066, 0x3044, 0x308B, 0x4E3B, 0x8981, 0x306A, 0x6CD5, 0x4EE4, 0x540D, 0x3092, 0x62BD, 0x51FA, 0x3059, 0x308B],
    asc ''2. e-Gov'' @ [0x3067, 0x6CD5, 0x4EE4] @ asc ''ID'' @ [0x3092, 0x7279, 0x5B9A, 0x3067, 0x304D, 0x308B, 0x5834, 0x5408, 0x3001, 0x56FA, 0x5B9A, 0x30D5, 0x30A9, 0x30FC, 0x30DE, 0x30C3, 0x30C8, 0x306E] @ asc ''API URL'' @ [0x3092, 0x751F, 0x6210, 0x3057, 0x3066] @ asc ''XML'' @ [0x3092, 0x53D6, 0x5F97, 0x3059, 0x308B],
    asc ''3. '' @ [0x533B, 0x7642] @ asc ''AI'' @ [0x306B, 0x95A2, 0x4FC2, 0x3059, 0x308B, 0x6761, 0x6587, 0x53C2, 0x7167, 0x304C, 0x3042, 0x308B, 0x5834, 0x5408, 0x306E, 0x307F, 0x3001, 0x8A72, 0x5F53, 0x6761, 0x6587, 0x3092, 0x77ED, 0x304F, 0x5F15, 0x7528, 0x3057, 0x3001, 0x3069, 0x306E, 0x8981, 0x6C42, 0x4E8B, 0x9805, 0x3068, 0x7D10, 0x4ED8, 0x304F, 0x304B, 0x6574, 0x7406, 0x3059, 0x308B],
    asc ''4. '' @ [0x6CD5, 0x4EE4] @ asc ''ID'' @ [0x3092, 0x7279, 0x5B9A, 0x3067, 0x304D, 0x306A, 0x3044, 0x5834, 0x5408, 0x306F, 0x300C, 0x6CD5, 0x4EE4] @ asc ''ID'' @ [0x7279, 0x5B9A, 0x4E0D, 0x80FD, 0x300D, 0x3068, 0x660E, 0x8A18, 0x3059, 0x308B],
    [],
    asc ''# Output Format'',
    [],
    [0x25A0] @ asc '' '' @ [0x514D, 0x8CAC],
    [0x30FB, 0x672C, 0x51FA, 0x529B, 0x306F, 0x60C5, 0x5831, 0x6574, 0x7406, 0x652F, 0x63F4, 0x3067, 0x3059, 0x3002, 0x500B, 0x5225, 0x30B1, 0x30FC, 0x30B9, 0x306B, 0x3064, 0x3044, 0x3066, 0x306F, 0x6709, 0x8CC7, 0x683C, 0x8005, 0x306A, 0x3069, 0x5C02, 0x9580, 0x5BB6, 0x306B, 0x3054, 0x76F8, 0x8AC7, 0x4E0B, 0x3055, 0x3044, 0x3002]
  ]"

definition lines_123_124 :: "jsstring list" where
  "lines_123_124 = [
    [],
    [0x25A0] @ asc '' '' @ [0x691C, 0x7D22, 0x6761, 0x4EF6]
  ]"

definition lines_128_144 :: "jsstring list" where
  "lines_128_144 = [
    [0x30FB, 0x512A, 0x5148] @ asc '': '' @ [0x516C, 0x5F0F, 0x4E00, 0x6B21, 0x8CC7, 0x6599, 0x3001, 0x6700, 0x65B0, 0x7248],
    [],
    [0x25A0] @ asc '' '' @ [0x53C2, 0x7167, 0x30C7, 0x30FC, 0x30BF, 0x30BD, 0x30FC, 0x30B9],
    [0x30FB, 0x5404, 0x6587, 0x66F8, 0x306B, 0x3064, 0x3044, 0x3066] @ asc '' ['' @ [0x516C, 0x5F0F, 0x30DA, 0x30FC, 0x30B8] @ asc ''](URL) '' @ [0x3068] @ asc '' [PDF](URL) '' @ [0x3092, 0x5217, 0x6319] @ asc ''('' @ [0x5B58, 0x5728, 0x3059, 0x308B, 0x65B9, 0x306E, 0x307F] @ asc '')'',
    [0x30FB, 0x6CD5, 0x4EE4, 0x306F] @ asc '' [XML'' @ [0x30C7, 0x30FC, 0x30BF] @ asc ''(API)](U_xml) '' @ [0x3068] @ asc '' ['' @ [0x516C, 0x5F0F, 0x95B2, 0x89A7] @ asc ''(e-Gov)](U_web)'',
    [],
    [0x25A0] @ asc '' '' @ [0x30AC, 0x30A4, 0x30C9, 0x30E9, 0x30A4, 0x30F3, 0x4E00, 0x89A7],
    [0x30AB, 0x30C6, 0x30B4, 0x30EA, 0x5225, 0x306B, 0x3001, 0x5404, 0x6587, 0x66F8, 0x3092, 0x6B21, 0x306E, 0x9805, 0x76EE, 0x3067, 0x6574, 0x7406, 0x3059, 0x308B],
    [0x30FB, 0x30BF, 0x30A4, 0x30C8, 0x30EB],
    [0x30FB, 0x767A, 0x884C, 0x4E3B, 0x4F53],
    [0x30FB, 0x6587, 0x66F8, 0x7A2E, 0x5225],
    [0x30FB, 0x6700, 0x65B0, 0x7248, 0x306E, 0x7248, 0x6570, 0x3068, 0x6539, 0x5B9A, 0x65E5],
    [0x30FB, 0x5BFE, 0x8C61, 0x8005, 0x3068, 0x9069, 0x7528, 0x7BC4, 0x56F2],
    [0x30FB, 0x533B, 0x7642] @ asc ''AI'' @ [0x3068, 0x306E, 0x95A2, 0x4FC2] @ asc ''('' @ [0x672C, 0x6587, 0x306E, 0x6839, 0x62E0, 0x3068, 0x306A, 0x308B, 0x77ED, 0x3044, 0x629C, 0x7C8B, 0x3068, 0x8981, 0x7D04] @ asc '')'',
    [0x30FB, 0x95A2, 0x9023, 0x6CD5, 0x4EE4] @ asc ''(e-Gov'' @ [0x30EA, 0x30F3, 0x30AF, 0x3001, 0x53EF, 0x80FD, 0x306A, 0x3089, 0x8A72, 0x5F53, 0x6761, 0x6587, 0x306E, 0x77ED, 0x3044, 0x629C, 0x7C8B] @ asc '')'',
    [],
    [0x30AB, 0x30C6, 0x30B4, 0x30EA, 0x4F8B]
  ]"

definition lines_146_163 :: "jsstring list" where
  "lines_146_163 = [
    [],
    [0x25A0] @ asc '' 3'' @ [0x7701] @ asc ''2'' @ [0x30AC, 0x30A4, 0x30C9, 0x30E9, 0x30A4, 0x30F3, 0x306E, 0x78BA, 0x5B9A, 0x7D50, 0x679C],
    [0x30FB, 0x69CB, 0x6210, 0x6587, 0x66F8, 0x306E, 0x5BFE, 0x5FDC, 0x95A2, 0x4FC2],
    [0x30FB, 0x5BFE, 0x8C61, 0x8005, 0x306E, 0x9055, 0x3044],
    [0x30FB, 0x5B9F, 0x52D9, 0x4E0A, 0x306E, 0x91CD, 0x8981, 0x30DD, 0x30A4, 0x30F3, 0x30C8],
    [],
    [0x25A0] @ asc '' '' @ [0x691C, 0x7D22, 0x30ED, 0x30B0],
    [0x30FB, 0x5B9F, 0x969B, 0x306B, 0x4F7F, 0x3063, 0x305F, 0x691C, 0x7D22, 0x8A9E],
    [0x30FB, 0x53C2, 0x7167, 0x3057, 0x305F, 0x516C, 0x5F0F, 0x30C9, 0x30E1, 0x30A4, 0x30F3, 0x4E00, 0x89A7],
    [0x30FB, 0x9664, 0x5916, 0x3057, 0x305F, 0x5019, 0x88DC, 0x3068, 0x7406, 0x7531] @ asc ''('' @ [0x4F8B] @ asc '': '' @ [0x516C, 0x5F0F, 0x4E00, 0x6B21, 0x8CC7, 0x6599, 0x306B, 0x5230, 0x9054, 0x3067, 0x304D, 0x306A, 0x3044] @ asc '')'',
    [],
    asc ''# Guardrail'',
    [0x30FB, 0x4E00, 0x6B21, 0x8CC7, 0x6599, 0x3092, 0x958B, 0x3051, 0x306A, 0x3044, 0x3001, 0x672C, 0x6587, 0x3092, 0x53D6, 0x5F97, 0x3067, 0x304D, 0x306A, 0x3044, 0x5834, 0x5408, 0x306F, 0x3001, 0x305D, 0x306E, 0x65E8, 0x3092, 0x660E, 0x8A18, 0x3057, 0x3066, 0x63A8, 0x6E2C, 0x3057, 0x306A, 0x3044],
    [0x30FB, 0x6700, 0x65B0, 0x7248, 0x304B, 0x4E0D, 0x660E, 0x306A, 0x5834, 0x5408, 0x306F, 0x3001, 0x5019, 0x88DC, 0x306E, 0x6539, 0x5B9A, 0x65E5, 0x3092, 0x6BD4, 0x8F03, 0x3057, 0x300C, 0x6700, 0x65B0, 0x7248, 0x5019, 0x88DC, 0x300D, 0x3068, 0x3057, 0x3066, 0x6271, 0x3046],
    [0x30FB, 0x51FA, 0x529B, 0x30EA, 0x30F3, 0x30AF, 0x306F, 0x5FC5, 0x305A] @ asc '' ['' @ [0x8868, 0x793A, 0x30E9, 0x30D9, 0x30EB] @ asc ''](URL) '' @ [0x5F62, 0x5F0F, 0x306B, 0x7D71, 0x4E00, 0x3059, 0x308B],
    [0x30FB] @ asc ''e-Gov'' @ [0x306F, 0x4E0A, 0x8A18, 0x306E, 0x56FA, 0x5B9A, 0x30D5, 0x30A9, 0x30FC, 0x30DE, 0x30C3, 0x30C8, 0x306E, 0x307F, 0x3092, 0x4F7F, 0x3044, 0x3001, 0x691C, 0x7D22, 0x30A8, 0x30F3, 0x30B8, 0x30F3, 0x7D4C, 0x7531, 0x306E] @ asc ''URL'' @ [0x751F, 0x6210, 0x3092, 0x3057, 0x306A, 0x3044],
    [],
    asc ''# Input''
  ]"

definition lines_167_168 :: "jsstring list" where
  "lines_167_168 = [
    [],
    asc ''Audiences:''
  ]"

definition lines_170_171 :: "jsstring list" where
  "lines_170_171 = [
    [],
    asc ''PriorityDomains:''
  ]"

definition lines_173_174 :: "jsstring list" where
  "lines_173_174 = [
    [],
    asc ''Must_keywords:''
  ]"

definition lines_176_177 :: "jsstring list" where
  "lines_176_177 = [
    [],
    asc ''Optional_keywords:''
  ]"

definition lines_179_180 :: "jsstring list" where
  "lines_179_180 = [
    [],
    asc ''Exclude_keywords:''
  ]"

definition lines_182_191 :: "jsstring list" where
  "lines_182_191 = [
    [],
    asc ''Instruction:'',
    [0x6B21, 0x306E, 0x6761, 0x4EF6, 0x3067, 0x691C, 0x7D22, 0x3068, 0x6574, 0x7406, 0x3092, 0x5B9F, 0x884C, 0x305B, 0x3088, 0x3002],
    asc ''- '' @ [0x5FC5, 0x9808, 0x691C, 0x7D22, 0x8A9E] @ asc '': Must_keywords'',
    asc ''- '' @ [0x8FFD, 0x52A0, 0x691C, 0x7D22, 0x8A9E] @ asc '': Optional_keywords'',
    asc ''- '' @ [0x9664, 0x5916, 0x30AD, 0x30FC, 0x30EF, 0x30FC, 0x30C9] @ asc '': Exclude_keywords'',
    asc ''- '' @ [0x5BFE, 0x8C61, 0x8005] @ asc '': Audiences'',
    asc ''- '' @ [0x512A, 0x5148, 0x30C9, 0x30E1, 0x30A4, 0x30F3] @ asc '': PriorityDomains'',
    asc ''- '' @ [0x53EF, 0x80FD, 0x306A, 0x9650, 0x308A, 0x516C, 0x5F0F, 0x4E00, 0x6B21, 0x8CC7, 0x6599] @ asc ''(PDF'' @ [0x542B, 0x3080] @ asc '')'' @ [0x3078, 0x5230, 0x9054, 0x3057, 0x3001, 0x6700, 0x65B0, 0x7248, 0x3092, 0x78BA, 0x5B9A, 0x3059, 0x308B, 0x3053, 0x3068],
    []
  ]"

definition lines_193_194 :: "jsstring list" where
  "lines_193_194 = [
    asc ''# '' @ [0x5B9F, 0x8A3C, 0x7D50, 0x679C],
    [0x6700, 0x5F8C, 0x306B, 0x3001, 0x672C, 0x30D7, 0x30ED, 0x30F3, 0x30D7, 0x30C8, 0x304C, 0x5B9F, 0x7528, 0x306B, 0x8010, 0x3048, 0x3046, 0x308B, 0x304B, 0x3092, 0x81EA, 0x5DF1, 0x70B9, 0x691C, 0x3057, 0x3001, 0x9054, 0x6210, 0x4E8B, 0x9805, 0x3068, 0x5236, 0x7D04, 0x4E8B, 0x9805, 0x3092, 0x7C21, 0x6F54, 0x306B, 0x8FF0, 0x3079, 0x3088, 0x3002]
  ]"

definition BASE_TEMPLATE_lines :: "jsstring list" where
  "BASE_TEMPLATE_lines =
     lines_12_20 @
     [asc ''PROOF_SECTION_BEGIN''] @
     lines_22_23 @
     [asc ''PROOF_SECTION_END''] @
     lines_25_59 @
     [asc ''[[PRIORITY_DOMAINS_LIST]]''] @
     lines_61_73 @
     [asc ''EGOV_SECTION_BEGIN''] @
     lines_75_83 @
     [asc ''EGOV_SECTION_END''] @
     lines_85_93 @
     [asc ''[[OPTIONAL_KEYWORDS_LIST]]''] @
     lines_95_121 @
     [[0x30FB, 0x672C, 0x51FA, 0x529B, 0x306F] @ asc ''[[DATE_TODAY]]'' @ [0x6642, 0x70B9, 0x306E, 0x53D6, 0x5F97, 0x7D50, 0x679C, 0x3067, 0x3042, 0x308A, 0x3001, 0x66F4, 0x65B0, 0x304C, 0x3042, 0x308A, 0x5F97, 0x308B, 0x305F, 0x3081, 0x4E00, 0x6B21, 0x8CC7, 0x6599, 0x3067, 0x78BA, 0x8A8D, 0x3059, 0x308B, 0x3053, 0x3068, 0x3002]] @
     lines_123_124 @
     [[0x30FB, 0x65E5, 0x4ED8] @ asc '': [[DATE_TODAY]]''] @
     [[0x30FB, 0x30C6, 0x30FC, 0x30DE] @ asc '': [[QUERY]]''] @
     [[0x30FB, 0x7BC4, 0x56F2] @ asc '': [[SCOPE]]''] @
     lines_128_144 @
     [asc ''[[CATEGORIES_LIST]]''] @
     lines_146_163 @
     [asc ''Date_today: [[DATE_TODAY]]''] @
     [asc ''Query: [[QUERY]]''] @
     [asc ''Scope: [[SCOPE]]''] @
     lines_167_168 @
     [asc ''[[AUDIENCES_LIST]]''] @
     lines_170_171 @
     [asc ''[[PRIORITY_DOMAINS_LIST]]''] @
     lines_173_174 @
     [asc ''[[MUST_KEYWORDS_LIST]]''] @
     lines_176_177 @
     [asc ''[[OPTIONAL_KEYWORDS_LIST]]''] @
     lines_179_180 @
     [asc ''[[EXCLUDE_KEYWORDS_LIST]]''] @
     lines_182_191 @
     [asc ''PROOF_SECTION_BEGIN''] @
     lines_193_194 @
     [asc ''PROOF_SECTION_END'']"

definition BASE_TEMPLATE :: jsstring where
  "BASE_TEMPLATE = join [0x0A] BASE_TEMPLATE_lines"

section \<open>Template generation\<close>

definition bullet :: jsstring where
  "bullet = [0x30FB]"

definition formatList :: "jsstring list \<Rightarrow> jsstring \<Rightarrow> jsstring" where
  "formatList items pfx =
     (if length items = 0 then pfx @ asc ''('' @ [0x306A, 0x3057] @ asc '')''
      else join [0x0A] (map (\<lambda>item. pfx @ item) items))"

definition TOKEN_DATE_TODAY :: jsstring where
  "TOKEN_DATE_TODAY = asc ''[[DATE_TODAY]]''"
definition TOKEN_QUERY :: jsstring where
  "TOKEN_QUERY = asc ''[[QUERY]]''"
definition TOKEN_SCOPE :: jsstring where
  "TOKEN_SCOPE = asc ''[[SCOPE]]''"
definition TOKEN_AUDIENCES_LIST :: jsstring where
  "TOKEN_AUDIENCES_LIST = asc ''[[AUDIENCES_LIST]]''"
definition TOKEN_PRIORITY_DOMAINS_LIST :: jsstring where
  "TOKEN_PRIORITY_DOMAINS_LIST = asc ''[[PRIORITY_DOMAINS_LIST]]''"
definition TOKEN_MUST_KEYWORDS_LIST :: jsstring where
  "TOKEN_MUST_KEYWORDS_LIST = asc ''[[MUST_KEYWORDS_LIST]]''"
definition TOKEN_OPTIONAL_KEYWORDS_LIST :: jsstring where
  "TOKEN_OPTIONAL_KEYWORDS_LIST = asc ''[[OPTIONAL_KEYWORDS_LIST]]''"
definition TOKEN_EXCLUDE_KEYWORDS_LIST :: jsstring where
  "TOKEN_EXCLUDE_KEYWORDS_LIST = asc ''[[EXCLUDE_KEYWORDS_LIST]]''"
definition TOKEN_CATEGORIES_LIST :: jsstring where
  "TOKEN_CATEGORIES_LIST = asc ''[[CATEGORIES_LIST]]''"

definition EGOV_SECTION_BEGIN :: jsstring where
  "EGOV_SECTION_BEGIN = asc ''EGOV_SECTION_BEGIN''"
definition EGOV_SECTION_END :: jsstring where
  "EGOV_SECTION_END = asc ''EGOV_SECTION_END''"
definition PROOF_SECTION_BEGIN :: jsstring where
  "PROOF_SECTION_BEGIN = asc ''PROOF_SECTION_BEGIN''"
definition PROOF_SECTION_END :: jsstring where
  "PROOF_SECTION_END = asc ''PROOF_SECTION_END''"

text \<open>The mandatory keyword, the sentinels and the separator of the scope labels.\<close>

definition MUST_KEYWORD :: jsstring where
  "MUST_KEYWORD = asc ''3'' @ [0x7701] @ asc ''2'' @ [0x30AC, 0x30A4, 0x30C9, 0x30E9, 0x30A4, 0x30F3]"

definition QUERY_NOT_ENTERED :: jsstring where
  "QUERY_NOT_ENTERED = asc ''('' @ [0x672A, 0x5165, 0x529B] @ asc '')''"

definition SCOPE_NOT_SPECIFIED :: jsstring where
  "SCOPE_NOT_SPECIFIED = asc ''('' @ [0x672A, 0x6307, 0x5B9A] @ asc '')''"

definition SCOPE_SEPARATOR :: jsstring where
  "SCOPE_SEPARATOR = [0x3001]"

text \<open>\<open>k => k.trim()\<close> as a filter predicate: the trimmed string is not empty.\<close>

definition non_blank :: "jsstring \<Rightarrow> bool" where
  "non_blank k \<longleftrightarrow> trim k \<noteq> []"

definition optionalKeywords :: "AppConfig \<Rightarrow> jsstring list" where
  "optionalKeywords config =
     map name (filter enabled (keywordChips config)) @ filter non_blank (customKeywords config)"

definition enabledCategories :: "AppConfig \<Rightarrow> jsstring list" where
  "enabledCategories config = map name (filter enabled (categories config))"

text \<open>
  The nine substitutions of \<open>generatePrompt\<close>, in the order of the source. Those written
  with a regular expression and the flag \<open>g\<close> replace every occurrence, those written
  with a string replace the first occurrence only.
\<close>

definition replace_date :: "AppConfig \<Rightarrow> jsstring \<Rightarrow> jsstring" where
  "replace_date config prompt = replace_all TOKEN_DATE_TODAY (dateToday config) prompt"

definition replace_query :: "AppConfig \<Rightarrow> jsstring \<Rightarrow> jsstring" where
  "replace_query config prompt =
     replace_all TOKEN_QUERY (or_else (query config) QUERY_NOT_ENTERED) prompt"

definition replace_scope :: "AppConfig \<Rightarrow> jsstring \<Rightarrow> jsstring" where
  "replace_scope config prompt =
     replace_all TOKEN_SCOPE
       (or_else (join SCOPE_SEPARATOR (scope config)) SCOPE_NOT_SPECIFIED) prompt"

definition replace_audiences :: "AppConfig \<Rightarrow> jsstring \<Rightarrow> jsstring" where
  "replace_audiences config prompt =
     replace_first TOKEN_AUDIENCES_LIST (formatList (audiences config) bullet) prompt"

definition replace_priority_domains :: "AppConfig \<Rightarrow> jsstring \<Rightarrow> jsstring" where
  "replace_priority_domains config prompt =
     replace_all TOKEN_PRIORITY_DOMAINS_LIST (formatList (priorityDomains config) bullet) prompt"

definition replace_must_keywords :: "AppConfig \<Rightarrow> jsstring \<Rightarrow> jsstring" where
  "replace_must_keywords config prompt =
     replace_first TOKEN_MUST_KEYWORDS_LIST (formatList [MUST_KEYWORD] bullet) prompt"

definition replace_optional_keywords :: "AppConfig \<Rightarrow> jsstring \<Rightarrow> jsstring" where
  "replace_optional_keywords config prompt =
     replace_all TOKEN_OPTIONAL_KEYWORDS_LIST (formatList (optionalKeywords config) bullet) prompt"

definition replace_exclude_keywords :: "AppConfig \<Rightarrow> jsstring \<Rightarrow> jsstring" where
  "replace_exclude_keywords config prompt =
     replace_first TOKEN_EXCLUDE_KEYWORDS_LIST
       (formatList (filter non_blank (excludeKeywords config)) bullet) prompt"

definition replace_categories :: "AppConfig \<Rightarrow> jsstring \<Rightarrow> jsstring" where
  "replace_categories config prompt =
     replace_first TOKEN_CATEGORIES_LIST (formatList (enabledCategories config) bullet) prompt"

definition substitute_tokens :: "AppConfig \<Rightarrow> jsstring \<Rightarrow> jsstring" where
  "substitute_tokens config prompt =
     replace_categories config
       (replace_exclude_keywords config
         (replace_optional_keywords config
           (replace_must_keywords config
             (replace_priority_domains config
               (replace_audiences config
                 (replace_scope config
                   (replace_query config
                     (replace_date config prompt))))))))"

definition handle_egov :: "AppConfig \<Rightarrow> jsstring \<Rightarrow> jsstring" where
  "handle_egov config prompt =
     (if \<not> eGovCrossReference config
      then remove_blocks EGOV_SECTION_BEGIN EGOV_SECTION_END prompt
      else remove_marker EGOV_SECTION_END (remove_marker EGOV_SECTION_BEGIN prompt))"

definition handle_proof :: "AppConfig \<Rightarrow> jsstring \<Rightarrow> jsstring" where
  "handle_proof config prompt =
     (if \<not> proofMode config
      then remove_blocks PROOF_SECTION_BEGIN PROOF_SECTION_END prompt
      else remove_marker PROOF_SECTION_END (remove_marker PROOF_SECTION_BEGIN prompt))"

definition generatePrompt :: "AppConfig \<Rightarrow> jsstring" where
  "generatePrompt config =
     trim (collapse_newlines
       (handle_proof config (handle_egov config (substitute_tokens config BASE_TEMPLATE))))"

section \<open>Search query generation\<close>

definition DEFAULT_THEME :: jsstring where
  "DEFAULT_THEME = [0x533B, 0x7642] @ asc ''AI''"

definition GUIDELINE :: jsstring where
  "GUIDELINE = [0x30AC, 0x30A4, 0x30C9, 0x30E9, 0x30A4, 0x30F3]"

definition LATEST_VERSION :: jsstring where
  "LATEST_VERSION = [0x6700, 0x65B0, 0x7248]"

definition DOMESTIC :: jsstring where
  "DOMESTIC = [0x56FD, 0x5185]"

definition generateSearchQueries :: "AppConfig \<Rightarrow> jsstring list" where
  "generateSearchQueries config =
     (let queries1 = [MUST_KEYWORD @ asc '' '' @ or_else (query config) DEFAULT_THEME
                        @ asc '' '' @ GUIDELINE @ asc '' '' @ LATEST_VERSION];
          queries2 = (if query config \<noteq> []
                      then queries1 @ [query config @ asc '' '' @ GUIDELINE @ asc '' '' @ DOMESTIC]
                      else queries1);
          enabledChips = take 5 (filter enabled (keywordChips config));
          queries3 = queries2 @ map name enabledChips;
          queries4 = (if officialDomainPriority config \<and> siteOperator config
                      then queries3 @ map (\<lambda>domain. asc ''site:'' @ domain @ asc '' ''
                                             @ or_else (query config) DEFAULT_THEME
                                             @ asc '' '' @ GUIDELINE)
                                          (take 3 (priorityDomains config))
                      else queries3)
      in take 10 queries4)"

section \<open>Configuration serialization\<close>

subsection \<open>JSON values\<close>

text \<open>
  The values that \<open>JSON.parse\<close> can return. An object is the list of its properties in
  the order of their creation. A number is kept as the text of its literal: the program
  has no numeric attribute and never computes with one.
\<close>

datatype json =
    JNull
  | JBool bool
  | JNum jsstring
  | JStr jsstring
  | JArr "json list"
  | JObj "(jsstring \<times> json) list"

text \<open>The configuration as a JavaScript object, its properties in the order of section 3.\<close>

definition toggle_value :: "Toggle \<Rightarrow> json" where
  "toggle_value t = JObj [(asc ''name'', JStr (name t)), (asc ''enabled'', JBool (enabled t))]"

definition config_value :: "AppConfig \<Rightarrow> json" where
  "config_value config = JObj [
     (asc ''dateToday'', JStr (dateToday config)),
     (asc ''query'', JStr (query config)),
     (asc ''scope'', JArr (map JStr (scope config))),
     (asc ''audiences'', JArr (map JStr (audiences config))),
     (asc ''priorityDomains'', JArr (map JStr (priorityDomains config))),
     (asc ''keywordChips'', JArr (map toggle_value (keywordChips config))),
     (asc ''customKeywords'', JArr (map JStr (customKeywords config))),
     (asc ''excludeKeywords'', JArr (map JStr (excludeKeywords config))),
     (asc ''categories'', JArr (map toggle_value (categories config))),
     (asc ''activeTab'', JStr (activeTab config)),
     (asc ''eGovCrossReference'', JBool (eGovCrossReference config)),
     (asc ''proofMode'', JBool (proofMode config)),
     (asc ''officialDomainPriority'', JBool (officialDomainPriority config)),
     (asc ''siteOperator'', JBool (siteOperator config))]"

subsection \<open>\<open>JSON.stringify\<close>\<close>

definition hex_digit_lower :: "nat \<Rightarrow> jschar" where
  "hex_digit_lower d = (if d < 10 then 0x30 + d else 0x61 + (d - 10))"

text \<open>UnicodeEscape: \<open>\u\<close> and four lower-case hexadecimal digits.\<close>

definition unicode_escape :: "jschar \<Rightarrow> jsstring" where
  "unicode_escape c =
     [0x5C, 0x75, hex_digit_lower (c div 4096 mod 16), hex_digit_lower (c div 256 mod 16),
      hex_digit_lower (c div 16 mod 16), hex_digit_lower (c mod 16)]"

definition is_lead_surrogate :: "jschar \<Rightarrow> bool" where
  "is_lead_surrogate c \<longleftrightarrow> 0xD800 \<le> c \<and> c \<le> 0xDBFF"

definition is_trail_surrogate :: "jschar \<Rightarrow> bool" where
  "is_trail_surrogate c \<longleftrightarrow> 0xDC00 \<le> c \<and> c \<le> 0xDFFF"

text \<open>
  QuoteJSONString without the enclosing quotation marks. The string is read by code
  points: a lead surrogate followed by a trail surrogate is copied, any other surrogate
  is escaped.
\<close>

fun quote_chars :: "jsstring \<Rightarrow> jsstring" where
  "quote_chars [] = []"
| "quote_chars (c # s) =
     (if c = 0x08 then [0x5C, 0x62] @ quote_chars s
      else if c = 0x09 then [0x5C, 0x74] @ quote_chars s
      else if c = 0x0A then [0x5C, 0x6E] @ quote_chars s
      else if c = 0x0C then [0x5C, 0x66] @ quote_chars s
      else if c = 0x0D then [0x5C, 0x72] @ quote_chars s
      else if c = 0x22 then [0x5C, 0x22] @ quote_chars s
      else if c = 0x5C then [0x5C, 0x5C] @ quote_chars s
      else if c < 0x20 then unicode_escape c @ quote_chars s
      else if is_lead_surrogate c then
        (case s of
           [] \<Rightarrow> unicode_escape c
         | d # s' \<Rightarrow> if is_trail_surrogate d then c # d # quote_chars s'
                     else unicode_escape c @ quote_chars s)
      else if is_trail_surrogate c then unicode_escape c @ quote_chars s
      else c # quote_chars s)"

definition quoteJSONString :: "jsstring \<Rightarrow> jsstring" where
  "quoteJSONString s = [0x22] @ quote_chars s @ [0x22]"

text \<open>
  SerializeJSONProperty with the gap \<open>gap\<close> at the indentation \<open>indent\<close>. With an empty
  gap the members are separated by a comma alone and a key is followed by a colon; with a
  gap each member is on a line of its own and the colon is followed by a space.
\<close>

fun serialize :: "jsstring \<Rightarrow> jsstring \<Rightarrow> json \<Rightarrow> jsstring" where
  "serialize gap indent JNull = asc ''null''"
| "serialize gap indent (JBool b) = (if b then asc ''true'' else asc ''false'')"
| "serialize gap indent (JNum n) = n"
| "serialize gap indent (JStr s) = quoteJSONString s"
| "serialize gap indent (JArr vs) =
     (if vs = [] then asc ''[]''
      else if gap = [] then asc ''['' @ join (asc '','') (map (serialize gap (indent @ gap)) vs) @ asc '']''
      else asc ''['' @ [0x0A] @ (indent @ gap)
             @ join (asc '','' @ [0x0A] @ (indent @ gap)) (map (serialize gap (indent @ gap)) vs)
             @ [0x0A] @ indent @ asc '']'')"
| "serialize gap indent (JObj ms) =
     (if ms = [] then asc ''{}''
      else if gap = [] then
        asc ''{'' @ join (asc '','')
          (map (\<lambda>(k, v). quoteJSONString k @ asc '':'' @ serialize gap (indent @ gap) v) ms) @ asc ''}''
      else asc ''{'' @ [0x0A] @ (indent @ gap)
             @ join (asc '','' @ [0x0A] @ (indent @ gap))
                 (map (\<lambda>(k, v). quoteJSONString k @ asc '':'' @ asc '' ''
                                   @ serialize gap (indent @ gap) v) ms)
             @ [0x0A] @ indent @ asc ''}'')"

text \<open>\<open>JSON.stringify(value)\<close> and \<open>JSON.stringify(value, null, 2)\<close>.\<close>

definition JSON_stringify :: "json \<Rightarrow> jsstring" where
  "JSON_stringify v = serialize [] [] v"

definition JSON_stringify_2 :: "json \<Rightarrow> jsstring" where
  "JSON_stringify_2 v = serialize (asc ''  '') [] v"

subsection \<open>\<open>JSON.parse\<close>\<close>

text \<open>White space of the JSON grammar: tab, line feed, carriage return and space.\<close>

definition json_ws :: "jschar \<Rightarrow> bool" where
  "json_ws c \<longleftrightarrow> c = 0x09 \<or> c = 0x0A \<or> c = 0x0D \<or> c = 0x20"

definition skip_ws :: "jsstring \<Rightarrow> jsstring" where
  "skip_ws s = dropWhile json_ws s"

definition hex_value :: "jschar \<Rightarrow> nat option" where
  "hex_value c =
     (if 0x30 \<le> c \<and> c \<le> 0x39 then Some (c - 0x30)
      else if 0x41 \<le> c \<and> c \<le> 0x46 then Some (c - 0x41 + 10)
      else if 0x61 \<le> c \<and> c \<le> 0x66 then Some (c - 0x61 + 10)
      else None)"

definition hex4 :: "jschar \<Rightarrow> jschar \<Rightarrow> jschar \<Rightarrow> jschar \<Rightarrow> nat option" where
  "hex4 a b c d =
     (case (hex_value a, hex_value b, hex_value c, hex_value d) of
        (Some w, Some x, Some y, Some z) \<Rightarrow> Some (w * 4096 + x * 256 + y * 16 + z)
      | _ \<Rightarrow> None)"

definition unescape :: "jschar \<Rightarrow> jschar option" where
  "unescape e =
     (if e = 0x22 then Some 0x22 else if e = 0x5C then Some 0x5C else if e = 0x2F then Some 0x2F
      else if e = 0x62 then Some 0x08 else if e = 0x66 then Some 0x0C
      else if e = 0x6E then Some 0x0A else if e = 0x72 then Some 0x0D
      else if e = 0x74 then Some 0x09 else None)"

definition cons_result :: "jschar \<Rightarrow> (jsstring \<times> jsstring) option \<Rightarrow> (jsstring \<times> jsstring) option" where
  "cons_result c r = (case r of None \<Rightarrow> None | Some (t, rest) \<Rightarrow> Some (c # t, rest))"

text \<open>
  The characters of a string literal behind its opening quotation mark: the string it
  denotes and the text behind the closing quotation mark.
\<close>

fun parse_chars :: "jsstring \<Rightarrow> (jsstring \<times> jsstring) option" where
  "parse_chars [] = None"
| "parse_chars (c # s) =
     (if c = 0x22 then Some ([], s)
      else if c = 0x5C then
        (case s of
           [] \<Rightarrow> None
         | e # s1 \<Rightarrow>
             if e = 0x75 then
               (case s1 of
                  h1 # h2 # h3 # h4 # s2 \<Rightarrow>
                    (case hex4 h1 h2 h3 h4 of
                       None \<Rightarrow> None
                     | Some u \<Rightarrow> cons_result u (parse_chars s2))
                | _ \<Rightarrow> None)
             else (case unescape e of
                     None \<Rightarrow> None
                   | Some u \<Rightarrow> cons_result u (parse_chars s1)))
      else if c < 0x20 then None
      else cons_result c (parse_chars s))"

text \<open>
  A number literal: an optional minus sign, an integer part without a superfluous leading
  zero, an optional fraction and an optional exponent.
\<close>

definition is_digit :: "jschar \<Rightarrow> bool" where
  "is_digit c \<longleftrightarrow> 0x30 \<le> c \<and> c \<le> 0x39"

definition take_digits :: "jsstring \<Rightarrow> (jsstring \<times> jsstring) option" where
  "take_digits s =
     (if takeWhile is_digit s = [] then None else Some (takeWhile is_digit s, dropWhile is_digit s))"

definition parse_int_part :: "jsstring \<Rightarrow> (jsstring \<times> jsstring) option" where
  "parse_int_part s =
     (case s of
        [] \<Rightarrow> None
      | c # r \<Rightarrow> if c = 0x30 then Some ([c], r) else take_digits s)"

definition parse_fraction :: "jsstring \<Rightarrow> (jsstring \<times> jsstring) option" where
  "parse_fraction s =
     (case s of
        [] \<Rightarrow> Some ([], s)
      | c # r \<Rightarrow>
          if c = 0x2E then (case take_digits r of None \<Rightarrow> None | Some (d, r') \<Rightarrow> Some (c # d, r'))
          else Some ([], s))"

definition parse_exponent :: "jsstring \<Rightarrow> (jsstring \<times> jsstring) option" where
  "parse_exponent s =
     (case s of
        [] \<Rightarrow> Some ([], s)
      | c # r \<Rightarrow>
          if c = 0x65 \<or> c = 0x45 then
            (case r of
               [] \<Rightarrow> None
             | g # r1 \<Rightarrow>
                 if g = 0x2B \<or> g = 0x2D
                 then (case take_digits r1 of None \<Rightarrow> None | Some (d, r') \<Rightarrow> Some (c # g # d, r'))
                 else (case take_digits r of None \<Rightarrow> None | Some (d, r') \<Rightarrow> Some (c # d, r')))
          else Some ([], s))"

definition parse_number :: "jsstring \<Rightarrow> (json \<times> jsstring) option" where
  "parse_number s =
     (let (sign, s0) = (case s of c # r \<Rightarrow> if c = 0x2D then ([c], r) else ([], s) | [] \<Rightarrow> ([], s))
      in case parse_int_part s0 of
           None \<Rightarrow> None
         | Some (i, s1) \<Rightarrow>
             (case parse_fraction s1 of
                None \<Rightarrow> None
              | Some (f, s2) \<Rightarrow>
                  (case parse_exponent s2 of
                     None \<Rightarrow> None
                   | Some (e, s3) \<Rightarrow> Some (JNum (sign @ i @ f @ e), s3))))"

text \<open>
  Creating a property: a key that is already there keeps its place and takes the new
  value, a new key comes last.
\<close>

fun set_property :: "jsstring \<Rightarrow> json \<Rightarrow> (jsstring \<times> json) list \<Rightarrow> (jsstring \<times> json) list" where
  "set_property k v [] = [(k, v)]"
| "set_property k v ((k', v') # ms) =
     (if k' = k then (k, v) # ms else (k', v') # set_property k v ms)"

definition object_of :: "(jsstring \<times> json) list \<Rightarrow> json" where
  "object_of ms = JObj (foldl (\<lambda>acc (k, v). set_property k v acc) [] ms)"

text \<open>
  The recursive descent over a JSON text. The first argument bounds the number of nested
  calls; a text of length \<open>n\<close> needs fewer than \<open>n + 1\<close> of them, since every call reads at
  least one code unit before the next one starts.
\<close>

fun parse_value :: "nat \<Rightarrow> jsstring \<Rightarrow> (json \<times> jsstring) option"
  and parse_elements :: "nat \<Rightarrow> jsstring \<Rightarrow> (json list \<times> jsstring) option"
  and parse_members :: "nat \<Rightarrow> jsstring \<Rightarrow> ((jsstring \<times> json) list \<times> jsstring) option"
where
  "parse_value 0 s = None"
| "parse_value (Suc n) s =
     (case skip_ws s of
        [] \<Rightarrow> None
      | c # r \<Rightarrow>
          if c = 0x22 then
            (case parse_chars r of None \<Rightarrow> None | Some (t, rest) \<Rightarrow> Some (JStr t, rest))
          else if c = 0x5B then
            (case skip_ws r of
               [] \<Rightarrow> None
             | d # r' \<Rightarrow>
                 if d = 0x5D then Some (JArr [], r')
                 else (case parse_elements n r of
                         None \<Rightarrow> None
                       | Some (vs, rest) \<Rightarrow> Some (JArr vs, rest)))
          else if c = 0x7B then
            (case skip_ws r of
               [] \<Rightarrow> None
             | d # r' \<Rightarrow>
                 if d = 0x7D then Some (JObj [], r')
                 else (case parse_members n r of
                         None \<Rightarrow> None
                       | Some (ms, rest) \<Rightarrow> Some (object_of ms, rest)))
          else if prefix (asc ''true'') (c # r) then Some (JBool True, drop 4 (c # r))
          else if prefix (asc ''false'') (c # r) then Some (JBool False, drop 5 (c # r))
          else if prefix (asc ''null'') (c # r) then Some (JNull, drop 4 (c # r))
          else parse_number (c # r))"
| "parse_elements 0 s = None"
| "parse_elements (Suc n) s =
     (case parse_value n s of
        None \<Rightarrow> None
      | Some (v, r) \<Rightarrow>
          (case skip_ws r of
             [] \<Rightarrow> None
           | c # r' \<Rightarrow>
               if c = 0x2C then
                 (case parse_elements n r' of
                    None \<Rightarrow> None
                  | Some (vs, rest) \<Rightarrow> Some (v # vs, rest))
               else if c = 0x5D then Some ([v], r')
               else None))"
| "parse_members 0 s = None"
| "parse_members (Suc n) s =
     (case skip_ws s of
        [] \<Rightarrow> None
      | q # r \<Rightarrow>
          if q = 0x22 then
            (case parse_chars r of
               None \<Rightarrow> None
             | Some (k, r1) \<Rightarrow>
                 (case skip_ws r1 of
                    [] \<Rightarrow> None
                  | col # r2 \<Rightarrow>
                      if col = 0x3A then
                        (case parse_value n r2 of
                           None \<Rightarrow> None
                         | Some (v, r3) \<Rightarrow>
                             (case skip_ws r3 of
                                [] \<Rightarrow> None
                              | c # r4 \<Rightarrow>
                                  if c = 0x2C then
                                    (case parse_members n r4 of
                                       None \<Rightarrow> None
                                     | Some (ms, rest) \<Rightarrow> Some ((k, v) # ms, rest))
                                  else if c = 0x7D then Some ([(k, v)], r4)
                                  else None))
                      else None))
          else None)"

text \<open>
  \<open>JSON.parse(text)\<close>: the value of the text, or \<open>None\<close> where \<open>JSON.parse\<close> throws a
  \<open>SyntaxError\<close>. Nothing but white space may follow the value.
\<close>

definition JSON_parse :: "jsstring \<Rightarrow> json option" where
  "JSON_parse s =
     (case parse_value (Suc (length s)) s of
        None \<Rightarrow> None
      | Some (v, rest) \<Rightarrow> if skip_ws rest = [] then Some v else None)"

subsection \<open>\<open>configToJSON\<close> and \<open>parseConfigJSON\<close>\<close>

definition configToJSON :: "AppConfig \<Rightarrow> jsstring" where
  "configToJSON config = JSON_stringify_2 (config_value config)"

text \<open>
  \<open>typeof parsed === 'object' && parsed !== null\<close> holds of objects and of arrays.
\<close>

fun is_object :: "json \<Rightarrow> bool" where
  "is_object (JObj ms) = True"
| "is_object (JArr vs) = True"
| "is_object _ = False"

text \<open>
  \<open>'activeTab' in parsed\<close>: an own property of that name. No prototype of a value made by
  \<open>JSON.parse\<close> has one, and the own properties of an array are its indices and
  \<open>length\<close>.
\<close>

fun has_activeTab :: "json \<Rightarrow> bool" where
  "has_activeTab (JObj ms) = (asc ''activeTab'' \<in> set (map fst ms))"
| "has_activeTab _ = False"

text \<open>
  The cast \<open>parsed as AppConfig\<close> does nothing at run time: the result is the parsed value,
  or \<open>None\<close> for \<open>null\<close>.
\<close>

definition parseConfigJSON :: "jsstring \<Rightarrow> json option" where
  "parseConfigJSON text =
     (case JSON_parse text of
        None \<Rightarrow> None
      | Some parsed \<Rightarrow> if is_object parsed \<and> has_activeTab parsed then Some parsed else None)"

section \<open>Share links\<close>

text \<open>The exceptions that the library functions of this section throw.\<close>

datatype js_error = URIError | InvalidCharacterError | TypeError | ReferenceError

definition bind_result :: "js_error + 'a \<Rightarrow> ('a \<Rightarrow> js_error + 'b) \<Rightarrow> js_error + 'b" where
  "bind_result r f = (case r of Inl e \<Rightarrow> Inl e | Inr x \<Rightarrow> f x)"

subsection \<open>\<open>encodeURIComponent\<close> and \<open>decodeURIComponent\<close>\<close>

definition is_alnum :: "jschar \<Rightarrow> bool" where
  "is_alnum c \<longleftrightarrow> (0x30 \<le> c \<and> c \<le> 0x39) \<or> (0x41 \<le> c \<and> c \<le> 0x5A) \<or> (0x61 \<le> c \<and> c \<le> 0x7A)"

text \<open>The characters that \<open>encodeURIComponent\<close> leaves as they are: letters, digits and
  \<open>- _ . ! ~ * ' ( )\<close>.\<close>

definition uri_unreserved :: "jschar \<Rightarrow> bool" where
  "uri_unreserved c \<longleftrightarrow>
     is_alnum c \<or> c = 0x2D \<or> c = 0x5F \<or> c = 0x2E \<or> c = 0x21 \<or> c = 0x7E \<or> c = 0x2A \<or>
     c = 0x27 \<or> c = 0x28 \<or> c = 0x29"

definition utf8_encode :: "nat \<Rightarrow> nat list" where
  "utf8_encode cp =
     (if cp < 0x80 then [cp]
      else if cp < 0x800 then [0xC0 + cp div 64, 0x80 + cp mod 64]
      else if cp < 0x10000 then [0xE0 + cp div 4096, 0x80 + cp div 64 mod 64, 0x80 + cp mod 64]
      else [0xF0 + cp div 262144 mod 8, 0x80 + cp div 4096 mod 64, 0x80 + cp div 64 mod 64,
            0x80 + cp mod 64])"

definition hex_digit_upper :: "nat \<Rightarrow> jschar" where
  "hex_digit_upper d = (if d < 10 then 0x30 + d else 0x41 + (d - 10))"

definition percent_byte :: "nat \<Rightarrow> jsstring" where
  "percent_byte b = [0x25, hex_digit_upper (b div 16 mod 16), hex_digit_upper (b mod 16)]"

definition percent_encode :: "nat \<Rightarrow> jsstring" where
  "percent_encode cp = concat (map percent_byte (utf8_encode cp))"

definition code_point :: "jschar \<Rightarrow> jschar \<Rightarrow> nat" where
  "code_point lead trail = (lead - 0xD800) * 0x400 + (trail - 0xDC00) + 0x10000"

definition prepend :: "jsstring \<Rightarrow> js_error + jsstring \<Rightarrow> js_error + jsstring" where
  "prepend t r = (case r of Inl e \<Rightarrow> Inl e | Inr s \<Rightarrow> Inr (t @ s))"

text \<open>\<open>encodeURIComponent\<close> throws a \<open>URIError\<close> on a surrogate that has no partner.\<close>

fun encodeURIComponent :: "jsstring \<Rightarrow> js_error + jsstring" where
  "encodeURIComponent [] = Inr []"
| "encodeURIComponent (c # s) =
     (if uri_unreserved c then prepend [c] (encodeURIComponent s)
      else if is_trail_surrogate c then Inl URIError
      else if is_lead_surrogate c then
        (case s of
           [] \<Rightarrow> Inl URIError
         | d # s' \<Rightarrow>
             if is_trail_surrogate d
             then prepend (percent_encode (code_point c d)) (encodeURIComponent s')
             else Inl URIError)
      else prepend (percent_encode c) (encodeURIComponent s))"

text \<open>
  The code point of a sequence of octets that is a valid UTF-8 encoding: the shortest one
  of a code point that is no surrogate.
\<close>

definition is_continuation :: "nat \<Rightarrow> bool" where
  "is_continuation b \<longleftrightarrow> 0x80 \<le> b \<and> b \<le> 0xBF"

definition utf8_decode :: "nat list \<Rightarrow> nat option" where
  "utf8_decode bs =
     (case bs of
        [a, b] \<Rightarrow>
          if 0xC0 \<le> a \<and> a \<le> 0xDF \<and> is_continuation b
          then (let cp = (a - 0xC0) * 64 + (b - 0x80) in if 0x80 \<le> cp then Some cp else None)
          else None
      | [a, b, c] \<Rightarrow>
          if 0xE0 \<le> a \<and> a \<le> 0xEF \<and> is_continuation b \<and> is_continuation c
          then (let cp = (a - 0xE0) * 4096 + (b - 0x80) * 64 + (c - 0x80)
                in if 0x800 \<le> cp \<and> \<not> (0xD800 \<le> cp \<and> cp \<le> 0xDFFF) then Some cp else None)
          else None
      | [a, b, c, d] \<Rightarrow>
          if 0xF0 \<le> a \<and> a \<le> 0xF7 \<and> is_continuation b \<and> is_continuation c \<and> is_continuation d
          then (let cp = (a - 0xF0) * 262144 + (b - 0x80) * 4096 + (c - 0x80) * 64 + (d - 0x80)
                in if 0x10000 \<le> cp \<and> cp \<le> 0x10FFFF then Some cp else None)
          else None
      | _ \<Rightarrow> None)"

definition utf16_encode :: "nat \<Rightarrow> jsstring" where
  "utf16_encode cp =
     (if cp < 0x10000 then [cp]
      else [0xD800 + (cp - 0x10000) div 0x400, 0xDC00 + (cp - 0x10000) mod 0x400])"

text \<open>An escape \<open>%XY\<close> at the start of the text: its octet and the text behind it.\<close>

definition take_escape :: "jsstring \<Rightarrow> (nat \<times> jsstring) option" where
  "take_escape s =
     (case s of
        p # x # y # rest \<Rightarrow>
          if p = 0x25 then
            (case (hex_value x, hex_value y) of
               (Some h, Some l) \<Rightarrow> Some (h * 16 + l, rest)
             | _ \<Rightarrow> None)
          else None
      | _ \<Rightarrow> None)"

text \<open>\<open>take_escapes k s\<close> reads \<open>k\<close> escapes in a row.\<close>

fun take_escapes :: "nat \<Rightarrow> jsstring \<Rightarrow> (nat list \<times> jsstring) option" where
  "take_escapes 0 s = Some ([], s)"
| "take_escapes (Suc k) s =
     (case take_escape s of
        None \<Rightarrow> None
      | Some (b, rest) \<Rightarrow>
          (case take_escapes k rest of
             None \<Rightarrow> None
           | Some (bs, rest') \<Rightarrow> Some (b # bs, rest')))"

lemma take_escape_length: "take_escape s = Some (b, rest) \<Longrightarrow> length rest < length s"
  by (auto simp: take_escape_def split: list.splits if_splits option.splits)

lemma take_escapes_length: "take_escapes k s = Some (bs, rest) \<Longrightarrow> length rest \<le> length s"
proof (induction k arbitrary: s bs rest)
  case 0
  then show ?case by simp
next
  case (Suc k)
  then show ?case
    by (fastforce split: option.splits dest: take_escape_length)
qed

text \<open>The number of octets that the first octet of a UTF-8 sequence announces.\<close>

definition sequence_length :: "nat \<Rightarrow> nat option" where
  "sequence_length b =
     (if b < 0x80 then Some 1
      else if 0xC0 \<le> b \<and> b \<le> 0xDF then Some 2
      else if 0xE0 \<le> b \<and> b \<le> 0xEF then Some 3
      else if 0xF0 \<le> b \<and> b \<le> 0xF7 then Some 4
      else None)"

text \<open>
  \<open>decodeURIComponent\<close> throws a \<open>URIError\<close> on a \<open>%\<close> that starts no escape and on
  escapes that are no valid UTF-8 encoding.
\<close>

function decodeURIComponent :: "jsstring \<Rightarrow> js_error + jsstring" where
  "decodeURIComponent [] = Inr []"
| "decodeURIComponent (c # s) =
     (if c \<noteq> 0x25 then prepend [c] (decodeURIComponent s)
      else
        (case take_escape (c # s) of
           None \<Rightarrow> Inl URIError
         | Some (b, rest) \<Rightarrow>
             (case sequence_length b of
                None \<Rightarrow> Inl URIError
              | Some n \<Rightarrow>
                  if n = 1 then prepend [b] (decodeURIComponent rest)
                  else
                    (case take_escapes (n - 1) rest of
                       None \<Rightarrow> Inl URIError
                     | Some (bs, rest') \<Rightarrow>
                         (case utf8_decode (b # bs) of
                            None \<Rightarrow> Inl URIError
                          | Some cp \<Rightarrow> prepend (utf16_encode cp) (decodeURIComponent rest'))))))"
  by pat_completeness auto
termination
proof (relation "measure length")
  fix c :: jschar and s rest rest' :: jsstring and b n :: nat and bs :: "nat list" and x
  assume e: "take_escape (c # s) = Some x" "(b, rest) = x"
  then have r: "length rest < length (c # s)"
    using take_escape_length [of "c # s" b rest] by simp
  then show "(rest, c # s) \<in> measure length" by simp
  fix y
  assume "take_escapes (n - 1) rest = Some y" "(bs, rest') = y"
  then have "length rest' \<le> length rest"
    using take_escapes_length [of "n - 1" rest bs rest'] by simp
  with r show "(rest', c # s) \<in> measure length" by simp
qed auto

subsection \<open>\<open>btoa\<close> and \<open>atob\<close>\<close>

definition base64_char :: "nat \<Rightarrow> jschar" where
  "base64_char i =
     (if i < 26 then 0x41 + i
      else if i < 52 then 0x61 + (i - 26)
      else if i < 62 then 0x30 + (i - 52)
      else if i = 62 then 0x2B
      else 0x2F)"

fun base64_encode :: "nat list \<Rightarrow> jsstring" where
  "base64_encode [] = []"
| "base64_encode [a] = [base64_char (a div 4), base64_char (a mod 4 * 16), 0x3D, 0x3D]"
| "base64_encode [a, b] =
     [base64_char (a div 4), base64_char (a mod 4 * 16 + b div 16), base64_char (b mod 16 * 4), 0x3D]"
| "base64_encode (a # b # c # r) =
     [base64_char (a div 4), base64_char (a mod 4 * 16 + b div 16),
      base64_char (b mod 16 * 4 + c div 64), base64_char (c mod 64)] @ base64_encode r"

text \<open>\<open>btoa\<close> throws on a code unit above 255.\<close>

definition btoa :: "jsstring \<Rightarrow> js_error + jsstring" where
  "btoa s = (if \<exists>c \<in> set s. 0xFF < c then Inl InvalidCharacterError else Inr (base64_encode s))"

definition base64_value :: "jschar \<Rightarrow> nat option" where
  "base64_value c =
     (if 0x41 \<le> c \<and> c \<le> 0x5A then Some (c - 0x41)
      else if 0x61 \<le> c \<and> c \<le> 0x7A then Some (c - 0x61 + 26)
      else if 0x30 \<le> c \<and> c \<le> 0x39 then Some (c - 0x30 + 52)
      else if c = 0x2B then Some 62
      else if c = 0x2F then Some 63
      else None)"

text \<open>
  The octets of a list of six-bit values; the bits left over by an incomplete group of
  four are dropped.
\<close>

fun base64_octets :: "nat list \<Rightarrow> nat list" where
  "base64_octets (w # x # y # z # r) =
     [w * 4 + x div 16, x mod 16 * 16 + y div 4, y mod 4 * 64 + z] @ base64_octets r"
| "base64_octets [w, x, y] = [w * 4 + x div 16, x mod 16 * 16 + y div 4]"
| "base64_octets [w, x] = [w * 4 + x div 16]"
| "base64_octets _ = []"

definition ascii_whitespace :: "jschar \<Rightarrow> bool" where
  "ascii_whitespace c \<longleftrightarrow> c = 0x09 \<or> c = 0x0A \<or> c = 0x0C \<or> c = 0x0D \<or> c = 0x20"

text \<open>Padding is removed only from a text whose length is a multiple of four.\<close>

definition strip_padding :: "jsstring \<Rightarrow> jsstring" where
  "strip_padding s =
     (if length s mod 4 = 0 then
        (if suffix [0x3D, 0x3D] s then take (length s - 2) s
         else if suffix [0x3D] s then take (length s - 1) s
         else s)
      else s)"

text \<open>
  \<open>atob\<close> (forgiving-base64 decode): white space is removed first; the function throws
  when the length of what remains leaves the remainder 1 modulo 4 or when a code unit is
  outside the alphabet.
\<close>

definition atob :: "jsstring \<Rightarrow> js_error + jsstring" where
  "atob s =
     (let d = strip_padding (filter (\<lambda>c. \<not> ascii_whitespace c) s)
      in if length d mod 4 = 1 then Inl InvalidCharacterError
         else if \<exists>c \<in> set d. base64_value c = None then Inl InvalidCharacterError
         else Inr (base64_octets (map (\<lambda>c. the (base64_value c)) d)))"

subsection \<open>The URL of a share link\<close>

text \<open>
  \<open>new URL(url)\<close> and \<open>searchParams.get('c')\<close>, as far as the program depends on them.
  \<open>new URL\<close> throws a \<open>TypeError\<close> on a text that the URL parser rejects. Which texts
  it rejects (a missing scheme, an empty or malformed host, a bad port and so on) is laid
  down by the URL standard and is not spelled out here: the set of the texts that the
  parser accepts is an argument, \<open>parses\<close>. Of an accepted text the parser removes leading
  and trailing C0 controls and spaces and every tab and line break; the query is what
  stands between the first \<open>?\<close> and the first \<open>#\<close>. Its parameters are separated by
  \<open>&\<close>, a name ends at the first \<open>=\<close>, and in names and values every \<open>+\<close> becomes a
  space and every escape \<open>%XY\<close> its octet. Octets and code units above 127 are kept as
  they are, where the library decodes them as UTF-8: either way they are outside ASCII,
  which is all that \<open>atob\<close> looks at.
\<close>

definition c0_or_space :: "jschar \<Rightarrow> bool" where
  "c0_or_space c \<longleftrightarrow> c \<le> 0x20"

definition tab_or_newline :: "jschar \<Rightarrow> bool" where
  "tab_or_newline c \<longleftrightarrow> c = 0x09 \<or> c = 0x0A \<or> c = 0x0D"

definition url_input :: "jsstring \<Rightarrow> jsstring" where
  "url_input s =
     filter (\<lambda>c. \<not> tab_or_newline c)
       (rev (dropWhile c0_or_space (rev (dropWhile c0_or_space s))))"

definition url_query :: "jsstring \<Rightarrow> jsstring" where
  "url_query s =
     (case dropWhile (\<lambda>c. c \<noteq> 0x3F) (takeWhile (\<lambda>c. c \<noteq> 0x23) s) of
        [] \<Rightarrow> []
      | q # r \<Rightarrow> r)"

text \<open>Splitting at every occurrence of a separator.\<close>

fun split_on :: "jschar \<Rightarrow> jsstring \<Rightarrow> jsstring list" where
  "split_on sep [] = [[]]"
| "split_on sep (c # s) =
     (if c = sep then [] # split_on sep s
      else (case split_on sep s of
              [] \<Rightarrow> [[c]]
            | piece # pieces \<Rightarrow> (c # piece) # pieces))"

fun form_decode :: "jsstring \<Rightarrow> jsstring" where
  "form_decode [] = []"
| "form_decode (c # s) =
     (if c = 0x2B then 0x20 # form_decode s
      else if c = 0x25 then
        (case s of
           x # y # rest \<Rightarrow>
             (case (hex_value x, hex_value y) of
                (Some h, Some l) \<Rightarrow> (h * 16 + l) # form_decode rest
              | _ \<Rightarrow> c # form_decode s)
         | _ \<Rightarrow> c # form_decode s)
      else c # form_decode s)"

definition parse_pair :: "jsstring \<Rightarrow> jsstring \<times> jsstring" where
  "parse_pair piece =
     (form_decode (takeWhile (\<lambda>c. c \<noteq> 0x3D) piece),
      form_decode (drop 1 (dropWhile (\<lambda>c. c \<noteq> 0x3D) piece)))"

definition search_params :: "jsstring \<Rightarrow> (jsstring \<times> jsstring) list" where
  "search_params q = map parse_pair (filter (\<lambda>piece. piece \<noteq> []) (split_on 0x26 q))"

text \<open>\<open>new URL(url).searchParams.get(key)\<close>; the inner \<open>None\<close> is \<open>null\<close>.\<close>

definition searchParams_get ::
  "(jsstring \<Rightarrow> bool) \<Rightarrow> jsstring \<Rightarrow> jsstring \<Rightarrow> js_error + jsstring option" where
  "searchParams_get parses url key =
     (if parses url
      then Inr (map_of (search_params (url_query (url_input url))) key)
      else Inl TypeError)"

subsection \<open>\<open>encodeConfigToURL\<close>, \<open>decodeConfigFromURL\<close> and \<open>isShareLinkTooLong\<close>\<close>

text \<open>
  \<open>window.location\<close> is what \<open>encodeConfigToURL\<close> reads from its environment. It is
  an argument here, \<open>None\<close> where no \<open>window\<close> is defined (then the access throws a
  \<open>ReferenceError\<close>). \<open>decodeConfigFromURL\<close> takes the set of the texts that the URL
  parser accepts.
\<close>

record Location =
  origin :: jsstring
  pathname :: jsstring

definition encodeConfigToURL_try :: "Location option \<Rightarrow> AppConfig \<Rightarrow> js_error + jsstring" where
  "encodeConfigToURL_try window config =
     bind_result (encodeURIComponent (JSON_stringify (config_value config))) (\<lambda>component.
     bind_result (btoa component) (\<lambda>encoded.
     (case window of
        None \<Rightarrow> Inl ReferenceError
      | Some location \<Rightarrow> Inr (origin location @ pathname location @ asc ''?c='' @ encoded))))"

definition encodeConfigToURL :: "Location option \<Rightarrow> AppConfig \<Rightarrow> jsstring" where
  "encodeConfigToURL window config =
     (case encodeConfigToURL_try window config of Inl e \<Rightarrow> [] | Inr url \<Rightarrow> url)"

definition decodeConfigFromURL :: "(jsstring \<Rightarrow> bool) \<Rightarrow> jsstring \<Rightarrow> json option" where
  "decodeConfigFromURL parses url =
     (case searchParams_get parses url (asc ''c'') of
        Inl e \<Rightarrow> None
      | Inr None \<Rightarrow> None
      | Inr (Some encoded) \<Rightarrow>
          if encoded = [] then None
          else (case bind_result (atob encoded) decodeURIComponent of
                  Inl e \<Rightarrow> None
                | Inr json \<Rightarrow> parseConfigJSON json))"

definition isShareLinkTooLong :: "Location option \<Rightarrow> AppConfig \<Rightarrow> bool" where
  "isShareLinkTooLong window config \<longleftrightarrow> 2000 < length (encodeConfigToURL window config)"

section \<open>Auxiliary notions\<close>

text \<open>The length of the run of line feeds at the start of a string.\<close>

definition lead_lf :: "jsstring \<Rightarrow> nat" where
  "lead_lf s = length (takeWhile (\<lambda>x. x = 0x0A) s)"


section \<open>The prompt as a sequence of pieces\<close>

text \<open>
  The placeholders and block markers of the template. A document in the making is
  described by a list of pieces: a text, a single code unit that separates two pieces, or
  a placeholder or marker that is still to be handled. \<open>flat\<close> is the string that a
  list of pieces stands for.
\<close>

datatype mark =
    DATE_TODAY | QUERY | SCOPE | AUDIENCES_LIST | PRIORITY_DOMAINS_LIST | MUST_KEYWORDS_LIST
  | OPTIONAL_KEYWORDS_LIST | EXCLUDE_KEYWORDS_LIST | CATEGORIES_LIST
  | EGOV_BEGIN | EGOV_END | PROOF_BEGIN | PROOF_END

fun mark_text :: "mark \<Rightarrow> jsstring" where
  "mark_text DATE_TODAY = TOKEN_DATE_TODAY"
| "mark_text QUERY = TOKEN_QUERY"
| "mark_text SCOPE = TOKEN_SCOPE"
| "mark_text AUDIENCES_LIST = TOKEN_AUDIENCES_LIST"
| "mark_text PRIORITY_DOMAINS_LIST = TOKEN_PRIORITY_DOMAINS_LIST"
| "mark_text MUST_KEYWORDS_LIST = TOKEN_MUST_KEYWORDS_LIST"
| "mark_text OPTIONAL_KEYWORDS_LIST = TOKEN_OPTIONAL_KEYWORDS_LIST"
| "mark_text EXCLUDE_KEYWORDS_LIST = TOKEN_EXCLUDE_KEYWORDS_LIST"
| "mark_text CATEGORIES_LIST = TOKEN_CATEGORIES_LIST"
| "mark_text EGOV_BEGIN = EGOV_SECTION_BEGIN"
| "mark_text EGOV_END = EGOV_SECTION_END"
| "mark_text PROOF_BEGIN = PROOF_SECTION_BEGIN"
| "mark_text PROOF_END = PROOF_SECTION_END"

definition boundary :: "jschar \<Rightarrow> bool" where
  "boundary c \<longleftrightarrow> c < 0x41 \<or> 0x5F < c"

datatype piece = Text jsstring | Sep jschar | Mark mark

fun piece_text :: "piece \<Rightarrow> jsstring" where
  "piece_text (Text s) = s"
| "piece_text (Sep c) = [c]"
| "piece_text (Mark m) = mark_text m"

definition flat :: "piece list \<Rightarrow> jsstring" where
  "flat ps = concat (map piece_text ps)"

fun is_sep :: "piece \<Rightarrow> bool" where
  "is_sep (Sep c) = True"
| "is_sep _ = False"

fun spaced :: "piece list \<Rightarrow> bool" where
  "spaced [] = True"
| "spaced [x] = True"
| "spaced (x # y # r) = ((is_sep x \<or> is_sep y) \<and> spaced (y # r))"

fun free_of :: "jsstring \<Rightarrow> piece \<Rightarrow> bool" where
  "free_of p (Text s) = (\<not> sublist p s)"
| "free_of p (Sep c) = (c \<notin> set p)"
| "free_of p (Mark m) = (\<not> sublist p (mark_text m))"


text \<open>
  A piece is clear of a mark when it is that mark itself or does not contain the text
  of the mark. The code units that separate pieces are taken from outside the alphabet
  of the marks (\<open>boundary\<close>).
\<close>

definition clear :: "mark \<Rightarrow> piece \<Rightarrow> bool" where
  "clear m x \<longleftrightarrow> x = Mark m \<or> free_of (mark_text m) x"

fun sep_boundary :: "piece \<Rightarrow> bool" where
  "sep_boundary (Sep c) = boundary c"
| "sep_boundary _ = True"

text \<open>
  The four scans of \<open>generatePrompt\<close> on a list of pieces: filling every occurrence of
  a mark, filling its first occurrence, removing a marker together with a line feed that
  follows it, and cutting out every block from a begin marker to the next end marker.
\<close>

definition sub_all :: "mark \<Rightarrow> jsstring \<Rightarrow> piece list \<Rightarrow> piece list" where
  "sub_all m s ps = map (\<lambda>x. if x = Mark m then Text s else x) ps"

fun sub_first :: "mark \<Rightarrow> jsstring \<Rightarrow> piece list \<Rightarrow> piece list" where
  "sub_first m s [] = []"
| "sub_first m s (x # ps) = (if x = Mark m then Text s # ps else x # sub_first m s ps)"

fun strip_from :: "mark \<Rightarrow> bool \<Rightarrow> piece list \<Rightarrow> piece list" where
  "strip_from m b [] = []"
| "strip_from m b (x # ps) =
     (if b \<and> x = Sep 0x0A then strip_from m False ps
      else if x = Mark m then strip_from m True ps
      else x # strip_from m False ps)"

fun cut_from :: "mark \<Rightarrow> mark \<Rightarrow> bool \<Rightarrow> piece list \<Rightarrow> piece list" where
  "cut_from b e inside [] = []"
| "cut_from b e inside (x # ps) =
     (if inside then (if x = Mark e then cut_from b e False ps else cut_from b e True ps)
      else if x = Mark b \<and> Mark e \<in> set ps then cut_from b e True ps
      else x # cut_from b e False ps)"

text \<open>
  \<open>cut_ok\<close> says that the blocks seen in the pieces are the blocks that the regular
  expression finds in the text: outside a block no text contains the begin marker,
  inside a block no text contains the end marker. Where no end marker is left at all,
  nothing is cut.
\<close>

fun cut_ok :: "mark \<Rightarrow> mark \<Rightarrow> bool \<Rightarrow> piece list \<Rightarrow> bool" where
  "cut_ok b e inside [] = True"
| "cut_ok b e inside (x # ps) =
     (if inside then
        (if x = Mark e then cut_ok b e False ps
         else free_of (mark_text e) x \<and> cut_ok b e True ps)
      else list_all (free_of (mark_text e)) (x # ps)
           \<or> (if x = Mark b then Mark e \<in> set ps \<and> cut_ok b e True ps
               else free_of (mark_text b) x \<and> cut_ok b e False ps))"

text \<open>
  The template as a list of pieces: the sections of the template, the code units around
  the placeholders and markers, and the placeholders and markers themselves.
\<close>

definition text_12_20 :: jsstring where
  "text_12_20 = join [0x0A] lines_12_20"

definition text_22_23 :: jsstring where
  "text_22_23 = join [0x0A] lines_22_23"

definition text_25_59 :: jsstring where
  "text_25_59 = join [0x0A] lines_25_59"

definition text_61_73 :: jsstring where
  "text_61_73 = join [0x0A] lines_61_73"

definition text_75_83 :: jsstring where
  "text_75_83 = join [0x0A] lines_75_83"

definition text_85_93 :: jsstring where
  "text_85_93 = join [0x0A] lines_85_93"

definition text_95_121 :: jsstring where
  "text_95_121 = join [0x0A] lines_95_121"

definition text_122_head :: jsstring where
  "text_122_head = [0x30FB, 0x672C, 0x51FA, 0x529B]"

definition text_122_tail :: jsstring where
  "text_122_tail = [0x70B9, 0x306E, 0x53D6, 0x5F97, 0x7D50, 0x679C, 0x3067, 0x3042, 0x308A, 0x3001, 0x66F4, 0x65B0, 0x304C, 0x3042, 0x308A, 0x5F97, 0x308B, 0x305F, 0x3081, 0x4E00, 0x6B21, 0x8CC7, 0x6599, 0x3067, 0x78BA, 0x8A8D, 0x3059, 0x308B, 0x3053, 0x3068, 0x3002]"

definition text_123_124 :: jsstring where
  "text_123_124 = join [0x0A] lines_123_124"

definition text_125_head :: jsstring where
  "text_125_head = [0x30FB, 0x65E5, 0x4ED8] @ asc '':''"

definition text_126_head :: jsstring where
  "text_126_head = [0x30FB, 0x30C6, 0x30FC, 0x30DE] @ asc '':''"

definition text_127_head :: jsstring where
  "text_127_head = [0x30FB, 0x7BC4, 0x56F2] @ asc '':''"

definition text_128_144 :: jsstring where
  "text_128_144 = join [0x0A] lines_128_144"

definition text_146_163 :: jsstring where
  "text_146_163 = join [0x0A] lines_146_163"

definition text_164_head :: jsstring where
  "text_164_head = asc ''Date_today:''"

definition text_165_head :: jsstring where
  "text_165_head = asc ''Query:''"

definition text_166_head :: jsstring where
  "text_166_head = asc ''Scope:''"

definition text_167_168 :: jsstring where
  "text_167_168 = join [0x0A] lines_167_168"

definition text_170_171 :: jsstring where
  "text_170_171 = join [0x0A] lines_170_171"

definition text_173_174 :: jsstring where
  "text_173_174 = join [0x0A] lines_173_174"

definition text_176_177 :: jsstring where
  "text_176_177 = join [0x0A] lines_176_177"

definition text_179_180 :: jsstring where
  "text_179_180 = join [0x0A] lines_179_180"

definition text_182_191 :: jsstring where
  "text_182_191 = join [0x0A] lines_182_191"

definition text_193_194 :: jsstring where
  "text_193_194 = join [0x0A] lines_193_194"

definition TEMPLATE_PIECES :: "piece list" where
  "TEMPLATE_PIECES = [
     Text text_12_20, Sep 0x0A, Mark PROOF_BEGIN, Sep 0x0A, Text text_22_23, Sep 0x0A,
     Mark PROOF_END, Sep 0x0A, Text text_25_59, Sep 0x0A, Mark PRIORITY_DOMAINS_LIST,
     Sep 0x0A, Text text_61_73, Sep 0x0A, Mark EGOV_BEGIN, Sep 0x0A, Text text_75_83,
     Sep 0x0A, Mark EGOV_END, Sep 0x0A, Text text_85_93, Sep 0x0A,
     Mark OPTIONAL_KEYWORDS_LIST, Sep 0x0A, Text text_95_121, Sep 0x0A, Text text_122_head,
     Sep 0x306F, Mark DATE_TODAY, Sep 0x6642, Text text_122_tail, Sep 0x0A,
     Text text_123_124, Sep 0x0A, Text text_125_head, Sep 0x20, Mark DATE_TODAY, Sep 0x0A,
     Text text_126_head, Sep 0x20, Mark QUERY, Sep 0x0A, Text text_127_head, Sep 0x20,
     Mark SCOPE, Sep 0x0A, Text text_128_144, Sep 0x0A, Mark CATEGORIES_LIST, Sep 0x0A,
     Text text_146_163, Sep 0x0A, Text text_164_head, Sep 0x20, Mark DATE_TODAY, Sep 0x0A,
     Text text_165_head, Sep 0x20, Mark QUERY, Sep 0x0A, Text text_166_head, Sep 0x20,
     Mark SCOPE, Sep 0x0A, Text text_167_168, Sep 0x0A, Mark AUDIENCES_LIST, Sep 0x0A,
     Text text_170_171, Sep 0x0A, Mark PRIORITY_DOMAINS_LIST, Sep 0x0A, Text text_173_174,
     Sep 0x0A, Mark MUST_KEYWORDS_LIST, Sep 0x0A, Text text_176_177, Sep 0x0A,
     Mark OPTIONAL_KEYWORDS_LIST, Sep 0x0A, Text text_179_180, Sep 0x0A,
     Mark EXCLUDE_KEYWORDS_LIST, Sep 0x0A, Text text_182_191, Sep 0x0A, Mark PROOF_BEGIN,
     Sep 0x0A, Text text_193_194, Sep 0x0A, Mark PROOF_END]"

text \<open>
  A replacement text is inert when it contains none of the patterns \<open>$$\<close>, \<open>$&\<close>,
  \<open>$`\<close>, \<open>$'\<close>, and position free when it contains neither \<open>$`\<close> nor \<open>$'\<close> in a place
  where \<open>getSubstitution\<close> reads a pattern.
\<close>

definition special :: "jschar \<Rightarrow> bool" where
  "special d \<longleftrightarrow> d = 0x24 \<or> d = 0x26 \<or> d = 0x60 \<or> d = 0x27"

fun inert :: "jsstring \<Rightarrow> bool" where
  "inert [] = True"
| "inert [c] = True"
| "inert (c # d # r) = (\<not> (c = 0x24 \<and> special d) \<and> inert (d # r))"

fun position_free :: "jsstring \<Rightarrow> bool" where
  "position_free [] = True"
| "position_free [c] = True"
| "position_free (c # d # r) =
     (if c = 0x24 \<and> (d = 0x24 \<or> d = 0x26) then position_free r
      else if c = 0x24 \<and> (d = 0x60 \<or> d = 0x27) then False
      else position_free (d # r))"

text \<open>
  The replacement value of each placeholder, the text that replaces it when the value
  is position free (\<open>inserted\<close>), and the nine substitutions in their order; the flag
  says whether every occurrence is replaced.
\<close>

fun step_value :: "mark \<Rightarrow> AppConfig \<Rightarrow> jsstring" where
  "step_value DATE_TODAY config = dateToday config"
| "step_value QUERY config = or_else (query config) QUERY_NOT_ENTERED"
| "step_value SCOPE config = or_else (join SCOPE_SEPARATOR (scope config)) SCOPE_NOT_SPECIFIED"
| "step_value AUDIENCES_LIST config = formatList (audiences config) bullet"
| "step_value PRIORITY_DOMAINS_LIST config = formatList (priorityDomains config) bullet"
| "step_value MUST_KEYWORDS_LIST config = formatList [MUST_KEYWORD] bullet"
| "step_value OPTIONAL_KEYWORDS_LIST config = formatList (optionalKeywords config) bullet"
| "step_value EXCLUDE_KEYWORDS_LIST config =
     formatList (filter non_blank (excludeKeywords config)) bullet"
| "step_value CATEGORIES_LIST config = formatList (enabledCategories config) bullet"
| "step_value EGOV_BEGIN config = []"
| "step_value EGOV_END config = []"
| "step_value PROOF_BEGIN config = []"
| "step_value PROOF_END config = []"

definition inserted :: "mark \<Rightarrow> AppConfig \<Rightarrow> jsstring" where
  "inserted m config = getSubstitution (mark_text m) [] [] (step_value m config)"

definition STEPS :: "(mark \<times> bool) list" where
  "STEPS = [(DATE_TODAY, True), (QUERY, True), (SCOPE, True), (AUDIENCES_LIST, False),
     (PRIORITY_DOMAINS_LIST, True), (MUST_KEYWORDS_LIST, False), (OPTIONAL_KEYWORDS_LIST, True),
     (EXCLUDE_KEYWORDS_LIST, False), (CATEGORIES_LIST, False)]"

definition step_text :: "mark \<times> bool \<Rightarrow> AppConfig \<Rightarrow> jsstring \<Rightarrow> jsstring" where
  "step_text st config s =
     (if snd st then replace_all (mark_text (fst st)) (step_value (fst st) config) s
      else replace_first (mark_text (fst st)) (step_value (fst st) config) s)"

definition step_pieces :: "mark \<times> bool \<Rightarrow> AppConfig \<Rightarrow> piece list \<Rightarrow> piece list" where
  "step_pieces st config ps =
     (if snd st then sub_all (fst st) (inserted (fst st) config) ps
      else sub_first (fst st) (inserted (fst st) config) ps)"

definition ready :: "mark \<Rightarrow> piece list \<Rightarrow> bool" where
  "ready m ps \<longleftrightarrow> list_all (clear m) ps \<and> list_all sep_boundary ps \<and> spaced ps"

fun steps_ok :: "(mark \<times> bool) list \<Rightarrow> AppConfig \<Rightarrow> piece list \<Rightarrow> bool" where
  "steps_ok [] config ps = True"
| "steps_ok (st # sts) config ps =
     (position_free (step_value (fst st) config) \<and> ready (fst st) ps
      \<and> steps_ok sts config (step_pieces st config ps))"

definition token_pieces :: "AppConfig \<Rightarrow> piece list" where
  "token_pieces config = fold (\<lambda>st. step_pieces st config) STEPS TEMPLATE_PIECES"

definition egov_pieces :: "AppConfig \<Rightarrow> piece list \<Rightarrow> piece list" where
  "egov_pieces config ps =
     (if \<not> eGovCrossReference config then cut_from EGOV_BEGIN EGOV_END False ps
      else strip_from EGOV_END False (strip_from EGOV_BEGIN False ps))"

definition proof_pieces :: "AppConfig \<Rightarrow> piece list \<Rightarrow> piece list" where
  "proof_pieces config ps =
     (if \<not> proofMode config then cut_from PROOF_BEGIN PROOF_END False ps
      else strip_from PROOF_END False (strip_from PROOF_BEGIN False ps))"

definition block_ok :: "bool \<Rightarrow> mark \<Rightarrow> mark \<Rightarrow> piece list \<Rightarrow> bool" where
  "block_ok keep b e ps =
     (if \<not> keep then cut_ok b e False ps \<and> list_all sep_boundary ps \<and> spaced ps
      else ready b ps \<and> ready e (strip_from b False ps))"

definition prompt_pieces :: "AppConfig \<Rightarrow> piece list" where
  "prompt_pieces config = proof_pieces config (egov_pieces config (token_pieces config))"

text \<open>
  A configuration is admissible when at every step of \<open>generatePrompt\<close> the texts
  handled so far are clear of the mark of that step.
\<close>

definition admissible :: "AppConfig \<Rightarrow> bool" where
  "admissible config \<longleftrightarrow>
     steps_ok STEPS config TEMPLATE_PIECES
     \<and> block_ok (eGovCrossReference config) EGOV_BEGIN EGOV_END (token_pieces config)
     \<and> block_ok (proofMode config) PROOF_BEGIN PROOF_END
           (egov_pieces config (token_pieces config))"
section \<open>Example inputs\<close>

text \<open>The configuration of the example of section 8 of the specification.\<close>

definition example_config :: AppConfig where
  "example_config = \<lparr> dateToday = asc ''2026-02-04'', query = [], scope = [], audiences = [],
     priorityDomains = [asc ''mhlw.go.jp''],
     keywordChips = [\<lparr> name = asc ''SaMD'', enabled = True \<rparr>],
     customKeywords = [], excludeKeywords = [],
     categories = [\<lparr> name = asc ''Cat A'', enabled = True \<rparr>],
     activeTab = asc ''medical-device'', eGovCrossReference = False,
     proofMode = False, officialDomainPriority = False, siteOperator = False \<rparr>"

text \<open>JSON texts: one that is malformed, a number, an array, an object without
  \<open>activeTab\<close> and an object that has nothing but \<open>activeTab\<close>.\<close>

definition text_malformed :: jsstring where "text_malformed = asc ''{''"
definition text_number :: jsstring where "text_number = asc ''42''"
definition text_array :: jsstring where "text_array = asc ''[]''"
definition text_no_tab :: jsstring where "text_no_tab = asc ''{}''"
definition text_tab_only :: jsstring where
  "text_tab_only = asc ''{'' @ [0x22] @ asc ''activeTab'' @ [0x22] @ asc '':1}''"


section \<open>Texts that matter to the blocks and the placeholders\<close>

text \<open>
  Every placeholder contains \<open>[[\<close> and every block marker contains \<open>_SECTION_\<close>; the
  heading of the e-Gov block and the word for proof in the proof block tell whether the
  content of a block is present in a prompt. \<open>lack p ts\<close> says that no text of \<open>ts\<close>
  contains \<open>p\<close>.
\<close>

definition DOUBLE_BRACKET :: jsstring where
  "DOUBLE_BRACKET = asc ''[[''"

definition SECTION_WORD :: jsstring where
  "SECTION_WORD = asc ''_SECTION_''"

definition DOUBLE_DOLLAR :: jsstring where
  "DOUBLE_DOLLAR = asc ''$$''"

definition EGOV_HEADING :: jsstring where
  "EGOV_HEADING = asc ''e-Gov'' @ [0x6CD5, 0x4EE4, 0x53D6, 0x5F97]"

definition PROOF_HEADING :: jsstring where
  "PROOF_HEADING = [0x5B9F, 0x8A3C]"

definition lack :: "jsstring \<Rightarrow> jsstring list \<Rightarrow> bool" where
  "lack p ts \<longleftrightarrow> list_all (\<lambda>t. \<not> sublist p t) ts"

text \<open>
  A replacement that is verbatim in the words of the specification: every occurrence of
  the pattern, found from left to right without overlap, is replaced by the value as it
  is, whatever the value contains.
\<close>

fun replace_verbatim :: "jsstring \<Rightarrow> jsstring \<Rightarrow> jsstring \<Rightarrow> jsstring" where
  "replace_verbatim [] r s = s"
| "replace_verbatim (q # qs) r [] = []"
| "replace_verbatim (q # qs) r (c # s) =
     (if prefix (q # qs) (c # s) then r @ replace_verbatim (q # qs) r (drop (length qs) s)
      else c # replace_verbatim (q # qs) r s)"

text \<open>Configurations used as concrete inputs: a query of white space only.\<close>

definition blank_query_config :: AppConfig where
  "blank_query_config = example_config \<lparr> query := [0x20, 0x3000, 0x09] \<rparr>"

text \<open>
  The nine placeholders and the four block markers. The rendered texts of a
  configuration are the texts of the user that \<open>generatePrompt\<close> writes into the prompt:
  the date, the query, the scope labels, the audiences, the priority domains, the
  optional keywords, the exclusion keywords that are not blank and the names of the
  enabled categories. A text is plain when it contains no placeholder, no block marker
  and none of the replacement patterns \<open>$$\<close>, \<open>$&\<close>, \<open>$`\<close>, \<open>$'\<close>.
\<close>

definition TOKENS :: "mark list" where
  "TOKENS = [DATE_TODAY, QUERY, SCOPE, AUDIENCES_LIST, PRIORITY_DOMAINS_LIST, MUST_KEYWORDS_LIST,
     OPTIONAL_KEYWORDS_LIST, EXCLUDE_KEYWORDS_LIST, CATEGORIES_LIST]"

definition MARKERS :: "mark list" where
  "MARKERS = [EGOV_BEGIN, EGOV_END, PROOF_BEGIN, PROOF_END]"

definition NONE_ITEM :: jsstring where
  "NONE_ITEM = asc ''('' @ [0x306A, 0x3057] @ asc '')''"

definition rendered_texts :: "AppConfig \<Rightarrow> jsstring list" where
  "rendered_texts config =
     [dateToday config, query config] @ scope config @ audiences config
     @ priorityDomains config @ optionalKeywords config
     @ filter non_blank (excludeKeywords config) @ enabledCategories config"

definition plain :: "jsstring \<Rightarrow> bool" where
  "plain v \<longleftrightarrow> list_all (\<lambda>m. \<not> sublist (mark_text m) v) (TOKENS @ MARKERS) \<and> inert v"

text \<open>
  A text \<open>p\<close> that the values of the placeholders can only contain when a rendered text
  contains it: \<open>p\<close> is not empty, avoids the code units that join the items of a value,
  and is not part of the sentinels or of the mandatory keyword. \<open>values_ok\<close> says that
  the value of each step is position free and clear of the marks of the later steps.
\<close>

definition value_pattern :: "jsstring \<Rightarrow> bool" where
  "value_pattern p \<longleftrightarrow>
     p \<noteq> [] \<and> 0x0A \<notin> set p \<and> 0x30FB \<notin> set p \<and> 0x3001 \<notin> set p
     \<and> \<not> sublist p NONE_ITEM \<and> \<not> sublist p QUERY_NOT_ENTERED
     \<and> \<not> sublist p SCOPE_NOT_SPECIFIED \<and> \<not> sublist p MUST_KEYWORD"

fun values_ok :: "(mark \<times> bool) list \<Rightarrow> AppConfig \<Rightarrow> bool" where
  "values_ok [] config = True"
| "values_ok (st # sts) config =
     (position_free (step_value (fst st) config)
      \<and> list_all (\<lambda>st'. \<not> sublist (mark_text (fst st')) (inserted (fst st) config)) sts
      \<and> values_ok sts config)"

text \<open>
  \<open>fill\<close> puts the inserted text in the place of a placeholder and leaves every other
  piece as it is. The texts of the template outside the three blocks, the texts that a
  configuration keeps, the code units that separate the pieces of the template, and the
  pieces that a finished prompt is made of.
\<close>

fun fill :: "AppConfig \<Rightarrow> piece \<Rightarrow> piece" where
  "fill config (Mark m) = (if m \<in> set TOKENS then Text (inserted m config) else Mark m)"
| "fill config (Text t) = Text t"
| "fill config (Sep c) = Sep c"

definition OUTER_TEXTS :: "jsstring list" where
  "OUTER_TEXTS = [text_12_20, text_25_59, text_61_73, text_85_93, text_95_121,
     text_122_head, text_122_tail, text_123_124, text_125_head, text_126_head,
     text_127_head, text_128_144, text_146_163, text_164_head, text_165_head,
     text_166_head, text_167_168, text_170_171, text_173_174, text_176_177,
     text_179_180, text_182_191]"

definition kept_texts :: "AppConfig \<Rightarrow> jsstring list" where
  "kept_texts config =
     OUTER_TEXTS @ (if eGovCrossReference config then [text_75_83] else [])
     @ (if proofMode config then [text_22_23, text_193_194] else [])"

definition template_sep :: "jschar \<Rightarrow> bool" where
  "template_sep c \<longleftrightarrow> c = 0x0A \<or> c = 0x20 \<or> c = 0x306F \<or> c = 0x6642"

fun final_piece :: "AppConfig \<Rightarrow> piece \<Rightarrow> bool" where
  "final_piece config (Text t) =
     (t \<in> set (kept_texts config) \<or> t \<in> set (map (\<lambda>m. inserted m config) TOKENS))"
| "final_piece config (Sep c) = template_sep c"
| "final_piece config (Mark m) = False"

text \<open>
  More concrete inputs: the end marker of the proof block as the query, the date
  placeholder as the name of a category, both blocks switched on, and the custom
  keyword \<open>$$\<close>.
\<close>

definition marker_query_config :: AppConfig where
  "marker_query_config = example_config \<lparr> query := PROOF_SECTION_END \<rparr>"

definition token_category_config :: AppConfig where
  "token_category_config =
     example_config \<lparr> categories := [\<lparr> name = TOKEN_DATE_TODAY, enabled = True \<rparr>] \<rparr>"

definition both_blocks_config :: AppConfig where
  "both_blocks_config = example_config \<lparr> eGovCrossReference := True, proofMode := True \<rparr>"

definition dollar_keyword_config :: AppConfig where
  "dollar_keyword_config = example_config \<lparr> customKeywords := [asc ''$$''] \<rparr>"

section \<open>A share link with a plus sign\<close>

text \<open>
  A configuration whose query is \<open>~~~\<close>, the location \<open>https://example.com/\<close>, and the
  code units of a text made by \<open>btoa\<close>: letters, digits, \<open>+\<close>, \<open>/\<close> and \<open>=\<close>.
\<close>

definition tilde_config :: AppConfig where
  "tilde_config = \<lparr> dateToday = asc ''2026-02-04'', query = asc ''~~~'', scope = [],
     audiences = [], priorityDomains = [], keywordChips = [], customKeywords = [],
     excludeKeywords = [], categories = [], activeTab = asc ''medical-device'',
     eGovCrossReference = False, proofMode = False, officialDomainPriority = False,
     siteOperator = False \<rparr>"

definition example_location :: Location where
  "example_location = \<lparr> origin = asc ''https://example.com'', pathname = asc ''/'' \<rparr>"

definition base64_text :: "jschar \<Rightarrow> bool" where
  "base64_text c \<longleftrightarrow> is_alnum c \<or> c = 0x2B \<or> c = 0x2F \<or> c = 0x3D"
section \<open>Blank lines and trimming\<close>

lemma lead_lf_simps [simp]:
  "lead_lf [] = 0"
  "lead_lf (c # s) = (if c = 0x0A then Suc (lead_lf s) else 0)"
  by (simp_all add: lead_lf_def)

lemma lead_lf_dropWhile [simp]: "lead_lf (dropWhile (\<lambda>x. x = 0x0A) s) = 0"
  by (induction s) auto

lemma collapse_newlines_Cons:
  "collapse_newlines (c # s) =
     (if c = 0x0A \<and> 2 \<le> lead_lf s
      then 0x0A # 0x0A # collapse_newlines (dropWhile (\<lambda>x. x = 0x0A) s)
      else c # collapse_newlines s)"
  by (auto simp: lead_lf_def)

lemma lead_lf_collapse: "lead_lf (collapse_newlines s) = (if 3 \<le> lead_lf s then 2 else lead_lf s)"
proof (induction "length s" arbitrary: s rule: less_induct)
  case less
  show ?case
  proof (cases s)
    case Nil
    then show ?thesis by simp
  next
    case (Cons c t)
    show ?thesis
    proof (cases "c = 0x0A \<and> 2 \<le> lead_lf t")
      case True
      have "length (dropWhile (\<lambda>x. x = 0x0A) t) < length s"
        using Cons by (simp add: length_dropWhile_le less_Suc_eq_le)
      from less [OF this] True Cons show ?thesis
        by (simp add: collapse_newlines_Cons del: collapse_newlines.simps)
    next
      case False
      have "length t < length s" using Cons by simp
      from less [OF this] False Cons show ?thesis
        by (auto simp add: collapse_newlines_Cons simp del: collapse_newlines.simps)
    qed
  qed
qed

lemma prefix_lf3_lead: "prefix [0x0A, 0x0A, 0x0A] s \<Longrightarrow> 3 \<le> lead_lf s"
  by (auto simp: prefix_def)

lemma collapse_newlines_no_run: "\<not> sublist [0x0A, 0x0A, 0x0A] (collapse_newlines s)"
proof (induction "length s" arbitrary: s rule: less_induct)
  case less
  show ?case
  proof (cases s)
    case Nil
    then show ?thesis by simp
  next
    case (Cons c t)
    have no_pre: "\<not> prefix [0x0A, 0x0A, 0x0A] (collapse_newlines s)"
      using prefix_lf3_lead [of "collapse_newlines s"] lead_lf_collapse [of s]
      by (auto split: if_splits)
    show ?thesis
    proof (cases "c = 0x0A \<and> 2 \<le> lead_lf t")
      case True
      let ?u = "collapse_newlines (dropWhile (\<lambda>x. x = 0x0A) t)"
      have "length (dropWhile (\<lambda>x. x = 0x0A) t) < length s"
        using Cons by (simp add: length_dropWhile_le less_Suc_eq_le)
      then have ih: "\<not> sublist [0x0A, 0x0A, 0x0A] ?u"
        by (rule less)
      have eq: "collapse_newlines s = 0x0A # 0x0A # ?u"
        using True Cons by (simp add: collapse_newlines_Cons del: collapse_newlines.simps)
      have "lead_lf ?u = 0"
        by (simp add: lead_lf_collapse)
      then have "\<not> prefix [0x0A, 0x0A, 0x0A] (0x0A # ?u)"
        using prefix_lf3_lead [of "0x0A # ?u"] by auto
      with ih no_pre show ?thesis
        unfolding eq by (simp add: sublist_Cons_right)
    next
      case False
      have "length t < length s" using Cons by simp
      then have ih: "\<not> sublist [0x0A, 0x0A, 0x0A] (collapse_newlines t)"
        by (rule less)
      have eq: "collapse_newlines s = c # collapse_newlines t"
        using False Cons by (auto simp add: collapse_newlines_Cons simp del: collapse_newlines.simps)
      show ?thesis
        using ih no_pre unfolding eq by (simp add: sublist_Cons_right)
    qed
  qed
qed

lemma sublist_trim: "sublist (trim s) s"
proof -
  have "sublist (rev (dropWhile is_ws (rev (dropWhile is_ws s)))) (dropWhile is_ws s)"
    by (simp add: sublist_rev_left)
  then show ?thesis
    unfolding trim_def by (rule sublist_order.order_trans) (rule sublist_dropWhile)
qed

lemma takeWhile_dropWhile_Nil: "takeWhile P (dropWhile P xs) = []"
  by (induction xs) auto

lemma trim_no_trailing: "takeWhile is_ws (rev (trim s)) = []"
  by (simp add: trim_def takeWhile_dropWhile_Nil)

lemma trim_no_leading: "takeWhile is_ws (trim s) = []"
proof -
  let ?t = "dropWhile is_ws s"
  let ?u = "rev (dropWhile is_ws (rev ?t))"
  have pre: "prefix ?u ?t"
    using suffix_dropWhile [of is_ws "rev ?t"] by (simp add: suffix_to_prefix)
  have t: "takeWhile is_ws ?t = []"
    by (rule takeWhile_dropWhile_Nil)
  show ?thesis
  proof (cases ?u)
    case Nil
    then have "trim s = []" by (simp only: trim_def)
    then show ?thesis by simp
  next
    case (Cons a u')
    with pre obtain t' where "?t = a # t'"
      by (auto simp: prefix_def)
    with t have a: "\<not> is_ws a" by (auto split: if_splits)
    have "trim s = a # u'" using Cons by (simp only: trim_def)
    with a show ?thesis by simp
  qed
qed

lemma lead_lf_append:
  "lead_lf (a @ t) = (if \<forall>x\<in>set a. x = 0x0A then length a + lead_lf t else lead_lf a)"
  by (induction a) auto

lemma all_lf_last: "\<forall>x\<in>set a. x = c \<Longrightarrow> a = [] \<or> last a = c"
  by (induction a) auto

lemma lead_lf_all: "\<forall>x\<in>set a. x = 0x0A \<Longrightarrow> lead_lf a = length a"
  by (induction a) auto

lemma last_suffix: "suffix d a \<Longrightarrow> d \<noteq> [] \<Longrightarrow> last d = last a \<and> a \<noteq> []"
  by (metis Nil_is_append_conv last_appendR suffix_def)

lemma lead_lf_append_boundary:
  assumes "last (c # a) \<noteq> 0x0A \<or> t = [] \<or> hd t \<noteq> 0x0A"
  shows "lead_lf (c # a @ t) = lead_lf (c # a)"
proof (cases "\<forall>x\<in>set (c # a). x = 0x0A")
  case True
  then have "last (c # a) = 0x0A" using all_lf_last [of "c # a" "0x0A"] by simp
  with assms have "t = [] \<or> hd t \<noteq> 0x0A" by simp
  then have "lead_lf t = 0" by (cases t) auto
  with True show ?thesis
    using lead_lf_append [of "c # a" t] lead_lf_all [of "c # a"] by (simp del: lead_lf_simps)
next
  case False
  then show ?thesis
    using lead_lf_append [of "c # a" t] by (auto simp del: lead_lf_simps)
qed

lemma dropWhile_lf_append_boundary:
  fixes a t :: jsstring
  assumes "last (0x0A # a) \<noteq> 0x0A \<or> t = [] \<or> hd t \<noteq> 0x0A"
  shows "dropWhile (\<lambda>x. x = 0x0A) (a @ t) = dropWhile (\<lambda>x. x = 0x0A) a @ t
         \<and> (dropWhile (\<lambda>x. x = 0x0A) a = [] \<or> last (dropWhile (\<lambda>x. x = 0x0A) a) \<noteq> 0x0A
              \<or> t = [] \<or> hd t \<noteq> 0x0A)"
proof (cases "\<forall>x\<in>set a. x = 0x0A")
  case True
  then have all: "dropWhile (\<lambda>x. x = 0x0A) a = []" by simp
  have "last (0x0A # a) = 0x0A" using True all_lf_last [of "0x0A # a" "0x0A"] by simp
  with assms have "t = [] \<or> hd t \<noteq> 0x0A" by simp
  then have "dropWhile (\<lambda>x. x = 0x0A) (a @ t) = t"
    using True by (cases t) (auto simp: dropWhile_append)
  with all show ?thesis by simp
next
  case False
  then have ne: "dropWhile (\<lambda>x. x = 0x0A) a \<noteq> []" by auto
  have app: "dropWhile (\<lambda>x. x = 0x0A) (a @ t) = dropWhile (\<lambda>x. x = 0x0A) a @ t"
    using False by (auto simp: dropWhile_append)
  have "suffix (dropWhile (\<lambda>x. x = 0x0A) a) a" by (rule suffix_dropWhile)
  with ne have "last (dropWhile (\<lambda>x. x = 0x0A) a) = last a" "a \<noteq> []"
    using last_suffix by blast+
  with assms ne app show ?thesis by auto
qed

lemma collapse_newlines_append:
  "a = [] \<or> last a \<noteq> 0x0A \<or> t = [] \<or> hd t \<noteq> 0x0A \<Longrightarrow>
   collapse_newlines (a @ t) = collapse_newlines a @ collapse_newlines t"
proof (induction "length a" arbitrary: a rule: less_induct)
  case less
  show ?case
  proof (cases a)
    case Nil
    then show ?thesis by simp
  next
    case (Cons c a')
    have bound: "last (c # a') \<noteq> 0x0A \<or> t = [] \<or> hd t \<noteq> 0x0A"
      using less.prems Cons by simp
    have bound': "a' = [] \<or> last a' \<noteq> 0x0A \<or> t = [] \<or> hd t \<noteq> 0x0A"
      using bound by (cases "a' = []") auto
    have lead: "lead_lf (a' @ t) = lead_lf a' \<or> c \<noteq> 0x0A"
      using lead_lf_append_boundary [OF bound] by (cases "c = 0x0A") auto
    show ?thesis
    proof (cases "c = 0x0A \<and> 2 \<le> lead_lf a'")
      case True
      let ?d = "dropWhile (\<lambda>x. x = 0x0A) a'"
      from dropWhile_lf_append_boundary [of a' t] bound True
      have d: "dropWhile (\<lambda>x. x = 0x0A) (a' @ t) = ?d @ t"
        and db: "?d = [] \<or> last ?d \<noteq> 0x0A \<or> t = [] \<or> hd t \<noteq> 0x0A" by auto
      have "length ?d < length a"
        using Cons by (simp add: length_dropWhile_le less_Suc_eq_le)
      from less(1) [OF this db]
      have "collapse_newlines (?d @ t) = collapse_newlines ?d @ collapse_newlines t" .
      with True lead d Cons show ?thesis
        by (simp add: collapse_newlines_Cons del: collapse_newlines.simps)
    next
      case False
      have "length a' < length a" using Cons by simp
      from less(1) [OF this bound']
      have "collapse_newlines (a' @ t) = collapse_newlines a' @ collapse_newlines t" .
      with False lead Cons show ?thesis
        by (auto simp add: collapse_newlines_Cons simp del: collapse_newlines.simps)
    qed
  qed
qed

lemma collapse_newlines_run:
  assumes "3 \<le> n" and "b = [] \<or> hd b \<noteq> 0x0A"
  shows "collapse_newlines (replicate n 0x0A @ b) = 0x0A # 0x0A # collapse_newlines b"
proof -
  obtain k where n: "n = Suc k" and k: "2 \<le> k" using assms(1) by (cases n) auto
  have lb: "lead_lf b = 0" using assms(2) by (cases b) auto
  have "lead_lf (replicate k 0x0A @ b) = k"
    using lead_lf_append [of "replicate k 0x0A" b] lb by simp
  moreover have "dropWhile (\<lambda>x. x = 0x0A) (replicate k 0x0A @ b) = b"
    using assms(2) by (cases b) (auto simp: dropWhile_append)
  ultimately show ?thesis
    using k unfolding n by (simp add: collapse_newlines_Cons del: collapse_newlines.simps)
qed

lemma collapse_newlines_id: "\<not> sublist [0x0A, 0x0A, 0x0A] s \<Longrightarrow> collapse_newlines s = s"
proof (induction s)
  case Nil
  then show ?case by simp
next
  case (Cons c s)
  have ih: "collapse_newlines s = s"
    using Cons by (simp add: sublist_Cons_right)
  have "\<not> prefix [0x0A, 0x0A, 0x0A] (c # s)"
    using Cons.prems by (simp add: sublist_Cons_right)
  then have "\<not> (c = 0x0A \<and> 2 \<le> lead_lf s)"
    by (cases s; cases "tl s") (auto split: if_splits)
  with ih show ?case
    by (auto simp add: collapse_newlines_Cons simp del: collapse_newlines.simps)
qed

lemma collapse_newlines_exactly_two:
  assumes "3 \<le> n" and "a = [] \<or> last a \<noteq> 0x0A" and "b = [] \<or> hd b \<noteq> 0x0A"
  shows "collapse_newlines (a @ replicate n 0x0A @ b)
           = collapse_newlines a @ [0x0A, 0x0A] @ collapse_newlines b"
proof -
  have "collapse_newlines (a @ replicate n 0x0A @ b)
          = collapse_newlines a @ collapse_newlines (replicate n 0x0A @ b)"
    using assms(2) by (intro collapse_newlines_append) auto
  with collapse_newlines_run [OF assms(1,3)] show ?thesis by simp
qed

lemma trim_decomposition:
  "\<exists>leading trailing. s = leading @ trim s @ trailing
     \<and> list_all is_ws leading \<and> list_all is_ws trailing"
proof -
  let ?t = "dropWhile is_ws s"
  have "s = takeWhile is_ws s @ ?t" by simp
  moreover have "?t = rev (dropWhile is_ws (rev ?t)) @ rev (takeWhile is_ws (rev ?t))"
    by (metis rev_append rev_rev_ident takeWhile_dropWhile_id)
  ultimately have "s = takeWhile is_ws s @ trim s @ rev (takeWhile is_ws (rev ?t))"
    by (simp add: trim_def)
  moreover have "list_all is_ws (takeWhile is_ws s)"
    by (simp add: list_all_iff) (meson set_takeWhileD)
  moreover have "list_all is_ws (rev (takeWhile is_ws (rev ?t)))"
    by (simp add: list_all_iff) (meson set_takeWhileD)
  ultimately show ?thesis by blast
qed

section \<open>The shape of the query list\<close>

lemma hd_take_Cons: "0 < n \<Longrightarrow> hd (take n (x # xs)) = x"
  by (cases n) simp_all

lemma take_Cons_nonempty: "0 < n \<Longrightarrow> take n (x # xs) \<noteq> []"
  by (cases n) simp_all

lemma generateSearchQueries_shape:
  "generateSearchQueries config =
     take 10 ((MUST_KEYWORD @ asc '' '' @ or_else (query config) DEFAULT_THEME
                 @ asc '' '' @ GUIDELINE @ asc '' '' @ LATEST_VERSION)
              # (if query config \<noteq> []
                 then [query config @ asc '' '' @ GUIDELINE @ asc '' '' @ DOMESTIC] else [])
              @ map name (take 5 (filter enabled (keywordChips config)))
              @ (if officialDomainPriority config \<and> siteOperator config
                 then map (\<lambda>domain. asc ''site:'' @ domain @ asc '' ''
                                             @ or_else (query config) DEFAULT_THEME
                                             @ asc '' '' @ GUIDELINE)
                                          (take 3 (priorityDomains config))
                 else []))"
  by (simp add: generateSearchQueries_def Let_def)

section \<open>Parsing the example texts\<close>

lemmas parse_defs = JSON_parse_def skip_ws_def json_ws_def asc_def object_of_def parse_number_def
  parse_int_part_def parse_fraction_def parse_exponent_def take_digits_def is_digit_def
  cons_result_def unescape_def hex4_def hex_value_def

lemma JSON_parse_text_malformed: "JSON_parse text_malformed = None"
  by (simp add: text_malformed_def parse_defs)
lemma JSON_parse_text_number: "JSON_parse text_number = Some (JNum (asc ''42''))"
  by (simp add: text_number_def parse_defs)
lemma JSON_parse_text_array: "JSON_parse text_array = Some (JArr [])"
  by (simp add: text_array_def parse_defs)
lemma JSON_parse_text_no_tab: "JSON_parse text_no_tab = Some (JObj [])"
  by (simp add: text_no_tab_def parse_defs)
lemma JSON_parse_text_tab_only: "JSON_parse text_tab_only = Some (JObj [(asc ''activeTab'', JNum (asc ''1''))])"
  by (simp add: text_tab_only_def parse_defs)

section \<open>Patterns and pieces\<close>

lemmas mark_defs = TOKEN_DATE_TODAY_def TOKEN_QUERY_def TOKEN_SCOPE_def TOKEN_AUDIENCES_LIST_def
  TOKEN_PRIORITY_DOMAINS_LIST_def TOKEN_MUST_KEYWORDS_LIST_def TOKEN_OPTIONAL_KEYWORDS_LIST_def
  TOKEN_EXCLUDE_KEYWORDS_LIST_def TOKEN_CATEGORIES_LIST_def EGOV_SECTION_BEGIN_def
  EGOV_SECTION_END_def PROOF_SECTION_BEGIN_def PROOF_SECTION_END_def

lemma mark_text_not_Nil: "mark_text m \<noteq> []"
  by (cases m) (simp_all add: mark_defs asc_def)

lemma mark_text_chars: "c \<in> set (mark_text m) \<Longrightarrow> 0x41 \<le> c \<and> c \<le> 0x5F"
  by (cases m) (auto simp add: mark_defs asc_def)

lemma boundary_not_in_mark: "boundary c \<Longrightarrow> c \<notin> set (mark_text m)"
  using mark_text_chars [of c m] by (auto simp: boundary_def)

lemma marks_distinct: "m \<noteq> m' \<Longrightarrow> \<not> sublist (mark_text m) (mark_text m')"
  by (cases m; cases m'; simp add: mark_defs asc_def sublist_Cons_right)


lemma flat_simps [simp]:
  "flat [] = []"
  "flat (x # ps) = piece_text x @ flat ps"
  "flat (ps @ qs) = flat ps @ flat qs"
  by (simp_all add: flat_def)

subsection \<open>Occurrences of a pattern at a boundary\<close>

lemma no_match_across:
  assumes "\<not> sublist p u" and "rest = [] \<or> hd rest \<notin> set p"
  shows "\<not> prefix p (u @ rest) \<or> p = []"
proof (rule ccontr)
  assume "\<not> (\<not> prefix p (u @ rest) \<or> p = [])"
  then have pre: "prefix p (u @ rest)" and ne: "p \<noteq> []" by auto
  from pre have "prefix p u \<or> (\<exists>us. p = u @ us \<and> prefix us rest)"
    by (simp add: prefix_append)
  then consider "prefix p u" | us where "p = u @ us" "prefix us rest" "us \<noteq> []"
    by (cases "prefix p u") auto
  then show False
  proof cases
    case 1
    then have "sublist p u" by (rule prefix_imp_sublist)
    with assms(1) show False by simp
  next
    case 2
    then obtain c us' where us: "us = c # us'" by (cases us) auto
    with 2 obtain rest' where "rest = c # rest'" by (auto simp: prefix_def)
    with assms(2) have "c \<notin> set p" by simp
    with 2(1) us show False by simp
  qed
qed

lemma sublist_append_boundary:
  assumes "\<not> sublist p a" and "\<not> sublist p b"
    and "a = [] \<or> last a \<notin> set p \<or> b = [] \<or> hd b \<notin> set p"
  shows "\<not> sublist p (a @ b)"
proof
  assume "sublist p (a @ b)"
  with assms(1,2) obtain p1 p2 where p12: "p = p1 @ p2" "suffix p1 a" "prefix p2 b"
    by (auto simp: sublist_append)
  have "p1 \<noteq> []"
    using p12 assms(2) prefix_imp_sublist by fastforce
  moreover have "p2 \<noteq> []"
    using p12 assms(1) suffix_imp_sublist by fastforce
  ultimately have p: "p = p1 @ p2" "p1 \<noteq> []" "p2 \<noteq> []" "suffix p1 a" "prefix p2 b"
    using p12 by auto
  from p(2,4) have "a \<noteq> []" "last a = last p1" by (auto simp: suffix_def)
  moreover from p(3,5) have "b \<noteq> []" "hd b = hd p2" by (auto simp: prefix_def)
  moreover have "last p1 \<in> set p" "hd p2 \<in> set p" using p(1-3) by auto
  ultimately show False using assms(3) by auto
qed

lemma spaced_tail: "spaced (x # ps) \<Longrightarrow> spaced ps"
  by (cases ps) auto

lemma spaced_next:
  assumes "spaced (x # ps)" and "\<not> is_sep x" and "\<forall>y\<in>set ps. free_of p y"
  shows "flat ps = [] \<or> hd (flat ps) \<notin> set p"
proof (cases ps)
  case Nil
  then show ?thesis by simp
next
  case (Cons y ps')
  with assms(1,2) obtain c where "y = Sep c" by (cases y) auto
  with Cons assms(3) show ?thesis by simp
qed

lemma flat_free:
  assumes "\<forall>x\<in>set ps. free_of p x" and "spaced ps"
  shows "\<not> sublist p (flat ps) \<or> p = []"
  using assms
proof (induction ps)
  case Nil
  then show ?case by simp
next
  case (Cons x ps)
  show ?case
  proof (cases "p = []")
    case True
    then show ?thesis by simp
  next
    case False
    have tail: "\<not> sublist p (flat ps)"
      using Cons False spaced_tail by auto
    have head: "\<not> sublist p (piece_text x)"
      using Cons.prems(1) False by (cases x) (auto simp: sublist_Cons_right prefix_Cons)
    have "piece_text x = [] \<or> last (piece_text x) \<notin> set p
          \<or> flat ps = [] \<or> hd (flat ps) \<notin> set p"
    proof (cases "is_sep x")
      case True
      then obtain c where "x = Sep c" by (cases x) auto
      with Cons.prems(1) show ?thesis by simp
    next
      case False
      with spaced_next [OF Cons.prems(2) False] Cons.prems(1) show ?thesis by simp
    qed
    with head tail show ?thesis
      by (simp add: sublist_append_boundary)
  qed
qed

section \<open>The scans of \<open>generatePrompt\<close> on pieces\<close>



subsection \<open>Scanning over a text without a match\<close>

lemma not_sublist_tail: "\<not> sublist p (x # u) \<Longrightarrow> \<not> sublist p u"
  by (simp add: sublist_Cons_right)

lemma no_match_sep: "c \<notin> set p \<Longrightarrow> p \<noteq> [] \<Longrightarrow> \<not> prefix p (c # rest)"
  by (cases p) auto

lemma free_piece_text: "free_of p x \<Longrightarrow> p \<noteq> [] \<Longrightarrow> \<not> sublist p (piece_text x)"
  by (cases x) (auto simp: sublist_Cons_right dest: no_match_sep)

lemma replace_all_from_sep:
  "c \<notin> set p \<Longrightarrow> p \<noteq> [] \<Longrightarrow>
   replace_all_from p r pre (c # rest) = c # replace_all_from p r (pre @ [c]) rest"
  using no_match_sep [of c p rest] by (cases p) auto

lemma replace_all_from_skip:
  assumes "\<not> sublist p u" and "rest = [] \<or> hd rest \<notin> set p" and "p \<noteq> []"
  shows "replace_all_from p r pre (u @ rest) = u @ replace_all_from p r (pre @ u) rest"
  using assms(1)
proof (induction u arbitrary: pre)
  case Nil
  then show ?case by simp
next
  case (Cons x u)
  obtain q qs where p: "p = q # qs" using assms(3) by (cases p) auto
  have "\<not> prefix p ((x # u) @ rest)"
    using no_match_across [OF Cons.prems assms(2)] assms(3) by simp
  then have "replace_all_from p r pre ((x # u) @ rest)
               = x # replace_all_from p r (pre @ [x]) (u @ rest)"
    unfolding p by (simp only: append_Cons replace_all_from.simps if_False)
  also have "replace_all_from p r (pre @ [x]) (u @ rest)
               = u @ replace_all_from p r ((pre @ [x]) @ u) rest"
    using Cons.IH [OF not_sublist_tail [OF Cons.prems]] .
  finally show ?case by simp
qed

lemma replace_all_from_hit:
  "p \<noteq> [] \<Longrightarrow>
   replace_all_from p r pre (p @ rest)
     = getSubstitution p pre rest r @ replace_all_from p r (pre @ p) rest"
  by (cases p) auto

lemma replace_first_from_sep:
  "c \<notin> set p \<Longrightarrow> p \<noteq> [] \<Longrightarrow>
   replace_first_from p r pre (c # rest) = c # replace_first_from p r (pre @ [c]) rest"
  using no_match_sep [of c p rest] by auto

lemma replace_first_from_skip:
  assumes "\<not> sublist p u" and "rest = [] \<or> hd rest \<notin> set p" and "p \<noteq> []"
  shows "replace_first_from p r pre (u @ rest) = u @ replace_first_from p r (pre @ u) rest"
  using assms(1)
proof (induction u arbitrary: pre)
  case Nil
  then show ?case by simp
next
  case (Cons x u)
  have "\<not> prefix p ((x # u) @ rest)"
    using no_match_across [OF Cons.prems assms(2)] assms(3) by simp
  then have "replace_first_from p r pre ((x # u) @ rest)
               = x # replace_first_from p r (pre @ [x]) (u @ rest)"
    by (simp only: append_Cons replace_first_from.simps if_False)
  also have "replace_first_from p r (pre @ [x]) (u @ rest)
               = u @ replace_first_from p r ((pre @ [x]) @ u) rest"
    using Cons.IH [OF not_sublist_tail [OF Cons.prems]] .
  finally show ?case by simp
qed

lemma replace_first_from_hit:
  "p \<noteq> [] \<Longrightarrow> replace_first_from p r pre (p @ rest) = getSubstitution p pre rest r @ rest"
  by (cases p) auto

lemma replace_first_from_none:
  "\<not> sublist p s \<Longrightarrow> p \<noteq> [] \<Longrightarrow> replace_first_from p r pre s = s"
  using replace_first_from_skip [of p s "[]" r pre] by simp

lemma remove_marker_sep:
  "c \<notin> set p \<Longrightarrow> p \<noteq> [] \<Longrightarrow> remove_marker p (c # rest) = c # remove_marker p rest"
  using no_match_sep [of c p rest] by (cases p) auto

lemma remove_marker_skip:
  assumes "\<not> sublist p u" and "rest = [] \<or> hd rest \<notin> set p" and "p \<noteq> []"
  shows "remove_marker p (u @ rest) = u @ remove_marker p rest"
  using assms(1)
proof (induction u)
  case Nil
  then show ?case by simp
next
  case (Cons x u)
  obtain q qs where p: "p = q # qs" using assms(3) by (cases p) auto
  have "\<not> prefix p ((x # u) @ rest)"
    using no_match_across [OF Cons.prems assms(2)] assms(3) by simp
  then have "remove_marker p ((x # u) @ rest) = x # remove_marker p (u @ rest)"
    unfolding p by (simp only: append_Cons remove_marker.simps if_False)
  with Cons.IH [OF not_sublist_tail [OF Cons.prems]] show ?case by simp
qed

lemma remove_marker_hit:
  "p \<noteq> [] \<Longrightarrow> remove_marker p (p @ rest) = remove_marker p (drop_lf rest)"
  by (cases p) auto

lemma after_first_None: "after_first e s = None \<longleftrightarrow> \<not> sublist e s"
  by (induction s) (auto simp: sublist_Cons_right)

lemma after_first_sep:
  "c \<notin> set e \<Longrightarrow> e \<noteq> [] \<Longrightarrow> after_first e (c # rest) = after_first e rest"
  using no_match_sep [of c e rest] by auto

lemma after_first_skip:
  assumes "\<not> sublist e u" and "rest = [] \<or> hd rest \<notin> set e" and "e \<noteq> []"
  shows "after_first e (u @ rest) = after_first e rest"
  using assms(1)
proof (induction u)
  case Nil
  then show ?case by simp
next
  case (Cons x u)
  have "\<not> prefix e ((x # u) @ rest)"
    using no_match_across [OF Cons.prems assms(2)] assms(3) by simp
  then have "after_first e ((x # u) @ rest) = after_first e (u @ rest)"
    by (simp only: append_Cons after_first.simps if_False)
  with Cons.IH [OF not_sublist_tail [OF Cons.prems]] show ?case by simp
qed

lemma after_first_hit: "e \<noteq> [] \<Longrightarrow> after_first e (e @ rest) = Some rest"
  by (cases e) auto

lemma remove_blocks_sep:
  "c \<notin> set b \<Longrightarrow> b \<noteq> [] \<Longrightarrow> remove_blocks b e (c # rest) = c # remove_blocks b e rest"
  using no_match_sep [of c b rest] by (cases b) auto

lemma remove_blocks_skip:
  assumes "\<not> sublist b u" and "rest = [] \<or> hd rest \<notin> set b" and "b \<noteq> []"
  shows "remove_blocks b e (u @ rest) = u @ remove_blocks b e rest"
  using assms(1)
proof (induction u)
  case Nil
  then show ?case by simp
next
  case (Cons x u)
  obtain q qs where b: "b = q # qs" using assms(3) by (cases b) auto
  have "\<not> prefix b ((x # u) @ rest)"
    using no_match_across [OF Cons.prems assms(2)] assms(3) by simp
  then have "remove_blocks b e ((x # u) @ rest) = x # remove_blocks b e (u @ rest)"
    unfolding b by (simp only: append_Cons remove_blocks.simps if_False)
  with Cons.IH [OF not_sublist_tail [OF Cons.prems]] show ?case by simp
qed

lemma remove_blocks_hit:
  "b \<noteq> [] \<Longrightarrow> after_first e rest = Some rest' \<Longrightarrow>
   remove_blocks b e (b @ rest) = remove_blocks b e rest'"
  by (cases b) auto

lemma remove_blocks_no_end: "\<not> sublist e s \<Longrightarrow> remove_blocks b e s = s"
proof (induction s)
  case Nil
  then show ?case by (cases b) auto
next
  case (Cons c s)
  have ih: "remove_blocks b e s = s"
    using Cons.IH [OF not_sublist_tail [OF Cons.prems]] .
  show ?case
  proof (cases "b = []")
    case True
    then show ?thesis by simp
  next
    case False
    then obtain q qs where b: "b = q # qs" by (cases b) auto
    have "sublist (drop (length qs) s) (c # s)"
      by (simp add: sublist_Cons_right)
    then have "\<not> sublist e (drop (length qs) s)"
      using Cons.prems sublist_order.order_trans [of e "drop (length qs) s" "c # s"] by blast
    then have "after_first e (drop (length qs) s) = None"
      by (simp add: after_first_None)
    with ih show ?thesis unfolding b by auto
  qed
qed

subsection \<open>The four scans on a list of pieces\<close>

lemma free_of_mark_Sep: "boundary c \<Longrightarrow> free_of (mark_text m) (Sep c)"
  by (simp add: boundary_not_in_mark)

lemma free_of_mark_Mark: "free_of (mark_text m) (Mark m') \<longleftrightarrow> m' \<noteq> m"
  using marks_distinct [of m m'] by auto

lemma spaced_append_right: "spaced (ps @ qs) \<Longrightarrow> spaced qs"
  by (induction ps) (auto dest: spaced_tail)

lemma next_boundary:
  assumes "spaced (x # ps)" and "\<not> is_sep x" and "list_all sep_boundary ps"
  shows "flat ps = [] \<or> hd (flat ps) \<notin> set (mark_text m)"
proof (cases ps)
  case Nil
  then show ?thesis by simp
next
  case (Cons y ps')
  with assms(1,2) obtain c where "y = Sep c" by (cases y) auto
  with Cons assms(3) show ?thesis by (simp add: boundary_not_in_mark)
qed

lemma clear_cases:
  assumes "clear m x" and "sep_boundary x"
  obtains (hit) "x = Mark m"
    | (sep) c where "x = Sep c" "c \<notin> set (mark_text m)"
    | (skip) "\<not> is_sep x" "\<not> sublist (mark_text m) (piece_text x)"
proof (cases "x = Mark m")
  case True
  then show ?thesis by (rule hit)
next
  case False
  with assms(1) have free: "free_of (mark_text m) x" by (simp add: clear_def)
  show ?thesis
  proof (cases "is_sep x")
    case True
    then obtain c where "x = Sep c" by (cases x) auto
    with free show ?thesis by (auto intro: sep)
  next
    case False
    with free free_piece_text [OF free mark_text_not_Nil] show ?thesis by (auto intro: skip)
  qed
qed

lemma replace_all_pieces:
  assumes "\<forall>pre post. getSubstitution (mark_text m) pre post r = s"
  shows "list_all (clear m) ps \<Longrightarrow> list_all sep_boundary ps \<Longrightarrow> spaced ps \<Longrightarrow>
         replace_all_from (mark_text m) r pre (flat ps) = flat (sub_all m s ps)"
proof (induction ps arbitrary: pre)
  case Nil
  then show ?case
    using mark_text_not_Nil [of m] by (cases "mark_text m") (auto simp: sub_all_def)
next
  case (Cons x ps)
  have ih: "replace_all_from (mark_text m) r pre' (flat ps) = flat (sub_all m s ps)" for pre'
    using Cons by (auto dest: spaced_tail)
  from Cons.prems have "clear m x" "sep_boundary x" by auto
  then show ?case
  proof (cases rule: clear_cases)
    case hit
    then show ?thesis
      using replace_all_from_hit [OF mark_text_not_Nil, of m r pre "flat ps"] assms ih
      by (simp add: sub_all_def)
  next
    case (sep c)
    then show ?thesis
      using replace_all_from_sep [OF sep(2) mark_text_not_Nil, of r pre "flat ps"] ih
      by (simp add: sub_all_def)
  next
    case skip
    have "flat ps = [] \<or> hd (flat ps) \<notin> set (mark_text m)"
      using next_boundary [OF Cons.prems(3) skip(1)] Cons.prems(2) by simp
    from replace_all_from_skip [OF skip(2) this mark_text_not_Nil, of r pre] ih skip(2)
    show ?thesis by (auto simp: sub_all_def)
  qed
qed

lemma replace_first_pieces:
  assumes "\<forall>pre post. getSubstitution (mark_text m) pre post r = s"
  shows "list_all (clear m) ps \<Longrightarrow> list_all sep_boundary ps \<Longrightarrow> spaced ps \<Longrightarrow>
         replace_first_from (mark_text m) r pre (flat ps) = flat (sub_first m s ps)"
proof (induction ps arbitrary: pre)
  case Nil
  then show ?case
    using mark_text_not_Nil [of m] by simp
next
  case (Cons x ps)
  have ih: "replace_first_from (mark_text m) r pre' (flat ps) = flat (sub_first m s ps)" for pre'
    using Cons by (auto dest: spaced_tail)
  from Cons.prems have "clear m x" "sep_boundary x" by auto
  then show ?case
  proof (cases rule: clear_cases)
    case hit
    then show ?thesis
      using replace_first_from_hit [OF mark_text_not_Nil, of m r pre "flat ps"] assms
      by simp
  next
    case (sep c)
    then show ?thesis
      using replace_first_from_sep [OF sep(2) mark_text_not_Nil, of r pre "flat ps"] ih
      by simp
  next
    case skip
    have "flat ps = [] \<or> hd (flat ps) \<notin> set (mark_text m)"
      using next_boundary [OF Cons.prems(3) skip(1)] Cons.prems(2) by simp
    from replace_first_from_skip [OF skip(2) this mark_text_not_Nil, of r pre] ih skip(2)
    show ?thesis by auto
  qed
qed

lemma mark_text_no_lf: "mark_text m = c # cs \<Longrightarrow> c \<noteq> 0x0A"
  using mark_text_chars [of c m] by auto

lemma remove_marker_pieces:
  "list_all (clear m) ps \<Longrightarrow> list_all sep_boundary ps \<Longrightarrow> spaced ps \<Longrightarrow>
   remove_marker (mark_text m) (flat ps) = flat (strip_from m False ps)"
proof (induction "length ps" arbitrary: ps rule: less_induct)
  case less
  show ?case
  proof (cases ps)
    case Nil
    then show ?thesis
      using mark_text_not_Nil [of m] by (cases "mark_text m") auto
  next
    case (Cons x ps')
    have ih: "remove_marker (mark_text m) (flat qs) = flat (strip_from m False qs)"
      if "length qs < length ps" "list_all (clear m) qs" "list_all sep_boundary qs" "spaced qs" for qs
      using less(1) [OF that] .
    have tail: "list_all (clear m) ps'" "list_all sep_boundary ps'" "spaced ps'"
      using less.prems Cons by (auto dest: spaced_tail)
    have ih': "remove_marker (mark_text m) (flat ps') = flat (strip_from m False ps')"
      using ih [of ps'] tail Cons by simp
    from less.prems Cons have "clear m x" "sep_boundary x" by auto
    then show ?thesis
    proof (cases rule: clear_cases)
      case hit
      have start: "remove_marker (mark_text m) (flat ps)
                     = remove_marker (mark_text m) (drop_lf (flat ps'))"
        using remove_marker_hit [OF mark_text_not_Nil, of m "flat ps'"] hit Cons by simp
      show ?thesis
      proof (cases ps')
        case Nil
        with start hit Cons show ?thesis
          using mark_text_not_Nil [of m] by (cases "mark_text m") (auto simp: drop_lf_def)
      next
        case (Cons y ps'')
        with less.prems(3) hit \<open>ps = x # ps'\<close> obtain c where y: "y = Sep c"
          by (cases y) auto
        have tail2: "list_all (clear m) ps''" "list_all sep_boundary ps''" "spaced ps''"
          using tail Cons by (auto dest: spaced_tail)
        have ih2: "remove_marker (mark_text m) (flat ps'') = flat (strip_from m False ps'')"
          using ih [of ps''] tail2 Cons \<open>ps = x # ps'\<close> by simp
        show ?thesis
        proof (cases "c = 0x0A")
          case True
          with start ih2 hit y Cons \<open>ps = x # ps'\<close> show ?thesis
            by (simp add: drop_lf_def)
        next
          case False
          have "drop_lf (flat ps') = flat ps'"
            using False y Cons by (simp add: drop_lf_def)
          with start ih' hit y Cons \<open>ps = x # ps'\<close> False show ?thesis
            by simp
        qed
      qed
    next
      case (sep c)
      then show ?thesis
        using remove_marker_sep [OF sep(2) mark_text_not_Nil, of "flat ps'"] ih' Cons
        by simp
    next
      case skip
      have "flat ps' = [] \<or> hd (flat ps') \<notin> set (mark_text m)"
        using next_boundary [of x ps' m] less.prems Cons skip(1) by simp
      from remove_marker_skip [OF skip(2) this mark_text_not_Nil] ih' skip Cons
      show ?thesis by auto
    qed
  qed
qed

lemma after_first_pieces:
  "list_all (free_of (mark_text e)) pre \<Longrightarrow> list_all sep_boundary (pre @ Mark e # rest) \<Longrightarrow>
   spaced (pre @ Mark e # rest) \<Longrightarrow>
   after_first (mark_text e) (flat (pre @ Mark e # rest)) = Some (flat rest)"
proof (induction pre)
  case Nil
  then show ?case
    using after_first_hit [OF mark_text_not_Nil, of e "flat rest"] by simp
next
  case (Cons x pre)
  have ih: "after_first (mark_text e) (flat (pre @ Mark e # rest)) = Some (flat rest)"
    using Cons by (auto dest: spaced_tail)
  from Cons.prems(1) have free: "free_of (mark_text e) x" by simp
  show ?case
  proof (cases "is_sep x")
    case True
    then obtain c where x: "x = Sep c" by (cases x) auto
    with free have "c \<notin> set (mark_text e)" by simp
    from after_first_sep [OF this mark_text_not_Nil] ih x show ?thesis by simp
  next
    case False
    have "flat (pre @ Mark e # rest) = [] \<or> hd (flat (pre @ Mark e # rest)) \<notin> set (mark_text e)"
      using next_boundary [of x "pre @ Mark e # rest" e] Cons.prems False by simp
    from after_first_skip [OF free_piece_text [OF free mark_text_not_Nil] this mark_text_not_Nil] ih
    show ?thesis by simp
  qed
qed

lemma cut_from_inside:
  "Mark e \<notin> set pre \<Longrightarrow> cut_from b e True (pre @ Mark e # rest) = cut_from b e False rest"
  by (induction pre) auto

lemma cut_ok_inside:
  "Mark e \<notin> set pre \<Longrightarrow>
   cut_ok b e True (pre @ Mark e # rest)
     \<longleftrightarrow> list_all (free_of (mark_text e)) pre \<and> cut_ok b e False rest"
  by (induction pre) auto

lemma cut_from_no_end: "Mark e \<notin> set ps \<Longrightarrow> cut_from b e False ps = ps"
  by (induction ps) auto

lemma free_not_end: "list_all (free_of (mark_text e)) ps \<Longrightarrow> Mark e \<notin> set ps"
  by (induction ps) auto

lemma remove_blocks_pieces:
  "cut_ok b e False ps \<Longrightarrow> list_all sep_boundary ps \<Longrightarrow> spaced ps \<Longrightarrow>
   remove_blocks (mark_text b) (mark_text e) (flat ps) = flat (cut_from b e False ps)"
proof (induction "length ps" arbitrary: ps rule: less_induct)
  case less
  show ?case
  proof (cases ps)
    case Nil
    then show ?thesis
      using mark_text_not_Nil [of b] by (cases "mark_text b") auto
  next
    case (Cons x ps')
    have tail: "list_all sep_boundary ps'" "spaced ps'"
      using less.prems Cons by (auto dest: spaced_tail)
    show ?thesis
    proof (cases "list_all (free_of (mark_text e)) ps")
      case True
      then have "\<not> sublist (mark_text e) (flat ps)"
        using flat_free [of ps "mark_text e"] less.prems(3) mark_text_not_Nil [of e]
        by (auto simp: list_all_iff)
      then have "remove_blocks (mark_text b) (mark_text e) (flat ps) = flat ps"
        by (rule remove_blocks_no_end)
      with cut_from_no_end [OF free_not_end [OF True], of b] show ?thesis by simp
    next
      case False
      show ?thesis
      proof (cases "x = Mark b")
        case True
        with less.prems(1) False Cons have e_in: "Mark e \<in> set ps'" and ok: "cut_ok b e True ps'"
          by auto
        from split_list_first [OF e_in] obtain pre rest
          where ps': "ps' = pre @ Mark e # rest" and pre: "Mark e \<notin> set pre"
          by auto
        from ok have free: "list_all (free_of (mark_text e)) pre" and ok': "cut_ok b e False rest"
          unfolding ps' by (simp_all add: cut_ok_inside [OF pre])
        have "after_first (mark_text e) (flat ps') = Some (flat rest)"
          using after_first_pieces [OF free] tail unfolding ps' by simp
        then have "remove_blocks (mark_text b) (mark_text e) (flat ps)
                     = remove_blocks (mark_text b) (mark_text e) (flat rest)"
          using remove_blocks_hit [OF mark_text_not_Nil, of "mark_text e" "flat ps'" "flat rest" b]
            True Cons by simp
        also have "\<dots> = flat (cut_from b e False rest)"
        proof (rule less(1))
          show "length rest < length ps" using Cons ps' by simp
          show "cut_ok b e False rest" by (rule ok')
          show "list_all sep_boundary rest" using tail(1) ps' by simp
          show "spaced rest"
            using tail(2) spaced_append_right [of "pre @ [Mark e]" rest] ps' by simp
        qed
        also have "cut_from b e False rest = cut_from b e False ps"
          using cut_from_inside [OF pre, of b rest] True e_in Cons ps' by simp
        finally show ?thesis .
      next
        case notb: False
        with less.prems(1) False Cons have free: "free_of (mark_text b) x"
            and ok: "cut_ok b e False ps'"
          by auto
        have ih: "remove_blocks (mark_text b) (mark_text e) (flat ps') = flat (cut_from b e False ps')"
          using less(1) [of ps'] ok tail Cons by simp
        have cut: "cut_from b e False ps = x # cut_from b e False ps'"
          using notb Cons by simp
        show ?thesis
        proof (cases "is_sep x")
          case True
          then obtain c where x: "x = Sep c" by (cases x) auto
          with free have "c \<notin> set (mark_text b)" by simp
          from remove_blocks_sep [OF this mark_text_not_Nil, of "mark_text e" "flat ps'"] ih cut x Cons
          show ?thesis by simp
        next
          case False
          have "flat ps' = [] \<or> hd (flat ps') \<notin> set (mark_text b)"
            using next_boundary [of x ps' b] less.prems Cons False by simp
          from remove_blocks_skip [OF free_piece_text [OF free mark_text_not_Nil] this mark_text_not_Nil,
              of "mark_text e"] ih cut Cons
          show ?thesis by simp
        qed
      qed
    qed
  qed
qed

lemmas lines_defs = lines_12_20_def
  lines_22_23_def
  lines_25_59_def
  lines_61_73_def
  lines_75_83_def
  lines_85_93_def
  lines_95_121_def
  lines_123_124_def
  lines_128_144_def
  lines_146_163_def
  lines_167_168_def
  lines_170_171_def
  lines_173_174_def
  lines_176_177_def
  lines_179_180_def
  lines_182_191_def
  lines_193_194_def

lemmas text_defs = text_12_20_def
  text_22_23_def
  text_25_59_def
  text_61_73_def
  text_75_83_def
  text_85_93_def
  text_95_121_def
  text_123_124_def
  text_128_144_def
  text_146_163_def
  text_167_168_def
  text_170_171_def
  text_173_174_def
  text_176_177_def
  text_179_180_def
  text_182_191_def
  text_193_194_def

lemmas head_tail_defs = text_122_head_def
  text_122_tail_def
  text_125_head_def
  text_126_head_def
  text_127_head_def
  text_164_head_def
  text_165_head_def
  text_166_head_def

lemma join_Cons_nonempty: "ys \<noteq> [] \<Longrightarrow> join sep (x # ys) = x @ sep @ join sep ys"
  by (cases ys) auto

lemma join_append: "xs \<noteq> [] \<Longrightarrow> ys \<noteq> [] \<Longrightarrow> join sep (xs @ ys) = join sep xs @ sep @ join sep ys"
proof (induction xs)
  case Nil
  then show ?case by simp
next
  case (Cons x xs)
  then show ?case
    by (cases "xs = []") (auto simp: join_Cons_nonempty)
qed

lemma lines_nonempty:
  "lines_12_20 \<noteq> []"
  "lines_22_23 \<noteq> []"
  "lines_25_59 \<noteq> []"
  "lines_61_73 \<noteq> []"
  "lines_75_83 \<noteq> []"
  "lines_85_93 \<noteq> []"
  "lines_95_121 \<noteq> []"
  "lines_123_124 \<noteq> []"
  "lines_128_144 \<noteq> []"
  "lines_146_163 \<noteq> []"
  "lines_167_168 \<noteq> []"
  "lines_170_171 \<noteq> []"
  "lines_173_174 \<noteq> []"
  "lines_176_177 \<noteq> []"
  "lines_179_180 \<noteq> []"
  "lines_182_191 \<noteq> []"
  "lines_193_194 \<noteq> []"
  by (simp_all add: lines_defs)

lemma inline_lines:
  "[0x30FB, 0x672C, 0x51FA, 0x529B, 0x306F] @ asc ''[[DATE_TODAY]]'' @ [0x6642, 0x70B9, 0x306E, 0x53D6, 0x5F97, 0x7D50, 0x679C, 0x3067, 0x3042, 0x308A, 0x3001, 0x66F4, 0x65B0, 0x304C, 0x3042, 0x308A, 0x5F97, 0x308B, 0x305F, 0x3081, 0x4E00, 0x6B21, 0x8CC7, 0x6599, 0x3067, 0x78BA, 0x8A8D, 0x3059, 0x308B, 0x3053, 0x3068, 0x3002] = text_122_head @ [0x306F] @ mark_text DATE_TODAY @ [0x6642] @ text_122_tail"
  "[0x30FB, 0x65E5, 0x4ED8] @ asc '': [[DATE_TODAY]]'' = text_125_head @ [0x20] @ mark_text DATE_TODAY"
  "[0x30FB, 0x30C6, 0x30FC, 0x30DE] @ asc '': [[QUERY]]'' = text_126_head @ [0x20] @ mark_text QUERY"
  "[0x30FB, 0x7BC4, 0x56F2] @ asc '': [[SCOPE]]'' = text_127_head @ [0x20] @ mark_text SCOPE"
  "asc ''Date_today: [[DATE_TODAY]]'' = text_164_head @ [0x20] @ mark_text DATE_TODAY"
  "asc ''Query: [[QUERY]]'' = text_165_head @ [0x20] @ mark_text QUERY"
  "asc ''Scope: [[SCOPE]]'' = text_166_head @ [0x20] @ mark_text SCOPE"
  by (simp_all add: head_tail_defs mark_defs asc_def)

lemma marker_lines:
  "asc ''PROOF_SECTION_BEGIN'' = mark_text PROOF_BEGIN"
  "asc ''PROOF_SECTION_END'' = mark_text PROOF_END"
  "asc ''[[PRIORITY_DOMAINS_LIST]]'' = mark_text PRIORITY_DOMAINS_LIST"
  "asc ''EGOV_SECTION_BEGIN'' = mark_text EGOV_BEGIN"
  "asc ''EGOV_SECTION_END'' = mark_text EGOV_END"
  "asc ''[[OPTIONAL_KEYWORDS_LIST]]'' = mark_text OPTIONAL_KEYWORDS_LIST"
  "asc ''[[CATEGORIES_LIST]]'' = mark_text CATEGORIES_LIST"
  "asc ''[[AUDIENCES_LIST]]'' = mark_text AUDIENCES_LIST"
  "asc ''[[MUST_KEYWORDS_LIST]]'' = mark_text MUST_KEYWORDS_LIST"
  "asc ''[[EXCLUDE_KEYWORDS_LIST]]'' = mark_text EXCLUDE_KEYWORDS_LIST"
  by (simp_all add: mark_defs)

lemma BASE_TEMPLATE_pieces: "BASE_TEMPLATE = flat TEMPLATE_PIECES"
  unfolding BASE_TEMPLATE_def BASE_TEMPLATE_lines_def TEMPLATE_PIECES_def text_defs
    inline_lines marker_lines
  by (simp add: join_append join_Cons_nonempty lines_nonempty)

subsection \<open>Replacement patterns\<close>

lemma getSubstitution_inert: "inert r \<Longrightarrow> getSubstitution m pre post r = r"
  by (induction r rule: inert.induct) (auto simp: special_def)

lemma getSubstitution_position_free:
  "position_free r \<Longrightarrow> getSubstitution m pre post r = getSubstitution m [] [] r"
  by (induction r rule: position_free.induct) (auto split: if_splits)

lemma inert_position_free: "inert r \<Longrightarrow> position_free r"
  by (induction r rule: position_free.induct) (auto simp: special_def)

lemma inert_Cons: "c \<noteq> 0x24 \<Longrightarrow> inert (c # r) = inert r"
  by (cases r) auto

lemma inert_append:
  "inert a \<Longrightarrow> inert b \<Longrightarrow> b = [] \<or> \<not> special (hd b) \<Longrightarrow> inert (a @ b)"
proof (induction a rule: inert.induct)
  case 1
  then show ?case by simp
next
  case (2 c)
  then show ?case by (cases b) auto
next
  case (3 c d r)
  then show ?case by auto
qed

subsection \<open>The steps of \<open>generatePrompt\<close> on pieces\<close>

lemma step_text_pieces:
  assumes "position_free (step_value (fst st) config)" and "ready (fst st) ps"
  shows "step_text st config (flat ps) = flat (step_pieces st config ps)"
proof -
  have fixed: "\<forall>pre post. getSubstitution (mark_text (fst st)) pre post (step_value (fst st) config)
                 = inserted (fst st) config"
    using getSubstitution_position_free [OF assms(1)] by (simp add: inserted_def)
  from assms(2) have r: "list_all (clear (fst st)) ps" "list_all sep_boundary ps" "spaced ps"
    by (simp_all add: ready_def)
  show ?thesis
    using replace_all_pieces [OF fixed r, of "[]"] replace_first_pieces [OF fixed r, of "[]"]
    by (simp add: step_text_def step_pieces_def replace_all_def replace_first_def)
qed

lemma steps_text_pieces:
  "steps_ok sts config ps \<Longrightarrow>
   fold (\<lambda>st. step_text st config) sts (flat ps) = flat (fold (\<lambda>st. step_pieces st config) sts ps)"
proof (induction sts arbitrary: ps)
  case Nil
  then show ?case by simp
next
  case (Cons st sts)
  then show ?case
    using step_text_pieces [of st config ps] by simp
qed

lemma substitute_tokens_steps:
  "substitute_tokens config s = fold (\<lambda>st. step_text st config) STEPS s"
  by (simp add: substitute_tokens_def STEPS_def step_text_def replace_date_def replace_query_def
      replace_scope_def replace_audiences_def replace_priority_domains_def replace_must_keywords_def
      replace_optional_keywords_def replace_exclude_keywords_def replace_categories_def mark_defs)

lemma handle_block_pieces:
  assumes "block_ok keep b e ps"
  shows "(if \<not> keep then remove_blocks (mark_text b) (mark_text e) (flat ps)
          else remove_marker (mark_text e) (remove_marker (mark_text b) (flat ps)))
         = flat (if \<not> keep then cut_from b e False ps
                 else strip_from e False (strip_from b False ps))"
proof (cases keep)
  case False
  with assms show ?thesis
    by (simp add: block_ok_def remove_blocks_pieces)
next
  case True
  with assms have "ready b ps" "ready e (strip_from b False ps)"
    by (simp_all add: block_ok_def)
  then show ?thesis
    using True by (simp add: ready_def remove_marker_pieces)
qed

lemma generatePrompt_pieces:
  assumes "admissible config"
  shows "generatePrompt config = trim (collapse_newlines (flat (prompt_pieces config)))"
proof -
  from assms have tok: "steps_ok STEPS config TEMPLATE_PIECES"
    and egov: "block_ok (eGovCrossReference config) EGOV_BEGIN EGOV_END (token_pieces config)"
    and pblock: "block_ok (proofMode config) PROOF_BEGIN PROOF_END
                (egov_pieces config (token_pieces config))"
    by (simp_all add: admissible_def)
  have "substitute_tokens config BASE_TEMPLATE = flat (token_pieces config)"
    using steps_text_pieces [OF tok]
    by (simp add: substitute_tokens_steps BASE_TEMPLATE_pieces token_pieces_def)
  moreover have "handle_egov config (flat (token_pieces config))
                   = flat (egov_pieces config (token_pieces config))"
    using handle_block_pieces [OF egov]
    by (cases "eGovCrossReference config") (simp_all add: handle_egov_def egov_pieces_def)
  moreover have "handle_proof config (flat (egov_pieces config (token_pieces config)))
                   = flat (prompt_pieces config)"
    using handle_block_pieces [OF pblock]
    by (cases "proofMode config") (simp_all add: handle_proof_def proof_pieces_def prompt_pieces_def)
  ultimately show ?thesis
    by (simp add: generatePrompt_def)
qed

section \<open>What the output keeps and what the template lacks\<close>



subsection \<open>What collapsing and trimming keep\<close>

lemma prefix_collapse_newlines:
  "0x0A \<notin> set p \<Longrightarrow> prefix p (collapse_newlines s) \<Longrightarrow> prefix p s"
proof (induction p arbitrary: s)
  case Nil
  then show ?case by simp
next
  case (Cons q p)
  from Cons.prems obtain c t where s: "s = c # t"
    by (cases s) auto
  have q: "q \<noteq> 0x0A" using Cons.prems(1) by auto
  show ?case
  proof (cases "c = 0x0A")
    case True
    then have "hd (collapse_newlines s) = 0x0A"
      unfolding s by (auto simp add: collapse_newlines_Cons simp del: collapse_newlines.simps)
    moreover have "collapse_newlines s \<noteq> []"
      using Cons.prems(2) by auto
    ultimately show ?thesis
      using Cons.prems(2) q by (cases "collapse_newlines s") auto
  next
    case False
    then have "collapse_newlines s = c # collapse_newlines t"
      unfolding s by (simp add: collapse_newlines_Cons del: collapse_newlines.simps)
    with Cons.prems(2) have "q = c" "prefix p (collapse_newlines t)" by auto
    with Cons.IH [of t] Cons.prems(1) s show ?thesis by simp
  qed
qed

lemma sublist_Cons_lf:
  "0x0A \<notin> set p \<Longrightarrow> p \<noteq> [] \<Longrightarrow> sublist p (0x0A # s) \<Longrightarrow> sublist p s"
  by (cases p) (auto simp: sublist_Cons_right)

lemma sublist_collapse_newlines:
  assumes "0x0A \<notin> set p" and "p \<noteq> []"
  shows "sublist p (collapse_newlines s) \<Longrightarrow> sublist p s"
proof (induction "length s" arbitrary: s rule: less_induct)
  case less
  show ?case
  proof (cases s)
    case Nil
    with less.prems show ?thesis by simp
  next
    case (Cons c t)
    show ?thesis
    proof (cases "c = 0x0A \<and> 2 \<le> lead_lf t")
      case True
      let ?d = "dropWhile (\<lambda>x. x = 0x0A) t"
      have "collapse_newlines s = 0x0A # 0x0A # collapse_newlines ?d"
        using True Cons by (simp add: collapse_newlines_Cons del: collapse_newlines.simps)
      with less.prems have "sublist p (collapse_newlines ?d)"
        using sublist_Cons_lf [OF assms] by auto
      moreover have "length ?d < length s"
        using Cons by (simp add: length_dropWhile_le less_Suc_eq_le)
      ultimately have "sublist p ?d" by (rule less(1) [rotated])
      then have "sublist p t"
        using sublist_dropWhile sublist_order.order_trans by blast
      then show ?thesis using Cons by (simp add: sublist_Cons_right)
    next
      case False
      have eq: "collapse_newlines s = c # collapse_newlines t"
        using False Cons by (auto simp add: collapse_newlines_Cons simp del: collapse_newlines.simps)
      from less.prems have "prefix p (c # collapse_newlines t) \<or> sublist p (collapse_newlines t)"
        unfolding eq by (simp add: sublist_Cons_right)
      then show ?thesis
      proof
        assume "prefix p (c # collapse_newlines t)"
        then have "prefix p (collapse_newlines s)" by (simp add: eq)
        then have "prefix p s" by (rule prefix_collapse_newlines [OF assms(1)])
        then show ?thesis by (rule prefix_imp_sublist)
      next
        assume "sublist p (collapse_newlines t)"
        moreover have "length t < length s" using Cons by simp
        ultimately have "sublist p t" by (rule less(1) [rotated])
        then show ?thesis using Cons by (simp add: sublist_Cons_right)
      qed
    qed
  qed
qed

lemma output_lacks:
  assumes "0x0A \<notin> set p" and "p \<noteq> []" and "\<not> sublist p s"
  shows "\<not> sublist p (trim (collapse_newlines s))"
proof
  assume "sublist p (trim (collapse_newlines s))"
  then have "sublist p (collapse_newlines s)"
    using sublist_trim sublist_order.order_trans by blast
  with sublist_collapse_newlines [OF assms(1,2)] assms(3) show False by blast
qed

lemma collapse_newlines_keeps:
  assumes "sublist x s" and "x \<noteq> []" and "hd x \<noteq> 0x0A" and "last x \<noteq> 0x0A"
    and "\<not> sublist [0x0A, 0x0A, 0x0A] x"
  shows "sublist x (collapse_newlines s)"
proof -
  from assms(1) obtain a b where s: "s = a @ x @ b" by (auto simp: sublist_def)
  have "collapse_newlines (a @ (x @ b)) = collapse_newlines a @ collapse_newlines (x @ b)"
    using assms(2,3) by (intro collapse_newlines_append) (auto simp: hd_append)
  moreover have "collapse_newlines (x @ b) = collapse_newlines x @ collapse_newlines b"
    using assms(4) by (intro collapse_newlines_append) auto
  moreover have "collapse_newlines x = x"
    using assms(5) by (rule collapse_newlines_id)
  ultimately show ?thesis
    unfolding s by (auto simp: sublist_def)
qed

lemma dropWhile_keeps:
  assumes "x \<noteq> []" and "\<not> P (hd x)"
  shows "\<exists>a'. dropWhile P (a @ x @ b) = a' @ x @ b"
proof (cases "\<forall>y\<in>set a. P y")
  case True
  then have "dropWhile P (a @ x @ b) = dropWhile P (x @ b)"
    by (simp add: dropWhile_append)
  also have "\<dots> = x @ b" using assms by (cases x) auto
  finally show ?thesis by (intro exI [of _ "[]"]) simp
next
  case False
  then have "dropWhile P (a @ x @ b) = dropWhile P a @ x @ b"
    by (auto simp: dropWhile_append)
  then show ?thesis by blast
qed

lemma trim_keeps:
  assumes "sublist x s" and "x \<noteq> []" and "\<not> is_ws (hd x)" and "\<not> is_ws (last x)"
  shows "sublist x (trim s)"
proof -
  from assms(1) obtain a b where s: "s = a @ x @ b" by (auto simp: sublist_def)
  from dropWhile_keeps [of x is_ws a b] assms(2,3) obtain a'
    where d: "dropWhile is_ws s = a' @ x @ b" unfolding s by blast
  have "rev x \<noteq> []" "\<not> is_ws (hd (rev x))"
    using assms(2,4) by (simp_all add: hd_rev)
  from dropWhile_keeps [of "rev x" is_ws "rev b" "rev a'"] this obtain b'
    where "dropWhile is_ws (rev b @ rev x @ rev a') = b' @ rev x @ rev a'" by blast
  then have "trim s = a' @ x @ rev b'"
    by (simp add: trim_def d)
  then show ?thesis by (auto simp: sublist_def)
qed

lemma output_keeps:
  assumes "sublist x s" and "x \<noteq> []" and "\<not> is_ws (hd x)" and "\<not> is_ws (last x)"
    and "\<not> sublist [0x0A, 0x0A, 0x0A] x"
  shows "sublist x (trim (collapse_newlines s))"
proof -
  have "hd x \<noteq> 0x0A" "last x \<noteq> 0x0A"
    using assms(3,4) by (auto simp: is_ws_def)
  from collapse_newlines_keeps [OF assms(1,2) this assms(5)] assms(2-4) show ?thesis
    by (rule trim_keeps)
qed

lemma piece_in_flat: "x \<in> set ps \<Longrightarrow> sublist (piece_text x) (flat ps)"
proof (induction ps)
  case Nil
  then show ?case by simp
next
  case (Cons y ps)
  then show ?case
    by (auto simp: sublist_append intro: sublist_order.order_trans)
qed

lemma not_sublist_single: "c \<notin> set p \<Longrightarrow> p \<noteq> [] \<Longrightarrow> \<not> sublist p [c]"
  by (cases p) (auto simp: sublist_Cons_right)

lemma join_lacks:
  assumes "c \<notin> set p" and "p \<noteq> []"
  shows "lack p ls \<Longrightarrow> \<not> sublist p (join [c] ls)"
proof (induction "[c]" ls rule: join.induct)
  case 1
  then show ?case using assms(2) by simp
next
  case (2 x)
  then show ?case by (simp add: lack_def)
next
  case (3 x y ys)
  then have rest: "\<not> sublist p (join [c] (y # ys))" and x: "\<not> sublist p x"
    by (simp_all add: lack_def)
  have b: "\<not> sublist p (c # join [c] (y # ys))"
    using sublist_append_boundary [OF not_sublist_single [OF assms] rest, of ] assms(1) by simp
  have "\<not> sublist p (x @ c # join [c] (y # ys))"
    using sublist_append_boundary [OF x b] assms(1) by simp
  then show ?case by simp
qed

lemma lines_lack_DOUBLE_BRACKET:
  "lack DOUBLE_BRACKET lines_12_20"
  "lack DOUBLE_BRACKET lines_22_23"
  "lack DOUBLE_BRACKET lines_25_59"
  "lack DOUBLE_BRACKET lines_61_73"
  "lack DOUBLE_BRACKET lines_75_83"
  "lack DOUBLE_BRACKET lines_85_93"
  "lack DOUBLE_BRACKET lines_95_121"
  "lack DOUBLE_BRACKET lines_123_124"
  "lack DOUBLE_BRACKET lines_128_144"
  "lack DOUBLE_BRACKET lines_146_163"
  "lack DOUBLE_BRACKET lines_167_168"
  "lack DOUBLE_BRACKET lines_170_171"
  "lack DOUBLE_BRACKET lines_173_174"
  "lack DOUBLE_BRACKET lines_176_177"
  "lack DOUBLE_BRACKET lines_179_180"
  "lack DOUBLE_BRACKET lines_182_191"
  "lack DOUBLE_BRACKET lines_193_194"
  by (simp_all add: lack_def DOUBLE_BRACKET_def lines_defs asc_def sublist_Cons_right)

lemma lines_lack_SECTION_WORD:
  "lack SECTION_WORD lines_12_20"
  "lack SECTION_WORD lines_22_23"
  "lack SECTION_WORD lines_25_59"
  "lack SECTION_WORD lines_61_73"
  "lack SECTION_WORD lines_75_83"
  "lack SECTION_WORD lines_85_93"
  "lack SECTION_WORD lines_95_121"
  "lack SECTION_WORD lines_123_124"
  "lack SECTION_WORD lines_128_144"
  "lack SECTION_WORD lines_146_163"
  "lack SECTION_WORD lines_167_168"
  "lack SECTION_WORD lines_170_171"
  "lack SECTION_WORD lines_173_174"
  "lack SECTION_WORD lines_176_177"
  "lack SECTION_WORD lines_179_180"
  "lack SECTION_WORD lines_182_191"
  "lack SECTION_WORD lines_193_194"
  by (simp_all add: lack_def SECTION_WORD_def lines_defs asc_def sublist_Cons_right)

lemma lines_lack_DOUBLE_DOLLAR:
  "lack DOUBLE_DOLLAR lines_12_20"
  "lack DOUBLE_DOLLAR lines_22_23"
  "lack DOUBLE_DOLLAR lines_25_59"
  "lack DOUBLE_DOLLAR lines_61_73"
  "lack DOUBLE_DOLLAR lines_75_83"
  "lack DOUBLE_DOLLAR lines_85_93"
  "lack DOUBLE_DOLLAR lines_95_121"
  "lack DOUBLE_DOLLAR lines_123_124"
  "lack DOUBLE_DOLLAR lines_128_144"
  "lack DOUBLE_DOLLAR lines_146_163"
  "lack DOUBLE_DOLLAR lines_167_168"
  "lack DOUBLE_DOLLAR lines_170_171"
  "lack DOUBLE_DOLLAR lines_173_174"
  "lack DOUBLE_DOLLAR lines_176_177"
  "lack DOUBLE_DOLLAR lines_179_180"
  "lack DOUBLE_DOLLAR lines_182_191"
  "lack DOUBLE_DOLLAR lines_193_194"
  by (simp_all add: lack_def DOUBLE_DOLLAR_def lines_defs asc_def sublist_Cons_right)

lemma lines_lack_EGOV_HEADING:
  "lack EGOV_HEADING lines_12_20"
  "lack EGOV_HEADING lines_22_23"
  "lack EGOV_HEADING lines_25_59"
  "lack EGOV_HEADING lines_61_73"
  "lack EGOV_HEADING lines_85_93"
  "lack EGOV_HEADING lines_95_121"
  "lack EGOV_HEADING lines_123_124"
  "lack EGOV_HEADING lines_128_144"
  "lack EGOV_HEADING lines_146_163"
  "lack EGOV_HEADING lines_167_168"
  "lack EGOV_HEADING lines_170_171"
  "lack EGOV_HEADING lines_173_174"
  "lack EGOV_HEADING lines_176_177"
  "lack EGOV_HEADING lines_179_180"
  "lack EGOV_HEADING lines_182_191"
  "lack EGOV_HEADING lines_193_194"
  by (simp_all add: lack_def EGOV_HEADING_def lines_defs asc_def sublist_Cons_right)

lemma lines_lack_PROOF_HEADING:
  "lack PROOF_HEADING lines_12_20"
  "lack PROOF_HEADING lines_25_59"
  "lack PROOF_HEADING lines_61_73"
  "lack PROOF_HEADING lines_75_83"
  "lack PROOF_HEADING lines_85_93"
  "lack PROOF_HEADING lines_95_121"
  "lack PROOF_HEADING lines_123_124"
  "lack PROOF_HEADING lines_128_144"
  "lack PROOF_HEADING lines_146_163"
  "lack PROOF_HEADING lines_167_168"
  "lack PROOF_HEADING lines_170_171"
  "lack PROOF_HEADING lines_173_174"
  "lack PROOF_HEADING lines_176_177"
  "lack PROOF_HEADING lines_179_180"
  "lack PROOF_HEADING lines_182_191"
  by (simp_all add: lack_def PROOF_HEADING_def lines_defs asc_def sublist_Cons_right)

lemma pattern_facts:
  "0x0A \<notin> set DOUBLE_BRACKET" "DOUBLE_BRACKET \<noteq> []"
  "0x0A \<notin> set SECTION_WORD" "SECTION_WORD \<noteq> []"
  "0x0A \<notin> set DOUBLE_DOLLAR" "DOUBLE_DOLLAR \<noteq> []"
  "0x0A \<notin> set EGOV_HEADING" "EGOV_HEADING \<noteq> []"
  "0x0A \<notin> set PROOF_HEADING" "PROOF_HEADING \<noteq> []"
  by (simp_all add: DOUBLE_BRACKET_def SECTION_WORD_def DOUBLE_DOLLAR_def EGOV_HEADING_def
      PROOF_HEADING_def asc_def)

lemma sections_lack_DOUBLE_BRACKET:
  "\<not> sublist DOUBLE_BRACKET text_12_20"
  "\<not> sublist DOUBLE_BRACKET text_22_23"
  "\<not> sublist DOUBLE_BRACKET text_25_59"
  "\<not> sublist DOUBLE_BRACKET text_61_73"
  "\<not> sublist DOUBLE_BRACKET text_75_83"
  "\<not> sublist DOUBLE_BRACKET text_85_93"
  "\<not> sublist DOUBLE_BRACKET text_95_121"
  "\<not> sublist DOUBLE_BRACKET text_123_124"
  "\<not> sublist DOUBLE_BRACKET text_128_144"
  "\<not> sublist DOUBLE_BRACKET text_146_163"
  "\<not> sublist DOUBLE_BRACKET text_167_168"
  "\<not> sublist DOUBLE_BRACKET text_170_171"
  "\<not> sublist DOUBLE_BRACKET text_173_174"
  "\<not> sublist DOUBLE_BRACKET text_176_177"
  "\<not> sublist DOUBLE_BRACKET text_179_180"
  "\<not> sublist DOUBLE_BRACKET text_182_191"
  "\<not> sublist DOUBLE_BRACKET text_193_194"
  by (simp_all add: text_defs join_lacks pattern_facts lines_lack_DOUBLE_BRACKET)

lemma fragments_lack_DOUBLE_BRACKET:
  "\<not> sublist DOUBLE_BRACKET text_122_head"
  "\<not> sublist DOUBLE_BRACKET text_122_tail"
  "\<not> sublist DOUBLE_BRACKET text_125_head"
  "\<not> sublist DOUBLE_BRACKET text_126_head"
  "\<not> sublist DOUBLE_BRACKET text_127_head"
  "\<not> sublist DOUBLE_BRACKET text_164_head"
  "\<not> sublist DOUBLE_BRACKET text_165_head"
  "\<not> sublist DOUBLE_BRACKET text_166_head"
  by (simp_all add: DOUBLE_BRACKET_def head_tail_defs asc_def sublist_Cons_right)

lemma sections_lack_SECTION_WORD:
  "\<not> sublist SECTION_WORD text_12_20"
  "\<not> sublist SECTION_WORD text_22_23"
  "\<not> sublist SECTION_WORD text_25_59"
  "\<not> sublist SECTION_WORD text_61_73"
  "\<not> sublist SECTION_WORD text_75_83"
  "\<not> sublist SECTION_WORD text_85_93"
  "\<not> sublist SECTION_WORD text_95_121"
  "\<not> sublist SECTION_WORD text_123_124"
  "\<not> sublist SECTION_WORD text_128_144"
  "\<not> sublist SECTION_WORD text_146_163"
  "\<not> sublist SECTION_WORD text_167_168"
  "\<not> sublist SECTION_WORD text_170_171"
  "\<not> sublist SECTION_WORD text_173_174"
  "\<not> sublist SECTION_WORD text_176_177"
  "\<not> sublist SECTION_WORD text_179_180"
  "\<not> sublist SECTION_WORD text_182_191"
  "\<not> sublist SECTION_WORD text_193_194"
  by (simp_all add: text_defs join_lacks pattern_facts lines_lack_SECTION_WORD)

lemma fragments_lack_SECTION_WORD:
  "\<not> sublist SECTION_WORD text_122_head"
  "\<not> sublist SECTION_WORD text_122_tail"
  "\<not> sublist SECTION_WORD text_125_head"
  "\<not> sublist SECTION_WORD text_126_head"
  "\<not> sublist SECTION_WORD text_127_head"
  "\<not> sublist SECTION_WORD text_164_head"
  "\<not> sublist SECTION_WORD text_165_head"
  "\<not> sublist SECTION_WORD text_166_head"
  by (simp_all add: SECTION_WORD_def head_tail_defs asc_def sublist_Cons_right)

lemma sections_lack_DOUBLE_DOLLAR:
  "\<not> sublist DOUBLE_DOLLAR text_12_20"
  "\<not> sublist DOUBLE_DOLLAR text_22_23"
  "\<not> sublist DOUBLE_DOLLAR text_25_59"
  "\<not> sublist DOUBLE_DOLLAR text_61_73"
  "\<not> sublist DOUBLE_DOLLAR text_75_83"
  "\<not> sublist DOUBLE_DOLLAR text_85_93"
  "\<not> sublist DOUBLE_DOLLAR text_95_121"
  "\<not> sublist DOUBLE_DOLLAR text_123_124"
  "\<not> sublist DOUBLE_DOLLAR text_128_144"
  "\<not> sublist DOUBLE_DOLLAR text_146_163"
  "\<not> sublist DOUBLE_DOLLAR text_167_168"
  "\<not> sublist DOUBLE_DOLLAR text_170_171"
  "\<not> sublist DOUBLE_DOLLAR text_173_174"
  "\<not> sublist DOUBLE_DOLLAR text_176_177"
  "\<not> sublist DOUBLE_DOLLAR text_179_180"
  "\<not> sublist DOUBLE_DOLLAR text_182_191"
  "\<not> sublist DOUBLE_DOLLAR text_193_194"
  by (simp_all add: text_defs join_lacks pattern_facts lines_lack_DOUBLE_DOLLAR)

lemma fragments_lack_DOUBLE_DOLLAR:
  "\<not> sublist DOUBLE_DOLLAR text_122_head"
  "\<not> sublist DOUBLE_DOLLAR text_122_tail"
  "\<not> sublist DOUBLE_DOLLAR text_125_head"
  "\<not> sublist DOUBLE_DOLLAR text_126_head"
  "\<not> sublist DOUBLE_DOLLAR text_127_head"
  "\<not> sublist DOUBLE_DOLLAR text_164_head"
  "\<not> sublist DOUBLE_DOLLAR text_165_head"
  "\<not> sublist DOUBLE_DOLLAR text_166_head"
  by (simp_all add: DOUBLE_DOLLAR_def head_tail_defs asc_def sublist_Cons_right)

lemma sections_lack_EGOV_HEADING:
  "\<not> sublist EGOV_HEADING text_12_20"
  "\<not> sublist EGOV_HEADING text_22_23"
  "\<not> sublist EGOV_HEADING text_25_59"
  "\<not> sublist EGOV_HEADING text_61_73"
  "\<not> sublist EGOV_HEADING text_85_93"
  "\<not> sublist EGOV_HEADING text_95_121"
  "\<not> sublist EGOV_HEADING text_123_124"
  "\<not> sublist EGOV_HEADING text_128_144"
  "\<not> sublist EGOV_HEADING text_146_163"
  "\<not> sublist EGOV_HEADING text_167_168"
  "\<not> sublist EGOV_HEADING text_170_171"
  "\<not> sublist EGOV_HEADING text_173_174"
  "\<not> sublist EGOV_HEADING text_176_177"
  "\<not> sublist EGOV_HEADING text_179_180"
  "\<not> sublist EGOV_HEADING text_182_191"
  "\<not> sublist EGOV_HEADING text_193_194"
  by (simp_all add: text_defs join_lacks pattern_facts lines_lack_EGOV_HEADING)

lemma fragments_lack_EGOV_HEADING:
  "\<not> sublist EGOV_HEADING text_122_head"
  "\<not> sublist EGOV_HEADING text_122_tail"
  "\<not> sublist EGOV_HEADING text_125_head"
  "\<not> sublist EGOV_HEADING text_126_head"
  "\<not> sublist EGOV_HEADING text_127_head"
  "\<not> sublist EGOV_HEADING text_164_head"
  "\<not> sublist EGOV_HEADING text_165_head"
  "\<not> sublist EGOV_HEADING text_166_head"
  by (simp_all add: EGOV_HEADING_def head_tail_defs asc_def sublist_Cons_right)

lemma sections_lack_PROOF_HEADING:
  "\<not> sublist PROOF_HEADING text_12_20"
  "\<not> sublist PROOF_HEADING text_25_59"
  "\<not> sublist PROOF_HEADING text_61_73"
  "\<not> sublist PROOF_HEADING text_75_83"
  "\<not> sublist PROOF_HEADING text_85_93"
  "\<not> sublist PROOF_HEADING text_95_121"
  "\<not> sublist PROOF_HEADING text_123_124"
  "\<not> sublist PROOF_HEADING text_128_144"
  "\<not> sublist PROOF_HEADING text_146_163"
  "\<not> sublist PROOF_HEADING text_167_168"
  "\<not> sublist PROOF_HEADING text_170_171"
  "\<not> sublist PROOF_HEADING text_173_174"
  "\<not> sublist PROOF_HEADING text_176_177"
  "\<not> sublist PROOF_HEADING text_179_180"
  "\<not> sublist PROOF_HEADING text_182_191"
  by (simp_all add: text_defs join_lacks pattern_facts lines_lack_PROOF_HEADING)

lemma fragments_lack_PROOF_HEADING:
  "\<not> sublist PROOF_HEADING text_122_head"
  "\<not> sublist PROOF_HEADING text_122_tail"
  "\<not> sublist PROOF_HEADING text_125_head"
  "\<not> sublist PROOF_HEADING text_126_head"
  "\<not> sublist PROOF_HEADING text_127_head"
  "\<not> sublist PROOF_HEADING text_164_head"
  "\<not> sublist PROOF_HEADING text_165_head"
  "\<not> sublist PROOF_HEADING text_166_head"
  by (simp_all add: PROOF_HEADING_def head_tail_defs asc_def sublist_Cons_right)

lemma replace_all_from_verbatim:
  "inert r \<Longrightarrow> replace_all_from p r pre s = replace_verbatim p r s"
  by (induction p r pre s rule: replace_all_from.induct) (simp_all add: getSubstitution_inert)

lemma whitespace_inert: "list_all is_ws r \<Longrightarrow> inert r"
proof (induction r rule: inert.induct)
  case (3 c d r)
  have "c \<noteq> 0x24" using "3.prems" by (auto simp: is_ws_def)
  then show ?case using 3 by simp
qed simp_all

lemma whitespace_not_sentinel: "q \<noteq> [] \<Longrightarrow> list_all is_ws q \<Longrightarrow> q \<noteq> QUERY_NOT_ENTERED"
  by (cases q) (auto simp: QUERY_NOT_ENTERED_def asc_def is_ws_def)

lemma mark_core: "sublist DOUBLE_BRACKET (mark_text m) \<or> sublist SECTION_WORD (mark_text m)"
  by (cases m) (simp_all add: mark_defs DOUBLE_BRACKET_def SECTION_WORD_def asc_def
      sublist_Cons_right)

lemma lacks_mark:
  assumes "\<not> sublist DOUBLE_BRACKET s" and "\<not> sublist SECTION_WORD s"
  shows "\<not> sublist (mark_text m) s"
proof
  assume m: "sublist (mark_text m) s"
  from mark_core [of m] show False
  proof
    assume "sublist DOUBLE_BRACKET (mark_text m)"
    from sublist_order.order_trans [OF this m] assms(1) show False by simp
  next
    assume "sublist SECTION_WORD (mark_text m)"
    from sublist_order.order_trans [OF this m] assms(2) show False by simp
  qed
qed

lemma template_lacks_marks:
  "\<not> sublist (mark_text m) text_12_20" "\<not> sublist (mark_text m) text_22_23"
  "\<not> sublist (mark_text m) text_25_59" "\<not> sublist (mark_text m) text_61_73"
  "\<not> sublist (mark_text m) text_75_83" "\<not> sublist (mark_text m) text_85_93"
  "\<not> sublist (mark_text m) text_95_121" "\<not> sublist (mark_text m) text_122_head"
  "\<not> sublist (mark_text m) text_122_tail" "\<not> sublist (mark_text m) text_123_124"
  "\<not> sublist (mark_text m) text_125_head" "\<not> sublist (mark_text m) text_126_head"
  "\<not> sublist (mark_text m) text_127_head" "\<not> sublist (mark_text m) text_128_144"
  "\<not> sublist (mark_text m) text_146_163" "\<not> sublist (mark_text m) text_164_head"
  "\<not> sublist (mark_text m) text_165_head" "\<not> sublist (mark_text m) text_166_head"
  "\<not> sublist (mark_text m) text_167_168" "\<not> sublist (mark_text m) text_170_171"
  "\<not> sublist (mark_text m) text_173_174" "\<not> sublist (mark_text m) text_176_177"
  "\<not> sublist (mark_text m) text_179_180" "\<not> sublist (mark_text m) text_182_191"
  "\<not> sublist (mark_text m) text_193_194"
  by (rule lacks_mark; simp add: sections_lack_DOUBLE_BRACKET fragments_lack_DOUBLE_BRACKET
      sections_lack_SECTION_WORD fragments_lack_SECTION_WORD)+

lemma set_sublist: "sublist p s \<Longrightarrow> set p \<subseteq> set s"
  by (auto simp: sublist_def)

lemma all_boundary_lacks: "\<forall>c\<in>set s. boundary c \<Longrightarrow> \<not> sublist (mark_text m) s"
proof
  assume b: "\<forall>c\<in>set s. boundary c" and s: "sublist (mark_text m) s"
  from mark_text_not_Nil [of m] have "hd (mark_text m) \<in> set (mark_text m)" by simp
  with set_sublist [OF s] b have "boundary (hd (mark_text m))" by blast
  from boundary_not_in_mark [OF this, of m] mark_text_not_Nil [of m] show False by simp
qed

lemma lacks_Cons: "c \<notin> set p \<Longrightarrow> p \<noteq> [] \<Longrightarrow> \<not> sublist p s \<Longrightarrow> \<not> sublist p (c # s)"
  by (simp add: sublist_Cons_right no_match_sep)

lemma lacks_join:
  "c \<notin> set p \<Longrightarrow> p \<noteq> [] \<Longrightarrow> \<forall>x\<in>set xs. \<not> sublist p x \<Longrightarrow> \<not> sublist p (join [c] xs)"
  by (rule join_lacks) (simp_all add: lack_def list_all_iff)

lemma lacks_formatList:
  assumes "value_pattern p" and "\<forall>x\<in>set xs. \<not> sublist p x"
  shows "\<not> sublist p (formatList xs bullet)"
proof (cases "xs = []")
  case True
  with assms(1) show ?thesis
    by (simp add: formatList_def bullet_def value_pattern_def lacks_Cons NONE_ITEM_def)
next
  case False
  from assms have "\<forall>x\<in>set (map (\<lambda>item. bullet @ item) xs). \<not> sublist p x"
    by (simp add: bullet_def value_pattern_def lacks_Cons)
  from lacks_join [OF _ _ this, of "0x0A"] assms(1) False show ?thesis
    by (simp add: formatList_def value_pattern_def)
qed

lemma step_value_lacks:
  assumes "value_pattern p" and "\<forall>v\<in>set (rendered_texts config). \<not> sublist p v"
  shows "\<not> sublist p (step_value m config)"
proof -
  from assms(1) have p: "p \<noteq> []" "0x3001 \<notin> set p" "\<not> sublist p QUERY_NOT_ENTERED"
    "\<not> sublist p SCOPE_NOT_SPECIFIED" "\<not> sublist p MUST_KEYWORD"
    by (simp_all add: value_pattern_def)
  from assms(2) have v: "\<not> sublist p (dateToday config)" "\<not> sublist p (query config)"
    "\<forall>x\<in>set (scope config). \<not> sublist p x" "\<forall>x\<in>set (audiences config). \<not> sublist p x"
    "\<forall>x\<in>set (priorityDomains config). \<not> sublist p x"
    "\<forall>x\<in>set (optionalKeywords config). \<not> sublist p x"
    "\<forall>x\<in>set (filter non_blank (excludeKeywords config)). \<not> sublist p x"
    "\<forall>x\<in>set (enabledCategories config). \<not> sublist p x"
    by (simp_all add: rendered_texts_def)
  show ?thesis
  proof (cases m)
    case SCOPE
    from lacks_join [OF p(2) p(1) v(3)] p(4) show ?thesis
      by (simp add: SCOPE or_else_def SCOPE_SEPARATOR_def)
  qed (simp_all add: p v or_else_def lacks_formatList [OF assms(1)])
qed

lemma value_pattern_mark: "value_pattern (mark_text m)"
  unfolding value_pattern_def
  by (simp add: mark_text_not_Nil boundary_not_in_mark all_boundary_lacks boundary_def
      NONE_ITEM_def QUERY_NOT_ENTERED_def SCOPE_NOT_SPECIFIED_def MUST_KEYWORD_def asc_def)

lemma value_pattern_simps:
  "value_pattern EGOV_HEADING" "value_pattern PROOF_HEADING" "value_pattern DOUBLE_DOLLAR"
  by (simp_all add: value_pattern_def EGOV_HEADING_def PROOF_HEADING_def DOUBLE_DOLLAR_def
      NONE_ITEM_def QUERY_NOT_ENTERED_def SCOPE_NOT_SPECIFIED_def MUST_KEYWORD_def asc_def
      sublist_Cons_right)

lemma inert_join:
  "\<forall>x\<in>set xs. inert x \<Longrightarrow> \<not> special c \<Longrightarrow> c \<noteq> 0x24 \<Longrightarrow> inert (join [c] xs)"
proof (induction xs rule: induct_list012)
  case (3 x y ys)
  then have "inert (c # join [c] (y # ys))" by (simp add: inert_Cons)
  with 3 inert_append [of x "c # join [c] (y # ys)"] show ?case by simp
qed simp_all

lemma inert_formatList: "\<forall>x\<in>set xs. inert x \<Longrightarrow> inert (formatList xs bullet)"
proof (cases "xs = []")
  case True
  then show ?thesis by (simp add: formatList_def bullet_def asc_def)
next
  case False
  assume "\<forall>x\<in>set xs. inert x"
  then have "\<forall>x\<in>set (map (\<lambda>item. bullet @ item) xs). inert x"
    by (simp add: bullet_def inert_Cons)
  from inert_join [OF this, of "0x0A"] False show ?thesis
    by (simp add: formatList_def special_def)
qed

lemma step_value_inert:
  assumes "\<forall>v\<in>set (rendered_texts config). inert v"
  shows "inert (step_value m config)"
proof -
  from assms have v: "inert (dateToday config)" "inert (query config)"
    "\<forall>x\<in>set (scope config). inert x" "\<forall>x\<in>set (audiences config). inert x"
    "\<forall>x\<in>set (priorityDomains config). inert x"
    "\<forall>x\<in>set (optionalKeywords config). inert x"
    "\<forall>x\<in>set (filter non_blank (excludeKeywords config)). inert x"
    "\<forall>x\<in>set (enabledCategories config). inert x"
    by (simp_all add: rendered_texts_def)
  have m: "inert MUST_KEYWORD" "inert QUERY_NOT_ENTERED" "inert SCOPE_NOT_SPECIFIED"
    by (simp_all add: MUST_KEYWORD_def QUERY_NOT_ENTERED_def SCOPE_NOT_SPECIFIED_def asc_def)
  show ?thesis
  proof (cases m)
    case SCOPE
    from inert_join [OF v(3), of "0x3001"] m show ?thesis
      by (simp add: SCOPE or_else_def SCOPE_SEPARATOR_def special_def)
  qed (simp_all add: v m or_else_def inert_formatList)
qed

lemma sublist_marks [simp]: "sublist (mark_text m) (mark_text m') \<longleftrightarrow> m = m'"
  using marks_distinct [of m m'] by auto

lemma sub_all_keeps: "P (Text s) \<Longrightarrow> list_all P ps \<Longrightarrow> list_all P (sub_all m s ps)"
  by (induction ps) (simp_all add: sub_all_def)

lemma sub_first_keeps: "P (Text s) \<Longrightarrow> list_all P ps \<Longrightarrow> list_all P (sub_first m s ps)"
  by (induction ps) simp_all

lemma sub_all_spaced: "spaced ps \<Longrightarrow> spaced (sub_all m s ps)"
  by (induction ps rule: spaced.induct) (auto simp: sub_all_def)

lemma sub_first_spaced: "spaced ps \<Longrightarrow> spaced (sub_first m s ps)"
  by (induction ps rule: spaced.induct) auto

lemma step_pieces_keeps:
  "P (Text (inserted (fst st) config)) \<Longrightarrow> list_all P ps \<Longrightarrow> list_all P (step_pieces st config ps)"
  by (simp add: step_pieces_def sub_all_keeps sub_first_keeps)

lemma step_pieces_spaced: "spaced ps \<Longrightarrow> spaced (step_pieces st config ps)"
  by (simp add: step_pieces_def sub_all_spaced sub_first_spaced)

lemma steps_ok_intro:
  "values_ok sts config \<Longrightarrow> list_all sep_boundary ps \<Longrightarrow> spaced ps \<Longrightarrow>
   \<forall>st\<in>set sts. list_all (clear (fst st)) ps \<Longrightarrow> steps_ok sts config ps"
proof (induction sts arbitrary: ps)
  case Nil
  then show ?case by simp
next
  case (Cons st sts)
  from Cons.prems(1) have v: "position_free (step_value (fst st) config)"
    "\<forall>st'\<in>set sts. \<not> sublist (mark_text (fst st')) (inserted (fst st) config)"
    "values_ok sts config"
    by (simp_all add: list_all_iff)
  have "\<forall>st'\<in>set sts. list_all (clear (fst st')) (step_pieces st config ps)"
  proof
    fix st' assume s: "st' \<in> set sts"
    with v(2) have "clear (fst st') (Text (inserted (fst st) config))" by (simp add: clear_def)
    moreover from s Cons.prems(4) have "list_all (clear (fst st')) ps" by simp
    ultimately show "list_all (clear (fst st')) (step_pieces st config ps)"
      by (rule step_pieces_keeps)
  qed
  moreover have "list_all sep_boundary (step_pieces st config ps)"
    using Cons.prems(2) by (simp add: step_pieces_keeps)
  ultimately have "steps_ok sts config (step_pieces st config ps)"
    using Cons.IH [OF v(3)] step_pieces_spaced [OF Cons.prems(3)] by blast
  with v(1) Cons.prems show ?case by (simp add: ready_def)
qed

lemma clear_simps:
  "clear m (Mark m')" "clear m (Text t) \<longleftrightarrow> \<not> sublist (mark_text m) t"
  "clear m (Sep c) \<longleftrightarrow> c \<notin> set (mark_text m)"
  by (auto simp: clear_def)

lemma template_ready:
  "list_all sep_boundary TEMPLATE_PIECES" "spaced TEMPLATE_PIECES"
  "list_all (clear m) TEMPLATE_PIECES"
  by (simp_all add: TEMPLATE_PIECES_def boundary_def clear_simps template_lacks_marks
      boundary_not_in_mark del: mark_text.simps)

lemma token_pieces_fill: "token_pieces config = map (fill config) TEMPLATE_PIECES"
  by (simp add: token_pieces_def STEPS_def TEMPLATE_PIECES_def step_pieces_def sub_all_def
      TOKENS_def)

lemma prompt_pieces_shape:
  "list_all (final_piece config) (prompt_pieces config) \<and> spaced (prompt_pieces config)
   \<and> list_all (\<lambda>m. Text (inserted m config) \<in> set (prompt_pieces config)) TOKENS
   \<and> (eGovCrossReference config \<longrightarrow> Text text_75_83 \<in> set (prompt_pieces config))
   \<and> (proofMode config \<longrightarrow> Text text_22_23 \<in> set (prompt_pieces config)
         \<and> Text text_193_194 \<in> set (prompt_pieces config))"
  by (cases "eGovCrossReference config"; cases "proofMode config")
    (simp_all add: prompt_pieces_def egov_pieces_def proof_pieces_def token_pieces_fill
      TEMPLATE_PIECES_def TOKENS_def kept_texts_def OUTER_TEXTS_def template_sep_def)

lemma admissible_intro:
  assumes "values_ok STEPS config"
    and "\<forall>m\<in>set TOKENS.
           \<not> sublist (mark_text EGOV_BEGIN) (inserted m config)
           \<and> \<not> sublist (mark_text PROOF_BEGIN) (inserted m config)
           \<and> (eGovCrossReference config \<longrightarrow> \<not> sublist (mark_text EGOV_END) (inserted m config))
           \<and> (proofMode config \<longrightarrow> \<not> sublist (mark_text PROOF_END) (inserted m config))"
  shows "admissible config"
proof -
  have steps: "steps_ok STEPS config TEMPLATE_PIECES"
    by (rule steps_ok_intro [OF assms(1) template_ready(1,2)]) (simp add: template_ready(3))
  have egov: "block_ok (eGovCrossReference config) EGOV_BEGIN EGOV_END (token_pieces config)"
    using assms(2)
    by (cases "eGovCrossReference config")
      (simp_all add: block_ok_def ready_def token_pieces_fill TEMPLATE_PIECES_def TOKENS_def
        clear_simps template_lacks_marks boundary_def boundary_not_in_mark free_of_mark_Mark
        del: mark_text.simps)
  have pblock: "block_ok (proofMode config) PROOF_BEGIN PROOF_END
      (egov_pieces config (token_pieces config))"
    using assms(2)
    by (cases "eGovCrossReference config"; cases "proofMode config")
      (simp_all add: block_ok_def ready_def egov_pieces_def token_pieces_fill TEMPLATE_PIECES_def
        TOKENS_def clear_simps template_lacks_marks boundary_def boundary_not_in_mark
        free_of_mark_Mark del: mark_text.simps)
  from steps egov pblock show ?thesis by (simp add: admissible_def)
qed

lemma plain_lacks: "plain v \<Longrightarrow> \<not> sublist (mark_text m) v"
  by (cases m) (simp_all add: plain_def TOKENS_def MARKERS_def)

lemma values_ok_intro:
  "\<forall>m. position_free (step_value m config) \<Longrightarrow>
   \<forall>m m'. \<not> sublist (mark_text m') (inserted m config) \<Longrightarrow> values_ok sts config"
  by (induction sts) (simp_all add: list_all_iff)

lemma plain_values:
  assumes "list_all plain (rendered_texts config)"
  shows "inert (step_value m config)" and "inserted m config = step_value m config"
    and "\<not> sublist (mark_text m') (inserted m config)"
proof -
  from assms have "\<forall>v\<in>set (rendered_texts config). inert v"
    by (simp add: list_all_iff plain_def)
  then show i: "inert (step_value m config)" by (rule step_value_inert)
  then show s: "inserted m config = step_value m config"
    by (simp add: inserted_def getSubstitution_inert)
  from assms have "\<forall>v\<in>set (rendered_texts config). \<not> sublist (mark_text m') v"
    by (simp add: list_all_iff plain_lacks)
  from step_value_lacks [OF value_pattern_mark this] s
  show "\<not> sublist (mark_text m') (inserted m config)" by simp
qed

lemma plain_admissible:
  assumes "list_all plain (rendered_texts config)"
  shows "admissible config"
proof (rule admissible_intro)
  show "values_ok STEPS config"
  proof (rule values_ok_intro)
    show "\<forall>m. position_free (step_value m config)"
      using plain_values(1) [OF assms] inert_position_free by blast
    show "\<forall>m m'. \<not> sublist (mark_text m') (inserted m config)"
      using plain_values(3) [OF assms] by blast
  qed
  show "\<forall>m\<in>set TOKENS.
           \<not> sublist (mark_text EGOV_BEGIN) (inserted m config)
           \<and> \<not> sublist (mark_text PROOF_BEGIN) (inserted m config)
           \<and> (eGovCrossReference config \<longrightarrow> \<not> sublist (mark_text EGOV_END) (inserted m config))
           \<and> (proofMode config \<longrightarrow> \<not> sublist (mark_text PROOF_END) (inserted m config))"
    using plain_values(3) [OF assms] by blast
qed

lemma prompt_lacks:
  assumes "admissible config" and "p \<noteq> []" and "\<forall>c. template_sep c \<longrightarrow> c \<notin> set p"
    and "\<forall>t\<in>set (kept_texts config). \<not> sublist p t"
    and "\<forall>m\<in>set TOKENS. \<not> sublist p (inserted m config)"
  shows "\<not> sublist p (generatePrompt config)"
proof -
  have "\<forall>x\<in>set (prompt_pieces config). free_of p x"
  proof
    fix x assume "x \<in> set (prompt_pieces config)"
    with prompt_pieces_shape [of config] have f: "final_piece config x"
      by (simp add: list_all_iff)
    show "free_of p x"
    proof (cases x)
      case (Text t)
      with f assms(4,5) show ?thesis by auto
    next
      case (Sep c)
      with f assms(3) show ?thesis by simp
    next
      case (Mark m)
      with f show ?thesis by simp
    qed
  qed
  from flat_free [OF this] prompt_pieces_shape [of config] assms(2)
  have "\<not> sublist p (flat (prompt_pieces config))" by simp
  moreover from assms(3) have "0x0A \<notin> set p" by (simp add: template_sep_def)
  ultimately show ?thesis
    unfolding generatePrompt_pieces [OF assms(1)] using assms(2) by (simp add: output_lacks)
qed

lemma prompt_keeps:
  assumes "admissible config" and "Text t \<in> set (prompt_pieces config)" and "sublist x t"
    and "x \<noteq> []" and "\<not> is_ws (hd x)" and "\<not> is_ws (last x)"
    and "\<not> sublist [0x0A, 0x0A, 0x0A] x"
  shows "sublist x (generatePrompt config)"
proof -
  from piece_in_flat [OF assms(2)] have "sublist t (flat (prompt_pieces config))" by simp
  from sublist_order.order_trans [OF assms(3) this] assms(4-7) show ?thesis
    unfolding generatePrompt_pieces [OF assms(1)] by (rule output_keeps)
qed

lemma mark_no_sep: "template_sep c \<Longrightarrow> c \<notin> set (mark_text m)"
  by (rule boundary_not_in_mark) (auto simp: template_sep_def boundary_def)

lemma kept_lack_marks: "t \<in> set (kept_texts config) \<Longrightarrow> \<not> sublist (mark_text m) t"
  by (auto simp: kept_texts_def OUTER_TEXTS_def template_lacks_marks split: if_splits
      simp del: mark_text.simps)

lemma plain_prompt_lacks_mark:
  assumes "list_all plain (rendered_texts config)"
  shows "\<not> sublist (mark_text m) (generatePrompt config)"
  by (rule prompt_lacks [OF plain_admissible [OF assms] mark_text_not_Nil])
    (simp_all add: mark_no_sep kept_lack_marks plain_values(3) [OF assms] del: mark_text.simps)

lemmas value_defs = example_config_def STEPS_def TOKENS_def inserted_def formatList_def
  optionalKeywords_def enabledCategories_def or_else_def bullet_def non_blank_def trim_def
  is_ws_def mark_defs asc_def MUST_KEYWORD_def QUERY_NOT_ENTERED_def SCOPE_NOT_SPECIFIED_def
  SCOPE_SEPARATOR_def

lemma marker_query_admissible: "admissible marker_query_config"
  by (rule admissible_intro) (simp_all add: marker_query_config_def value_defs sublist_Cons_right)

lemma token_category_admissible: "admissible token_category_config"
  by (rule admissible_intro) (simp_all add: token_category_config_def value_defs sublist_Cons_right)

lemma dollar_keyword_admissible: "admissible dollar_keyword_config"
  by (rule admissible_intro) (simp_all add: dollar_keyword_config_def value_defs sublist_Cons_right)

lemma block_contents:
  "text_75_83 \<noteq> []" "\<not> is_ws (hd text_75_83)" "\<not> is_ws (last text_75_83)"
  "\<not> sublist [0x0A, 0x0A, 0x0A] text_75_83" "sublist EGOV_HEADING text_75_83"
  "text_22_23 \<noteq> []" "\<not> is_ws (hd text_22_23)" "\<not> is_ws (last text_22_23)"
  "\<not> sublist [0x0A, 0x0A, 0x0A] text_22_23" "sublist PROOF_HEADING text_22_23"
  "text_193_194 \<noteq> []" "\<not> is_ws (hd text_193_194)" "\<not> is_ws (last text_193_194)"
  "\<not> sublist [0x0A, 0x0A, 0x0A] text_193_194" "sublist PROOF_HEADING text_193_194"
  by (simp_all add: text_defs lines_defs asc_def is_ws_def sublist_Cons_right EGOV_HEADING_def
      PROOF_HEADING_def)

lemma value_in_prompt: "m \<in> set TOKENS \<Longrightarrow> Text (inserted m config) \<in> set (prompt_pieces config)"
  using prompt_pieces_shape [of config] by (simp add: list_all_iff)

lemma heading_no_sep:
  "\<forall>c. template_sep c \<longrightarrow> c \<notin> set EGOV_HEADING"
  "\<forall>c. template_sep c \<longrightarrow> c \<notin> set PROOF_HEADING"
  "\<forall>c. template_sep c \<longrightarrow> c \<notin> set DOUBLE_DOLLAR"
  by (auto simp: template_sep_def EGOV_HEADING_def PROOF_HEADING_def DOUBLE_DOLLAR_def asc_def)

lemma outer_lack_headings:
  "\<forall>t\<in>set OUTER_TEXTS. \<not> sublist EGOV_HEADING t"
  "\<forall>t\<in>set OUTER_TEXTS. \<not> sublist PROOF_HEADING t"
  "\<forall>t\<in>set OUTER_TEXTS. \<not> sublist DOUBLE_DOLLAR t"
  by (simp_all add: OUTER_TEXTS_def sections_lack_EGOV_HEADING fragments_lack_EGOV_HEADING
      sections_lack_PROOF_HEADING fragments_lack_PROOF_HEADING
      sections_lack_DOUBLE_DOLLAR fragments_lack_DOUBLE_DOLLAR)

lemma kept_lack_headings:
  "\<not> eGovCrossReference config \<Longrightarrow> \<forall>t\<in>set (kept_texts config). \<not> sublist EGOV_HEADING t"
  "\<not> proofMode config \<Longrightarrow> \<forall>t\<in>set (kept_texts config). \<not> sublist PROOF_HEADING t"
  "\<forall>t\<in>set (kept_texts config). \<not> sublist DOUBLE_DOLLAR t"
  using outer_lack_headings
  by (auto simp: kept_texts_def sections_lack_EGOV_HEADING sections_lack_PROOF_HEADING
      sections_lack_DOUBLE_DOLLAR split: if_splits)

lemma plain_prompt_lacks_heading:
  assumes "list_all plain (rendered_texts config)"
    and "list_all (\<lambda>v. \<not> sublist p v) (rendered_texts config)"
    and "value_pattern p" and "\<forall>c. template_sep c \<longrightarrow> c \<notin> set p"
    and "\<forall>t\<in>set (kept_texts config). \<not> sublist p t"
  shows "\<not> sublist p (generatePrompt config)"
proof (rule prompt_lacks [OF plain_admissible [OF assms(1)] _ assms(4,5)])
  from assms(3) show "p \<noteq> []" by (simp add: value_pattern_def)
  from assms(2) have "\<forall>v\<in>set (rendered_texts config). \<not> sublist p v"
    by (simp add: list_all_iff)
  from step_value_lacks [OF assms(3) this]
  show "\<forall>m\<in>set TOKENS. \<not> sublist p (inserted m config)"
    by (simp add: plain_values(2) [OF assms(1)])
qed

lemma base64_char_text: "base64_text (base64_char i)"
  by (auto simp: base64_text_def base64_char_def is_alnum_def)

lemma base64_encode_text: "\<forall>c\<in>set (base64_encode bs). base64_text c"
  by (induction bs rule: base64_encode.induct) (simp_all add: base64_char_text, simp_all add: base64_text_def)

lemma base64_encode_length: "length (base64_encode bs) mod 4 = 0"
  by (induction bs rule: base64_encode.induct) simp_all

lemma hex_digit_upper_ascii: "d < 16 \<Longrightarrow> hex_digit_upper d \<le> 0xFF"
  by (simp add: hex_digit_upper_def)

lemma percent_encode_ascii: "\<forall>c\<in>set (percent_encode cp). c \<le> 0xFF"
  by (auto simp: percent_encode_def percent_byte_def hex_digit_upper_def)

lemma encodeURIComponent_ascii:
  "encodeURIComponent s = Inr t \<Longrightarrow> \<forall>c\<in>set t. c \<le> 0xFF"
proof (induction s arbitrary: t rule: encodeURIComponent.induct)
  case 1
  then show ?case by simp
next
  case (2 c s)
  have u: "uri_unreserved c \<Longrightarrow> c \<le> 0xFF"
    by (auto simp: uri_unreserved_def is_alnum_def)
  from 2 u percent_encode_ascii show ?case
    by (auto simp: prepend_def split: if_splits sum.splits list.splits)
qed

lemma btoa_component: "encodeURIComponent s = Inr t \<Longrightarrow> btoa t = Inr (base64_encode t)"
  using encodeURIComponent_ascii [of s t] by (auto simp: btoa_def)

lemma form_decode_plain:
  "0x25 \<notin> set s \<Longrightarrow> form_decode s = map (\<lambda>c. if c = 0x2B then 0x20 else c) s"
  by (induction s) simp_all

lemma filter_plus:
  "\<forall>c\<in>set p. \<not> ascii_whitespace c \<Longrightarrow>
   filter (\<lambda>c. \<not> ascii_whitespace c) (map (\<lambda>c. if c = 0x2B then 0x20 else c) p)
     = filter (\<lambda>c. c \<noteq> 0x2B) p"
  by (induction p) (simp_all add: ascii_whitespace_def)

lemma atob_plus:
  assumes alpha: "\<forall>c\<in>set p. base64_text c"
    and plus: "length (filter (\<lambda>c. c = 0x2B) p) mod 4 \<noteq> 0"
    and pad: "0x3D \<in> set p"
    and len: "length p mod 4 = 0"
  shows "atob (form_decode p) = Inl InvalidCharacterError"
proof -
  let ?d = "filter (\<lambda>c. c \<noteq> 0x2B) p"
  from alpha have "0x25 \<notin> set p" and ws: "\<forall>c\<in>set p. \<not> ascii_whitespace c"
    by (auto simp: base64_text_def is_alnum_def ascii_whitespace_def)
  then have d: "filter (\<lambda>c. \<not> ascii_whitespace c) (form_decode p) = ?d"
    by (simp add: form_decode_plain filter_plus)
  have "length (filter (\<lambda>c. c = 0x2B) p) + length ?d = length p"
    by (rule sum_length_filter_compl)
  with plus len have "length ?d mod 4 \<noteq> 0" by presburger
  then have s: "strip_padding ?d = ?d" by (simp add: strip_padding_def)
  from pad have "0x3D \<in> set ?d" by simp
  moreover have "base64_value 0x3D = None" by (simp add: base64_value_def)
  ultimately have "\<exists>c\<in>set ?d. base64_value c = None" by blast
  then show ?thesis by (simp add: atob_def Let_def d s)
qed

lemma split_on_none: "sep \<notin> set s \<Longrightarrow> split_on sep s = [s]"
  by (induction s) simp_all

lemma url_input_id:
  assumes "s \<noteq> []" and "\<not> c0_or_space (hd s)" and "\<not> c0_or_space (last s)"
    and "\<forall>c\<in>set s. \<not> tab_or_newline c"
  shows "url_input s = s"
proof -
  from assms(1,2) have a: "dropWhile c0_or_space s = s" by (cases s) simp_all
  from assms(1,3) have "dropWhile c0_or_space (rev s) = rev s"
    by (cases "rev s") (simp_all add: last_rev [symmetric] hd_rev)
  with a assms(4) show ?thesis by (simp add: url_input_def)
qed

lemma link_param:
  assumes alpha: "\<forall>c\<in>set p. base64_text c" and "p \<noteq> []"
    and base: "base \<noteq> []" "\<not> c0_or_space (hd base)"
      "\<forall>c\<in>set base. \<not> tab_or_newline c \<and> c \<noteq> 0x3F \<and> c \<noteq> 0x23"
    and "parses (base @ asc ''?c='' @ p)"
  shows "searchParams_get parses (base @ asc ''?c='' @ p) (asc ''c'') = Inr (Some (form_decode p))"
proof -
  let ?url = "base @ asc ''?c='' @ p"
  from alpha have p: "\<forall>c\<in>set p. \<not> tab_or_newline c \<and> c \<noteq> 0x23 \<and> c \<noteq> 0x26 \<and> \<not> c0_or_space c"
    by (auto simp: base64_text_def is_alnum_def tab_or_newline_def c0_or_space_def)
  from assms(2) p have l: "\<not> c0_or_space (last ?url)" by simp
  from base(1,2) have h: "\<not> c0_or_space (hd ?url)" by simp
  from base(3) p have n: "\<forall>c\<in>set ?url. \<not> tab_or_newline c"
    by (auto simp: asc_def tab_or_newline_def)
  have "?url \<noteq> []" by (simp add: asc_def)
  from url_input_id [OF this h l n] have i: "url_input ?url = ?url" .
  from base(3) p have "\<forall>c\<in>set ?url. c \<noteq> 0x23" by (auto simp: asc_def)
  then have t: "takeWhile (\<lambda>c. c \<noteq> 0x23) ?url = ?url" by (simp add: takeWhile_eq_all_conv)
  from base(3) have d: "dropWhile (\<lambda>c. c \<noteq> 0x3F) ?url = asc ''?c='' @ p"
    by (simp add: dropWhile_append2 asc_def)
  have q: "url_query ?url = asc ''c='' @ p"
    unfolding url_query_def t d by (simp add: asc_def)
  from p have "0x26 \<notin> set (asc ''c='' @ p)" by (auto simp: asc_def)
  then have "search_params (asc ''c='' @ p) = [(asc ''c'', form_decode p)]"
    by (simp add: search_params_def split_on_none parse_pair_def) (simp add: asc_def)
  with assms(6) i q show ?thesis by (simp add: searchParams_get_def)
qed

lemma filter_within: "filter P (filter (\<lambda>c. P c \<or> Q c) xs) = filter P xs"
  by (induction xs) auto

lemma tilde_payload:
  "\<exists>component. encodeURIComponent (JSON_stringify (config_value tilde_config)) = Inr component
     \<and> filter (\<lambda>c. c = 0x2B \<or> c = 0x3D) (base64_encode component) = [0x2B, 0x3D, 0x3D]"
  by (simp add: tilde_config_def config_value_def JSON_stringify_def quoteJSONString_def
      is_lead_surrogate_def is_trail_surrogate_def asc_def uri_unreserved_def is_alnum_def
      percent_encode_def utf8_encode_def percent_byte_def hex_digit_upper_def prepend_def
      base64_char_def)
section \<open>Properties of the search queries\<close>

text \<open>
  Claim C2: for every configuration, \<open>generateSearchQueries\<close> returns at most ten
  entries, and its first entry (which always exists) contains the mandatory keyword.
\<close>

theorem generateSearchQueries_bounded:
  "length (generateSearchQueries config) \<le> 10
   \<and> generateSearchQueries config \<noteq> []
   \<and> sublist MUST_KEYWORD (hd (generateSearchQueries config))"
proof -
  have "length (generateSearchQueries config) \<le> 10"
    unfolding generateSearchQueries_shape by (rule le_trans [OF eq_imp_le [OF length_take]]) simp
  moreover have "generateSearchQueries config \<noteq> []"
    unfolding generateSearchQueries_shape by (rule take_Cons_nonempty) simp
  moreover have "sublist MUST_KEYWORD (hd (generateSearchQueries config))"
    unfolding generateSearchQueries_shape by (simp add: hd_take_Cons)
  ultimately show ?thesis by simp
qed

section \<open>Properties of the generated prompt\<close>

text \<open>
  Claim C7: for every configuration, the output of \<open>generatePrompt\<close> contains no run of
  three line feeds, and it neither starts nor ends with white space: the run of white
  space at its start and the run at its end are both empty. The output is what is left
  when white space is taken away at both ends of the text with its line feeds
  collapsed; and collapsing replaces every maximal run of three or more line feeds by
  exactly two and changes nothing else.
\<close>

theorem generatePrompt_blank_lines_and_trim:
  "\<not> sublist [0x0A, 0x0A, 0x0A] (generatePrompt config)
   \<and> takeWhile is_ws (generatePrompt config) = []
   \<and> takeWhile is_ws (rev (generatePrompt config)) = []
   \<and> (\<exists>leading trailing.
         collapse_newlines
           (handle_proof config (handle_egov config (substitute_tokens config BASE_TEMPLATE)))
           = leading @ generatePrompt config @ trailing
         \<and> list_all is_ws leading \<and> list_all is_ws trailing)
   \<and> (\<forall>a n b. 3 \<le> n \<longrightarrow> (a = [] \<or> last a \<noteq> 0x0A) \<longrightarrow> (b = [] \<or> hd b \<noteq> 0x0A) \<longrightarrow>
          collapse_newlines (a @ replicate n 0x0A @ b)
            = collapse_newlines a @ [0x0A, 0x0A] @ collapse_newlines b)
   \<and> (\<forall>s. \<not> sublist [0x0A, 0x0A, 0x0A] s \<longrightarrow> collapse_newlines s = s)"
proof -
  let ?p = "collapse_newlines
       (handle_proof config (handle_egov config (substitute_tokens config BASE_TEMPLATE)))"
  have "sublist [0x0A, 0x0A, 0x0A] (trim ?p) \<Longrightarrow> sublist [0x0A, 0x0A, 0x0A] ?p"
    by (rule sublist_order.order_trans [OF _ sublist_trim])
  then have "\<not> sublist [0x0A, 0x0A, 0x0A] (trim ?p)"
    using collapse_newlines_no_run by blast
  moreover have "\<exists>leading trailing. ?p = leading @ trim ?p @ trailing
      \<and> list_all is_ws leading \<and> list_all is_ws trailing"
    by (rule trim_decomposition)
  ultimately show ?thesis
    unfolding generatePrompt_def
    using trim_no_leading trim_no_trailing collapse_newlines_exactly_two collapse_newlines_id
    by blast
qed

theorem generatePrompt_blank_lines_and_trim_witness:
  "(3::nat) \<le> 4 \<and> \<not> sublist [0x0A, 0x0A, 0x0A] [0x61, 0x0A, 0x0A, 0x62 :: jschar]
   \<and> collapse_newlines ([0x61] @ replicate 4 0x0A @ [0x62])
       = collapse_newlines [0x61] @ [0x0A, 0x0A] @ collapse_newlines [0x62]
   \<and> collapse_newlines [0x61, 0x0A, 0x0A, 0x62] = [0x61, 0x0A, 0x0A, 0x62]"
proof -
  have run: "\<forall>a n b. 3 \<le> n \<longrightarrow> (a = [] \<or> last a \<noteq> 0x0A) \<longrightarrow> (b = [] \<or> hd b \<noteq> 0x0A) \<longrightarrow>
          collapse_newlines (a @ replicate n 0x0A @ b)
            = collapse_newlines a @ [0x0A, 0x0A] @ collapse_newlines b"
    and same: "\<forall>s. \<not> sublist [0x0A, 0x0A, 0x0A] s \<longrightarrow> collapse_newlines s = s"
    using generatePrompt_blank_lines_and_trim [of example_config] by blast+
  have n: "(3::nat) \<le> 4" by simp
  have a: "[0x61 :: jschar] = [] \<or> last [0x61 :: jschar] \<noteq> 0x0A" by simp
  have b: "[0x62 :: jschar] = [] \<or> hd [0x62 :: jschar] \<noteq> 0x0A" by simp
  have s: "\<not> sublist [0x0A, 0x0A, 0x0A] [0x61, 0x0A, 0x0A, 0x62 :: jschar]"
    by (simp add: sublist_Cons_right)
  from run [rule_format, OF n a b] same [rule_format, OF s] n s show ?thesis
    by blast
qed

section \<open>Properties of the configuration codec\<close>

text \<open>
  Claim C8: \<open>parseConfigJSON\<close> is a total function (it never raises). It returns \<open>null\<close>
  exactly when the text is malformed JSON, or the parsed value is no object, or the parsed
  value has no property \<open>activeTab\<close>; otherwise it returns the parsed value as it is,
  whatever its other properties are.
\<close>

theorem parseConfigJSON_result:
  "(parseConfigJSON text = None \<longleftrightarrow>
      JSON_parse text = None
      \<or> (\<exists>parsed. JSON_parse text = Some parsed \<and> (\<not> is_object parsed \<or> \<not> has_activeTab parsed)))
   \<and> (\<forall>parsed. parseConfigJSON text = Some parsed \<longleftrightarrow>
          JSON_parse text = Some parsed \<and> is_object parsed \<and> has_activeTab parsed)"
  by (auto simp: parseConfigJSON_def split: option.splits)

theorem parseConfigJSON_result_witness:
  "parseConfigJSON text_malformed = None
   \<and> parseConfigJSON text_number = None
   \<and> parseConfigJSON text_array = None
   \<and> parseConfigJSON text_no_tab = None
   \<and> parseConfigJSON text_tab_only = Some (JObj [(asc ''activeTab'', JNum (asc ''1''))])"
  using parseConfigJSON_result [of text_malformed] parseConfigJSON_result [of text_number]
    parseConfigJSON_result [of text_array] parseConfigJSON_result [of text_no_tab]
    parseConfigJSON_result [of text_tab_only]
  by (simp add: JSON_parse_text_malformed JSON_parse_text_number JSON_parse_text_array
      JSON_parse_text_no_tab JSON_parse_text_tab_only asc_def)

text \<open>
  Claim C10: whenever \<open>encodeConfigToURL\<close> fails, that is returns the empty string,
  \<open>isShareLinkTooLong\<close> returns false.
\<close>

theorem isShareLinkTooLong_of_failed:
  "encodeConfigToURL window config = [] \<Longrightarrow> \<not> isShareLinkTooLong window config"
  by (simp add: isShareLinkTooLong_def)

theorem isShareLinkTooLong_of_failed_witness:
  "encodeConfigToURL None example_config = [] \<and> \<not> isShareLinkTooLong None example_config"
proof -
  have failed: "encodeConfigToURL None example_config = []"
    by (simp add: encodeConfigToURL_def encodeConfigToURL_try_def bind_result_def split: sum.splits)
  from failed isShareLinkTooLong_of_failed [OF failed] show ?thesis by simp
qed


text \<open>
  Claim C9: for every configuration whose query is not empty and consists of white
  space only, \<open>generatePrompt\<close> puts that query, as it is and not the sentinel, in the
  place of every query placeholder, and the second entry of \<open>generateSearchQueries\<close> is
  the query of the second rule built from that query; the first entry is built from it
  too, not from the default theme.
\<close>

theorem whitespace_query_verbatim:
  "query config \<noteq> [] \<Longrightarrow> list_all is_ws (query config) \<Longrightarrow>
   generatePrompt config
     = trim (collapse_newlines (handle_proof config (handle_egov config
         (replace_categories config (replace_exclude_keywords config
           (replace_optional_keywords config (replace_must_keywords config
             (replace_priority_domains config (replace_audiences config
               (replace_scope config
                 (replace_verbatim TOKEN_QUERY (query config)
                   (replace_date config BASE_TEMPLATE))))))))))))
   \<and> (\<forall>prompt. replace_query config prompt = replace_verbatim TOKEN_QUERY (query config) prompt)
   \<and> query config \<noteq> QUERY_NOT_ENTERED
   \<and> 2 \<le> length (generateSearchQueries config)
   \<and> generateSearchQueries config ! 0
       = MUST_KEYWORD @ asc '' '' @ query config @ asc '' '' @ GUIDELINE @ asc '' ''
           @ LATEST_VERSION
   \<and> generateSearchQueries config ! 1
       = query config @ asc '' '' @ GUIDELINE @ asc '' '' @ DOMESTIC"
proof -
  assume q: "query config \<noteq> []" and w: "list_all is_ws (query config)"
  have r: "replace_query config prompt = replace_verbatim TOKEN_QUERY (query config) prompt"
    for prompt
    using q by (simp add: replace_query_def or_else_def replace_all_def
        replace_all_from_verbatim [OF whitespace_inert [OF w]])
  have g: "generateSearchQueries config
      = take 10 ((MUST_KEYWORD @ asc '' '' @ query config @ asc '' '' @ GUIDELINE @ asc '' ''
           @ LATEST_VERSION) # (query config @ asc '' '' @ GUIDELINE @ asc '' '' @ DOMESTIC)
         # (map name (take 5 (filter enabled (keywordChips config)))
            @ (if officialDomainPriority config \<and> siteOperator config
               then map (\<lambda>domain. asc ''site:'' @ domain @ asc '' ''
                           @ or_else (query config) DEFAULT_THEME @ asc '' '' @ GUIDELINE)
                      (take 3 (priorityDomains config))
               else [])))"
    using q by (simp add: generateSearchQueries_def Let_def or_else_def)
  show ?thesis
    unfolding g using whitespace_not_sentinel [OF q w]
    by (simp add: generatePrompt_def substitute_tokens_def r)
qed

theorem whitespace_query_verbatim_witness:
  "query blank_query_config \<noteq> [] \<and> list_all is_ws (query blank_query_config)
   \<and> generateSearchQueries blank_query_config ! 1
       = [0x20, 0x3000, 0x09] @ asc '' '' @ GUIDELINE @ asc '' '' @ DOMESTIC"
  using whitespace_query_verbatim [of blank_query_config]
  by (simp add: blank_query_config_def example_config_def is_ws_def)

text \<open>
  Claim C1, as it is written, fails: with the text of the end marker of the proof block as
  the query and \<open>proofMode\<close> off, the two blocks of the template are removed, and the
  marker text that came in with the query stays in the output.
\<close>

theorem marker_query_keeps_marker:
  "\<not> proofMode marker_query_config
   \<and> sublist PROOF_SECTION_END (generatePrompt marker_query_config)"
proof -
  have "sublist PROOF_SECTION_END (generatePrompt marker_query_config)"
    by (rule prompt_keeps [OF marker_query_admissible value_in_prompt [of QUERY]])
      (simp_all add: marker_query_config_def value_defs sublist_Cons_right)
  then show ?thesis by (simp add: marker_query_config_def example_config_def)
qed

text \<open>
  Claim C1, amended: for every configuration whose rendered texts are plain (none of them
  contains a placeholder, a block marker or a replacement pattern), the output of
  \<open>generatePrompt\<close> contains none of the four block markers. When \<open>eGovCrossReference\<close>
  is on, the output contains the content of the e-Gov block (lines 75 to 83 of the
  template), and when \<open>proofMode\<close> is on, it contains the content of both proof blocks
  (lines 22 to 23 and lines 193 to 194). When \<open>eGovCrossReference\<close> is off and no rendered
  text contains the heading of the e-Gov block, the output contains neither that heading
  nor the content of the block; when \<open>proofMode\<close> is off and no rendered text contains
  the word that heads the proof blocks, the output contains neither that word nor the
  content of either proof block.
\<close>

theorem generatePrompt_blocks:
  "list_all plain (rendered_texts config) \<Longrightarrow>
   \<not> sublist EGOV_SECTION_BEGIN (generatePrompt config)
   \<and> \<not> sublist EGOV_SECTION_END (generatePrompt config)
   \<and> \<not> sublist PROOF_SECTION_BEGIN (generatePrompt config)
   \<and> \<not> sublist PROOF_SECTION_END (generatePrompt config)
   \<and> (eGovCrossReference config \<longrightarrow> sublist text_75_83 (generatePrompt config))
   \<and> (proofMode config \<longrightarrow> sublist text_22_23 (generatePrompt config)
         \<and> sublist text_193_194 (generatePrompt config))
   \<and> (\<not> eGovCrossReference config
         \<and> list_all (\<lambda>v. \<not> sublist EGOV_HEADING v) (rendered_texts config) \<longrightarrow>
         \<not> sublist EGOV_HEADING (generatePrompt config)
         \<and> \<not> sublist text_75_83 (generatePrompt config))
   \<and> (\<not> proofMode config
         \<and> list_all (\<lambda>v. \<not> sublist PROOF_HEADING v) (rendered_texts config) \<longrightarrow>
         \<not> sublist PROOF_HEADING (generatePrompt config)
         \<and> \<not> sublist text_22_23 (generatePrompt config)
         \<and> \<not> sublist text_193_194 (generatePrompt config))"
proof -
  assume plain: "list_all plain (rendered_texts config)"
  note adm = plain_admissible [OF plain]
  note shape = prompt_pieces_shape [of config]
  have markers: "\<not> sublist EGOV_SECTION_BEGIN (generatePrompt config)"
    "\<not> sublist EGOV_SECTION_END (generatePrompt config)"
    "\<not> sublist PROOF_SECTION_BEGIN (generatePrompt config)"
    "\<not> sublist PROOF_SECTION_END (generatePrompt config)"
    using plain_prompt_lacks_mark [OF plain, of EGOV_BEGIN]
      plain_prompt_lacks_mark [OF plain, of EGOV_END]
      plain_prompt_lacks_mark [OF plain, of PROOF_BEGIN]
      plain_prompt_lacks_mark [OF plain, of PROOF_END] by simp_all
  have egov_on: "sublist text_75_83 (generatePrompt config)" if "eGovCrossReference config"
    by (rule prompt_keeps [OF adm, of text_75_83]) (use that shape in \<open>simp_all add: block_contents\<close>)
  have proof_on: "sublist text_22_23 (generatePrompt config)"
    "sublist text_193_194 (generatePrompt config)" if "proofMode config"
    by (rule prompt_keeps [OF adm, of text_22_23], use that shape in \<open>simp_all add: block_contents\<close>)
      (rule prompt_keeps [OF adm, of text_193_194], use that shape in \<open>simp_all add: block_contents\<close>)
  have egov_off: "\<not> sublist EGOV_HEADING (generatePrompt config)"
    if "\<not> eGovCrossReference config"
      and "list_all (\<lambda>v. \<not> sublist EGOV_HEADING v) (rendered_texts config)"
    by (rule plain_prompt_lacks_heading [OF plain that(2) value_pattern_simps(1) heading_no_sep(1)])
      (rule kept_lack_headings(1) [OF that(1)])
  have proof_off: "\<not> sublist PROOF_HEADING (generatePrompt config)"
    if "\<not> proofMode config"
      and "list_all (\<lambda>v. \<not> sublist PROOF_HEADING v) (rendered_texts config)"
    by (rule plain_prompt_lacks_heading [OF plain that(2) value_pattern_simps(2) heading_no_sep(2)])
      (rule kept_lack_headings(2) [OF that(1)])
  have within: "\<not> sublist p s \<Longrightarrow> sublist p t \<Longrightarrow> \<not> sublist t s" for p t s :: jsstring
    using sublist_order.order_trans by blast
  show ?thesis
    using markers egov_on proof_on within [OF egov_off block_contents(5)]
      within [OF proof_off block_contents(10)] within [OF proof_off block_contents(15)]
      egov_off proof_off
    by blast
qed

lemma example_plain:
  "list_all plain (rendered_texts example_config)"
  "list_all (\<lambda>v. \<not> sublist EGOV_HEADING v) (rendered_texts example_config)"
  "list_all (\<lambda>v. \<not> sublist PROOF_HEADING v) (rendered_texts example_config)"
  "list_all plain (rendered_texts both_blocks_config)"
  by (simp_all add: rendered_texts_def plain_def MARKERS_def value_defs sublist_Cons_right
      EGOV_HEADING_def PROOF_HEADING_def both_blocks_config_def)

theorem generatePrompt_blocks_witness:
  "list_all plain (rendered_texts example_config)
   \<and> \<not> eGovCrossReference example_config \<and> \<not> proofMode example_config
   \<and> list_all (\<lambda>v. \<not> sublist EGOV_HEADING v) (rendered_texts example_config)
   \<and> list_all (\<lambda>v. \<not> sublist PROOF_HEADING v) (rendered_texts example_config)
   \<and> \<not> sublist text_75_83 (generatePrompt example_config)
   \<and> \<not> sublist text_22_23 (generatePrompt example_config)
   \<and> \<not> sublist PROOF_SECTION_END (generatePrompt example_config)
   \<and> list_all plain (rendered_texts both_blocks_config)
   \<and> eGovCrossReference both_blocks_config \<and> proofMode both_blocks_config
   \<and> sublist text_75_83 (generatePrompt both_blocks_config)
   \<and> sublist text_193_194 (generatePrompt both_blocks_config)"
proof -
  have off: "\<not> eGovCrossReference example_config" "\<not> proofMode example_config"
    by (simp_all add: example_config_def)
  have on: "eGovCrossReference both_blocks_config" "proofMode both_blocks_config"
    by (simp_all add: both_blocks_config_def)
  from generatePrompt_blocks [OF example_plain(1)] generatePrompt_blocks [OF example_plain(4)]
    example_plain off on
  show ?thesis by blast
qed

text \<open>
  Claim C6, as it is written, fails: a category whose name is the text of the date
  placeholder is rendered after the date has been filled in, so the placeholder text
  stays in the output.
\<close>

theorem token_category_keeps_token:
  "sublist TOKEN_DATE_TODAY (generatePrompt token_category_config)"
  by (rule prompt_keeps [OF token_category_admissible value_in_prompt [of CATEGORIES_LIST]])
    (simp_all add: token_category_config_def value_defs sublist_Cons_right)

text \<open>
  Claim C6, amended: for every configuration whose rendered texts are plain (none of them
  contains a placeholder, a block marker or a replacement pattern), the nine substitutions
  turn the template into the template with every placeholder replaced by its rendered
  value, the blocks and their markers still in place, and the output of \<open>generatePrompt\<close>
  contains none of the nine placeholders.
\<close>

theorem generatePrompt_no_tokens:
  "list_all plain (rendered_texts config) \<Longrightarrow>
   BASE_TEMPLATE = flat TEMPLATE_PIECES
   \<and> substitute_tokens config BASE_TEMPLATE = flat (map (fill config) TEMPLATE_PIECES)
   \<and> list_all (\<lambda>m. inserted m config = step_value m config) TOKENS
   \<and> \<not> sublist TOKEN_DATE_TODAY (generatePrompt config)
   \<and> \<not> sublist TOKEN_QUERY (generatePrompt config)
   \<and> \<not> sublist TOKEN_SCOPE (generatePrompt config)
   \<and> \<not> sublist TOKEN_AUDIENCES_LIST (generatePrompt config)
   \<and> \<not> sublist TOKEN_PRIORITY_DOMAINS_LIST (generatePrompt config)
   \<and> \<not> sublist TOKEN_MUST_KEYWORDS_LIST (generatePrompt config)
   \<and> \<not> sublist TOKEN_OPTIONAL_KEYWORDS_LIST (generatePrompt config)
   \<and> \<not> sublist TOKEN_EXCLUDE_KEYWORDS_LIST (generatePrompt config)
   \<and> \<not> sublist TOKEN_CATEGORIES_LIST (generatePrompt config)"
proof -
  assume plain: "list_all plain (rendered_texts config)"
  from plain_admissible [OF plain] have "steps_ok STEPS config TEMPLATE_PIECES"
    by (simp add: admissible_def)
  from steps_text_pieces [OF this]
  have "substitute_tokens config BASE_TEMPLATE = flat (map (fill config) TEMPLATE_PIECES)"
    by (simp only: substitute_tokens_steps BASE_TEMPLATE_pieces token_pieces_fill [symmetric]
        token_pieces_def)
  moreover have "list_all (\<lambda>m. inserted m config = step_value m config) TOKENS"
    by (simp add: list_all_iff plain_values(2) [OF plain])
  ultimately show ?thesis
    using plain_prompt_lacks_mark [OF plain, of DATE_TODAY]
      plain_prompt_lacks_mark [OF plain, of QUERY]
      plain_prompt_lacks_mark [OF plain, of SCOPE]
      plain_prompt_lacks_mark [OF plain, of AUDIENCES_LIST]
      plain_prompt_lacks_mark [OF plain, of PRIORITY_DOMAINS_LIST]
      plain_prompt_lacks_mark [OF plain, of MUST_KEYWORDS_LIST]
      plain_prompt_lacks_mark [OF plain, of OPTIONAL_KEYWORDS_LIST]
      plain_prompt_lacks_mark [OF plain, of EXCLUDE_KEYWORDS_LIST]
      plain_prompt_lacks_mark [OF plain, of CATEGORIES_LIST]
    by (simp add: BASE_TEMPLATE_pieces)
qed

theorem generatePrompt_no_tokens_witness:
  "list_all plain (rendered_texts both_blocks_config)
   \<and> \<not> sublist TOKEN_QUERY (generatePrompt both_blocks_config)
   \<and> \<not> sublist TOKEN_CATEGORIES_LIST (generatePrompt both_blocks_config)"
  using generatePrompt_no_tokens [OF example_plain(4)] example_plain(4) by blast

text \<open>
  Claim C5 fails for a keyword that contains a replacement pattern: the custom keyword
  \<open>$$\<close> is formatted as the item \<open>$$\<close>, and \<open>String.prototype.replace\<close> writes \<open>$\<close> in
  its place. The output holds the list with the item \<open>$\<close> and holds \<open>$$\<close> nowhere, so it
  does not hold the formatted list.
\<close>

theorem dollar_keyword_altered:
  "formatList (optionalKeywords dollar_keyword_config) bullet
     = bullet @ asc ''SaMD'' @ [0x0A] @ bullet @ asc ''$$''
   \<and> sublist (bullet @ asc ''SaMD'' @ [0x0A] @ bullet @ asc ''$'') (generatePrompt dollar_keyword_config)
   \<and> \<not> sublist (asc ''$$'') (generatePrompt dollar_keyword_config)
   \<and> \<not> sublist (formatList (optionalKeywords dollar_keyword_config) bullet)
         (generatePrompt dollar_keyword_config)"
proof -
  have f: "formatList (optionalKeywords dollar_keyword_config) bullet
     = bullet @ asc ''SaMD'' @ [0x0A] @ bullet @ asc ''$$''"
    by (simp add: dollar_keyword_config_def value_defs)
  have k: "sublist (bullet @ asc ''SaMD'' @ [0x0A] @ bullet @ asc ''$'')
      (generatePrompt dollar_keyword_config)"
    by (rule prompt_keeps [OF dollar_keyword_admissible value_in_prompt [of OPTIONAL_KEYWORDS_LIST]])
      (simp_all add: dollar_keyword_config_def value_defs sublist_Cons_right)
  have "\<not> sublist DOUBLE_DOLLAR (generatePrompt dollar_keyword_config)"
    by (rule prompt_lacks [OF dollar_keyword_admissible _ heading_no_sep(3) kept_lack_headings(3)])
      (simp_all add: dollar_keyword_config_def value_defs DOUBLE_DOLLAR_def sublist_Cons_right)
  then have d: "\<not> sublist (asc ''$$'') (generatePrompt dollar_keyword_config)"
    by (simp add: DOUBLE_DOLLAR_def)
  have "sublist (asc ''$$'') (formatList (optionalKeywords dollar_keyword_config) bullet)"
    unfolding f by (simp add: bullet_def asc_def sublist_Cons_right)
  with d have "\<not> sublist (formatList (optionalKeywords dollar_keyword_config) bullet)
         (generatePrompt dollar_keyword_config)"
    using sublist_order.order_trans by blast
  with f k d show ?thesis by simp
qed

text \<open>
  Claim C4 fails: the share link of a configuration whose query is \<open>~~~\<close> is not empty,
  its parameter holds a \<open>+\<close>, and \<open>decodeConfigFromURL\<close> returns \<open>null\<close> for it,
  whatever the URL parser accepts.
\<close>

theorem share_link_not_decoded:
  "encodeConfigToURL (Some example_location) tilde_config \<noteq> []
   \<and> prefix (asc ''https://example.com/?c='')
        (encodeConfigToURL (Some example_location) tilde_config)
   \<and> 0x2B \<in> set (encodeConfigToURL (Some example_location) tilde_config)
   \<and> (\<forall>parses. decodeConfigFromURL parses
          (encodeConfigToURL (Some example_location) tilde_config) = None)"
proof -
  from tilde_payload obtain component
    where c: "encodeURIComponent (JSON_stringify (config_value tilde_config)) = Inr component"
      and f: "filter (\<lambda>c. c = 0x2B \<or> c = 0x3D) (base64_encode component) = [0x2B, 0x3D, 0x3D]"
    by blast
  let ?p = "base64_encode component"
  let ?base = "asc ''https://example.com'' @ asc ''/''"
  have link: "encodeConfigToURL (Some example_location) tilde_config = ?base @ asc ''?c='' @ ?p"
    by (simp add: encodeConfigToURL_def encodeConfigToURL_try_def bind_result_def c
        btoa_component [OF c] example_location_def)
  have "filter (\<lambda>c. c = 0x2B) (filter (\<lambda>c. c = 0x2B \<or> c = 0x3D) ?p) = filter (\<lambda>c. c = 0x2B) ?p"
    by (rule filter_within)
  then have plus: "filter (\<lambda>c. c = 0x2B) ?p = [0x2B]" by (simp add: f)
  have "0x3D \<in> set (filter (\<lambda>c. c = 0x2B \<or> c = 0x3D) ?p)" by (simp add: f)
  then have pad: "0x3D \<in> set ?p" by simp
  then have ne: "?p \<noteq> []" by auto
  have "0x2B \<in> set (filter (\<lambda>c. c = 0x2B) ?p)" by (simp add: plus)
  then have inside: "0x2B \<in> set ?p" by simp
  have fails: "atob (form_decode ?p) = Inl InvalidCharacterError"
    by (rule atob_plus [OF base64_encode_text _ pad base64_encode_length]) (simp add: plus)
  have "decodeConfigFromURL parses (?base @ asc ''?c='' @ ?p) = None" for parses
  proof (cases "parses (?base @ asc ''?c='' @ ?p)")
    case True
    have "searchParams_get parses (?base @ asc ''?c='' @ ?p) (asc ''c'') = Inr (Some (form_decode ?p))"
    proof (rule link_param [of "base64_encode component" ?base parses])
      show "parses (?base @ asc ''?c='' @ ?p)" by (rule True)
      show "\<forall>c\<in>set ?p. base64_text c" by (rule base64_encode_text)
      show "?p \<noteq> []" by (rule ne)
    qed (simp_all add: asc_def c0_or_space_def tab_or_newline_def)
    then show ?thesis by (simp add: decodeConfigFromURL_def fails bind_result_def)
  next
    case False
    then show ?thesis by (simp add: decodeConfigFromURL_def searchParams_get_def)
  qed
  with inside show ?thesis unfolding link by (simp add: asc_def)
qed

end
